(* ===== verification/Prelude.thy ===== *)
theory Prelude
  imports Complex_Main "HOL-Library.Sublist"
begin

text \<open>
  Shared vocabulary of the VESCL model. The C++ sources compute in \<open>float\<close> and
  \<open>double\<close>; the model computes in \<open>real\<close> (exact arithmetic, no rounding), which is the
  abstraction every theory of the development makes. This theory holds what that
  choice needs: C's truncating float-to-int conversion, evaluation helpers for square
  roots, and the positional operations of \<open>std::list\<close> (insert before an iterator,
  erase a run of nodes, overwrite consecutive nodes) on HOL lists, where an iterator is
  the index of its node and \<open>end()\<close> is the length of the list.
\<close>

named_theorems list_ops \<open>equations of the std::list positional operations\<close>

section \<open>C conversions\<close>

text \<open>\<open>int(x)\<close> and \<open>(int)x\<close> on a floating value truncate towards zero.\<close>

definition c_trunc :: "real \<Rightarrow> int" where
  "c_trunc x = (if 0 \<le> x then \<lfloor>x\<rfloor> else \<lceil>x\<rceil>)"

lemma c_trunc_nonneg [simp]: "0 \<le> x \<Longrightarrow> c_trunc x = \<lfloor>x\<rfloor>"
  by (simp add: c_trunc_def)

lemma c_trunc_neg [simp]: "x < 0 \<Longrightarrow> c_trunc x = \<lceil>x\<rceil>"
  by (simp add: c_trunc_def)

lemma c_trunc_small: "0 \<le> x \<Longrightarrow> x < 1 \<Longrightarrow> c_trunc x = 0"
  by (simp add: floor_eq_iff)

lemma c_trunc_ge0: "0 \<le> x \<Longrightarrow> 0 \<le> c_trunc x"
  by simp

text \<open>
  An \<open>int\<close> product that leaves the 32-bit range: C++ leaves signed overflow undefined;
  the model takes the two's complement wrap-around that the compiled code produces,
  written out on \<open>int\<close>.
\<close>

definition int32 :: "int \<Rightarrow> int" where
  "int32 x = (x + 2 ^ 31) mod 2 ^ 32 - 2 ^ 31"

lemma int32_signed_take_bit: "int32 x = signed_take_bit 31 x"
  by (simp add: int32_def signed_take_bit_eq_take_bit_shift take_bit_eq_mod)

lemma int32_id [simp]: "- (2 ^ 31) \<le> x \<Longrightarrow> x < 2 ^ 31 \<Longrightarrow> int32 x = x"
  by (simp add: int32_def)

lemma int32_range: "- (2 ^ 31) \<le> int32 x \<and> int32 x < 2 ^ 31"
  by (simp add: int32_def)

lemma int32_mult: "int32 (int32 a * b) = int32 (a * b)"
  by (simp add: int32_signed_take_bit signed_take_bit_mult [of 31 a b, symmetric])
     (metis signed_take_bit_mult signed_take_bit_signed_take_bit min.idem)

lemma nat_int_minus1 [simp]: "nat (int n - 1) = n - 1"
  by (cases n) simp_all

lemma tl_drop_plus1: "tl (drop n xs) = drop (n + 1) xs"
  by (simp add: drop_Suc tl_drop)

section \<open>Convex combinations\<close>

lemma convex_between:
  fixes s :: real
  assumes "0 \<le> s" "s \<le> 1" "lo \<le> a" "a \<le> hi" "lo \<le> b" "b \<le> hi"
  shows "lo \<le> (1 - s) * a + s * b \<and> (1 - s) * a + s * b \<le> hi"
proof -
  have "(1 - s) * lo \<le> (1 - s) * a" "(1 - s) * a \<le> (1 - s) * hi"
    using assms by (simp_all add: mult_left_mono)
  moreover have "s * lo \<le> s * b" "s * b \<le> s * hi"
    using assms by (simp_all add: mult_left_mono)
  ultimately show ?thesis by (simp add: algebra_simps)
qed

section \<open>Square roots on concrete values\<close>

lemma sqrt_less_iff_sq: "0 \<le> y \<Longrightarrow> (sqrt x < y) = (x < y\<^sup>2)"
proof (cases "0 \<le> x")
  case True
  assume y: "0 \<le> y"
  have "sqrt x < y \<longleftrightarrow> sqrt x < sqrt (y\<^sup>2)" using y by simp
  also have "\<dots> \<longleftrightarrow> x < y\<^sup>2" by (rule real_sqrt_less_iff)
  finally show ?thesis .
next
  case False
  assume y: "0 \<le> y"
  with False have "sqrt x < 0" by simp
  moreover have "0 \<le> y\<^sup>2" by simp
  ultimately show ?thesis using False y by linarith
qed

lemma sqrt_eval: "y * y = x \<Longrightarrow> 0 \<le> y \<Longrightarrow> sqrt x = y"
  by (metis power2_eq_square real_sqrt_unique)

section \<open>std::list positional operations\<close>

text \<open>\<open>l.insert(it, v)\<close> inserts \<open>v\<close> before the node at position \<open>i\<close>.\<close>

definition insert_at :: "nat \<Rightarrow> 'a \<Rightarrow> 'a list \<Rightarrow> 'a list" where
  "insert_at i x xs = take i xs @ x # drop i xs"

text \<open>\<open>k\<close> successive \<open>l.erase(it)\<close> starting at position \<open>i\<close>.\<close>

definition erase_range :: "nat \<Rightarrow> nat \<Rightarrow> 'a list \<Rightarrow> 'a list" where
  "erase_range i k xs = take i xs @ drop (i + k) xs"

text \<open>\<open>*it = v; it = next(it)\<close> for each \<open>v\<close> of \<open>ys\<close>, starting at position \<open>i\<close>.\<close>

definition overwrite_at :: "nat \<Rightarrow> 'a list \<Rightarrow> 'a list \<Rightarrow> 'a list" where
  "overwrite_at i ys xs = take i xs @ ys @ drop (i + length ys) xs"

lemma length_insert_at [simp, list_ops]: "i \<le> length xs \<Longrightarrow> length (insert_at i x xs) = Suc (length xs)"
  by (simp add: insert_at_def)

lemma length_erase_range [simp, list_ops]:
  "i + k \<le> length xs \<Longrightarrow> length (erase_range i k xs) = length xs - k"
  by (simp add: erase_range_def)

lemma length_overwrite_at [simp, list_ops]:
  "i + length ys \<le> length xs \<Longrightarrow> length (overwrite_at i ys xs) = length xs"
  by (simp add: overwrite_at_def)

lemma insert_at_nth_before [list_ops]: "j < i \<Longrightarrow> i \<le> length xs \<Longrightarrow> insert_at i x xs ! j = xs ! j"
  by (simp add: insert_at_def nth_append)

lemma insert_at_nth_at [simp, list_ops]: "i \<le> length xs \<Longrightarrow> insert_at i x xs ! i = x"
  by (simp add: insert_at_def nth_append)

lemma insert_at_last [list_ops]: "insert_at (length xs) x xs = xs @ [x]"
  by (simp add: insert_at_def)

lemma overwrite_at_nth_before [list_ops]:
  "j < i \<Longrightarrow> j < length xs \<Longrightarrow> overwrite_at i ys xs ! j = xs ! j"
  by (simp add: overwrite_at_def nth_append)

lemma overwrite_at_nth_after [list_ops]:
  "i + length ys \<le> j \<Longrightarrow> j < length xs \<Longrightarrow> overwrite_at i ys xs ! j = xs ! j"
  by (auto simp add: overwrite_at_def nth_append min_def)

lemma overwrite_at_Nil [simp, list_ops]: "overwrite_at i [] xs = xs"
  by (simp add: overwrite_at_def)

lemma subseq_insert_at [list_ops]: "subseq xs (insert_at i x xs)"
  unfolding insert_at_def
  by (metis append_take_drop_id list_emb_Cons list_emb_append_mono subseq_order.order_refl)

end
