(* ===== verification/Vec.thy ===== *)
theory Vec
  imports Prelude
begin

text \<open>
  \<open>Math::Vec2D\<close> (src/Source/Model/Math.h, Math.cpp) and \<open>CurvePoint\<close>
  (src/Source/Model/CurvePoint.h). The two coordinates \<open>m_vec[0]\<close>, \<open>m_vec[1]\<close> are the
  fields \<open>vx\<close>, \<open>vy\<close> of the datatype \<open>vec2\<close>; the overloaded operators are the
  operations of the type classes \<open>ab_group_add\<close> and \<open>real_vector\<close>, instantiated here,
  so that the library's algebra (\<open>algebra_simps\<close>, \<open>scaleR_*\<close>, \<open>sum_list\<close>) applies
  to the model's vectors. A \<open>CurvePoint\<close> is a record of a position and a radius.
\<close>

section \<open>Vec2D\<close>

datatype vec2 = Vec2D (vx: real) (vy: real)

text \<open>
  \<open>Vec2D::operator+=\<close>, \<open>operator-=\<close> and \<open>operator*=\<close> update the two components;
  \<open>operator+\<close>, \<open>operator-\<close> and \<open>operator*\<close> apply them to a copy. Both forms are the
  functions below, which the vector-space instances use as \<open>+\<close>, \<open>-\<close> and \<open>*\<^sub>R\<close>.
\<close>

definition vec_add :: "vec2 \<Rightarrow> vec2 \<Rightarrow> vec2" where
  "vec_add v w = Vec2D (vx v + vx w) (vy v + vy w)"

definition vec_sub :: "vec2 \<Rightarrow> vec2 \<Rightarrow> vec2" where
  "vec_sub v w = Vec2D (vx v - vx w) (vy v - vy w)"

definition vec_scale :: "real \<Rightarrow> vec2 \<Rightarrow> vec2" where
  "vec_scale a v = Vec2D (vx v * a) (vy v * a)"

instantiation vec2 :: ab_group_add
begin

definition zero_vec2 :: vec2 where
  "0 = Vec2D 0 0"

definition plus_vec2 :: "vec2 \<Rightarrow> vec2 \<Rightarrow> vec2" where
  "v + w = vec_add v w"

definition minus_vec2 :: "vec2 \<Rightarrow> vec2 \<Rightarrow> vec2" where
  "v - w = vec_sub v w"

definition uminus_vec2 :: "vec2 \<Rightarrow> vec2" where
  "- v = Vec2D (- vx v) (- vy v)"

instance
proof
  fix a b c :: vec2
  show "a + b + c = a + (b + c)" by (simp add: plus_vec2_def vec_add_def)
  show "a + b = b + a" by (simp add: plus_vec2_def vec_add_def)
  show "0 + a = a" by (simp add: plus_vec2_def vec_add_def zero_vec2_def)
  show "- a + a = 0" by (simp add: plus_vec2_def vec_add_def uminus_vec2_def zero_vec2_def)
  show "a - b = a + - b" by (simp add: plus_vec2_def vec_add_def minus_vec2_def vec_sub_def uminus_vec2_def)
qed

end

instantiation vec2 :: real_vector
begin

text \<open>\<open>operator*(double)\<close> and the friend \<open>operator*(double, Vec2D)\<close>: both scale.\<close>

definition scaleR_vec2 :: "real \<Rightarrow> vec2 \<Rightarrow> vec2" where
  "scaleR a v = vec_scale a v"

instance
proof
  fix a b :: real and x y :: vec2
  show "a *\<^sub>R (x + y) = a *\<^sub>R x + a *\<^sub>R y"
    by (simp add: scaleR_vec2_def vec_scale_def plus_vec2_def vec_add_def algebra_simps)
  show "(a + b) *\<^sub>R x = a *\<^sub>R x + b *\<^sub>R x"
    by (simp add: scaleR_vec2_def vec_scale_def plus_vec2_def vec_add_def algebra_simps)
  show "a *\<^sub>R b *\<^sub>R x = (a * b) *\<^sub>R x"
    by (simp add: scaleR_vec2_def vec_scale_def)
  show "1 *\<^sub>R x = x"
    by (simp add: scaleR_vec2_def vec_scale_def)
qed

end

named_theorems vec_ops \<open>component equations of the Vec2D operators\<close>

lemma vx_ops [simp, vec_ops]:
  "vx 0 = 0" "vx (v + w) = vx v + vx w" "vx (v - w) = vx v - vx w"
  "vx (- v) = - vx v" "vx (a *\<^sub>R v) = a * vx v"
  by (simp_all add: zero_vec2_def plus_vec2_def vec_add_def minus_vec2_def vec_sub_def uminus_vec2_def scaleR_vec2_def vec_scale_def)

lemma vy_ops [simp, vec_ops]:
  "vy 0 = 0" "vy (v + w) = vy v + vy w" "vy (v - w) = vy v - vy w"
  "vy (- v) = - vy v" "vy (a *\<^sub>R v) = a * vy v"
  by (simp_all add: zero_vec2_def plus_vec2_def vec_add_def minus_vec2_def vec_sub_def uminus_vec2_def scaleR_vec2_def vec_scale_def)

lemma Vec2D_ops [simp, vec_ops]:
  "Vec2D a b + Vec2D c d = Vec2D (a + c) (b + d)"
  "Vec2D a b - Vec2D c d = Vec2D (a - c) (b - d)"
  "r *\<^sub>R Vec2D a b = Vec2D (r * a) (r * b)"
  "Vec2D 0 0 = 0"
  by (simp_all add: plus_vec2_def vec_add_def minus_vec2_def vec_sub_def scaleR_vec2_def vec_scale_def zero_vec2_def)

lemma vec2_eq_iff: "v = w \<longleftrightarrow> vx v = vx w \<and> vy v = vy w"
  by (cases v; cases w) simp

definition length_v :: "vec2 \<Rightarrow> real" where
  "length_v v = sqrt (vx v * vx v + vy v * vy v)"

text \<open>\<open>std::numeric_limits<float>::epsilon()\<close>, \<open>2^-23\<close>.\<close>

definition flt_epsilon :: real where
  "flt_epsilon = 1 / 8388608"

definition normalized :: "vec2 \<Rightarrow> vec2" where
  "normalized v =
     (let l = length_v v in if flt_epsilon < l then Vec2D (vx v / l) (vy v / l) else v)"

definition dotProduct :: "vec2 \<Rightarrow> vec2 \<Rightarrow> real" where
  "dotProduct a b = vx a * vx b + vy a * vy b"

definition crossProduct :: "vec2 \<Rightarrow> vec2 \<Rightarrow> real" where
  "crossProduct a b = vy a * vx b - vx a * vy b"

section \<open>CurvePoint\<close>

record CurvePoint =
  pos :: vec2
  radius :: real

definition mkCurvePoint :: "vec2 \<Rightarrow> real \<Rightarrow> CurvePoint" where
  "mkCurvePoint p r = \<lparr>pos = p, radius = r\<rparr>"

section \<open>Algebra of the vector operations\<close>

lemma flt_epsilon_pos [simp]: "0 < flt_epsilon" and flt_epsilon_nonneg [simp]: "0 \<le> flt_epsilon"
  by (simp_all add: flt_epsilon_def)

lemma length_v_nonneg [simp]: "0 \<le> length_v v"
  by (simp add: length_v_def)

lemma length_v_sq: "(length_v v)\<^sup>2 = dotProduct v v"
  by (simp add: length_v_def dotProduct_def)

lemma length_v_zero_iff [simp]: "length_v v = 0 \<longleftrightarrow> v = 0"
proof -
  have "length_v v = 0 \<longleftrightarrow> vx v * vx v + vy v * vy v = 0"
    by (simp add: length_v_def)
  also have "\<dots> \<longleftrightarrow> vx v = 0 \<and> vy v = 0"
    by (simp add: add_nonneg_eq_0_iff)
  finally show ?thesis by (simp add: vec2_eq_iff)
qed

lemma length_v_zero [simp]: "length_v 0 = 0"
  by simp

lemma length_v_diff_pos: "0 < length_v (a - b) \<longleftrightarrow> a \<noteq> b"
proof -
  have "length_v (a - b) = 0 \<longleftrightarrow> a = b" by simp
  moreover have "0 \<le> length_v (a - b)" by simp
  ultimately show ?thesis by linarith
qed

lemma length_v_scale [simp]: "length_v (a *\<^sub>R v) = \<bar>a\<bar> * length_v v"
proof -
  have "a * vx v * (a * vx v) + a * vy v * (a * vy v) = a\<^sup>2 * (vx v * vx v + vy v * vy v)"
    by (simp add: power2_eq_square algebra_simps)
  then show ?thesis by (simp add: length_v_def real_sqrt_mult)
qed

lemma length_v_minus_commute: "length_v (a - b) = length_v (b - a)"
  by (simp add: length_v_def algebra_simps)

lemma dotProduct_comm: "dotProduct a b = dotProduct b a"
  by (simp add: dotProduct_def mult.commute)

lemma dotProduct_zero [simp]: "dotProduct 0 b = 0" "dotProduct a 0 = 0"
  by (simp_all add: dotProduct_def)

lemma dotProduct_scale [simp]:
  "dotProduct (r *\<^sub>R a) b = r * dotProduct a b" "dotProduct a (r *\<^sub>R b) = r * dotProduct a b"
  by (simp_all add: dotProduct_def algebra_simps)

lemma dotProduct_add [simp]:
  "dotProduct (a + b) c = dotProduct a c + dotProduct b c"
  "dotProduct c (a + b) = dotProduct c a + dotProduct c b"
  by (simp_all add: dotProduct_def algebra_simps)

lemma normalized_small: "length_v v \<le> flt_epsilon \<Longrightarrow> normalized v = v"
  by (simp add: normalized_def)

lemma normalized_scale: "flt_epsilon < length_v v \<Longrightarrow> normalized v = (1 / length_v v) *\<^sub>R v"
  by (cases v) (simp add: normalized_def Let_def)

lemma normalized_zero [simp]: "normalized 0 = 0"
  by (rule normalized_small) simp

text \<open>
  \<open>Vec2D::normalized\<close> returns a unit vector whenever the length of its argument
  exceeds the float epsilon guard of \<open>Vec2D::normalize\<close>.
\<close>

theorem length_normalized: "flt_epsilon < length_v v \<Longrightarrow> length_v (normalized v) = 1"
proof -
  assume big: "flt_epsilon < length_v v"
  then have "length_v v \<noteq> 0" using flt_epsilon_pos by linarith
  with big show ?thesis by (simp add: normalized_scale)
qed


theorem length_normalized_witness:
  "flt_epsilon < length_v (Vec2D 3 4) \<and> length_v (normalized (Vec2D 3 4)) = 1"
proof -
  have l: "length_v (Vec2D 3 4) = 5" by (simp add: length_v_def sqrt_eval)
  have h: "flt_epsilon < length_v (Vec2D 3 4)" by (simp add: l flt_epsilon_def)
  show ?thesis using h length_normalized [OF h] by simp
qed

end
