(* ===== verification/Sampling.thy ===== *)
theory Sampling
  imports Vec
begin

text \<open>
  Vexel subdivision (src/Source/Model/Curve.cpp, \<open>Curve::sampleVexel\<close> and
  \<open>Curve::getSampledCurvePoints\<close>). The walk over consecutive curve points that both
  \<open>getSampledCurvePoints\<close> and \<open>Curve::select\<close> perform (the iterator \<open>it\<close> with the
  sliding \<open>p1, p2, p3, dirTan1, dirTan2\<close>) is the list of its frames,
  \<open>curve_vexels\<close>: both operations are written over it, so they agree by construction on
  which cubic is sampled between two points. The lemmas show that sampling keeps the
  curve's endpoints for every spacing, returns the points themselves when the spacing
  exceeds every segment, and never produces a radius outside the curve's radii.
\<close>

type_synonym vexel = "CurvePoint \<times> CurvePoint \<times> CurvePoint \<times> vec2 \<times> vec2"

section \<open>Definitions\<close>

text \<open>One sample of the cubic: Bezier blend of the position, linear blend of the radius.\<close>

definition bezier_point :: "CurvePoint \<Rightarrow> CurvePoint \<Rightarrow> vec2 \<Rightarrow> vec2 \<Rightarrow> real \<Rightarrow> CurvePoint" where
  "bezier_point p1 p2 c1 c2 s =
     (let ss = s * s; t = 1 - s; tt = t * t in
      \<lparr>pos = (t * tt) *\<^sub>R pos p1 + (3 * tt * s) *\<^sub>R c1 + (3 * t * ss) *\<^sub>R c2 + (s * ss) *\<^sub>R pos p2,
       radius = t * radius p1 + s * radius p2\<rparr>)"

definition sampleVexel ::
  "CurvePoint \<Rightarrow> CurvePoint \<Rightarrow> CurvePoint \<Rightarrow> vec2 \<Rightarrow> vec2 \<Rightarrow> real \<Rightarrow> CurvePoint list" where
  "sampleVexel p1 p2 p3 dirTan1 dirTan2 maxPointSpacing =
     (let dirLine = pos p2 - pos p1; len = length_v dirLine; cosCornerAngle = 0.2 in
      if len \<noteq> 0 then
        (let dirLine = normalized dirLine;
             numSamples = 1 + c_trunc (len / maxPointSpacing) in
         (if 1 < numSamples then
            (let oneThirdLen = len / 3;
                 cosAngle1 = dotProduct dirTan1 dirLine;
                 cosAngle2 = dotProduct dirTan2 dirLine;
                 lenTan1 = (if cosCornerAngle \<le> cosAngle1 then oneThirdLen / cosAngle1 else 0);
                 lenTan2 = (if cosCornerAngle \<le> cosAngle2 then oneThirdLen / cosAngle2 else 0);
                 c1 = pos p1 + lenTan1 *\<^sub>R dirTan1;
                 c2 = pos p2 - lenTan2 *\<^sub>R dirTan2
             in map (\<lambda>idx. bezier_point p1 p2 c1 c2 (real idx / real_of_int numSamples))
                  [1..<nat numSamples])
          else []) @ [p2])
      else [])"

text \<open>
  The loop of \<open>getSampledCurvePoints\<close> and \<open>select\<close>: \<open>p1, p2\<close> are consecutive points,
  \<open>p3\<close> the point after \<open>p2\<close> (\<open>p2\<close> itself at the end), \<open>dirTan2\<close> the normalised
  \<open>p3 - p1\<close>, and \<open>dirTan1\<close> the previous frame's \<open>dirTan2\<close>.
\<close>

fun vexel_frames :: "CurvePoint \<Rightarrow> CurvePoint \<Rightarrow> vec2 \<Rightarrow> CurvePoint list \<Rightarrow> vexel list" where
  "vexel_frames p1 p2 dirTan1 [] = [(p1, p2, p2, dirTan1, normalized (pos p2 - pos p1))]"
| "vexel_frames p1 p2 dirTan1 (p3 # rest) =
     (let dirTan2 = normalized (pos p3 - pos p1)
      in (p1, p2, p3, dirTan1, dirTan2) # vexel_frames p2 p3 dirTan2 rest)"

text \<open>The first point is doubled as its own predecessor (\<open>p0 = p1 = front\<close>).\<close>

definition curve_vexels :: "CurvePoint list \<Rightarrow> vexel list" where
  "curve_vexels pts =
     (case pts of p0 # p2 # rest \<Rightarrow> vexel_frames p0 p2 (normalized (pos p2 - pos p0)) rest
      | _ \<Rightarrow> [])"

definition sample_vexel :: "real \<Rightarrow> vexel \<Rightarrow> CurvePoint list" where
  "sample_vexel s v = (case v of (p1, p2, p3, t1, t2) \<Rightarrow> sampleVexel p1 p2 p3 t1 t2 s)"

definition getSampledCurvePoints :: "CurvePoint list \<Rightarrow> real \<Rightarrow> CurvePoint list" where
  "getSampledCurvePoints pts maxPointSpacing =
     (if length pts < 3 then pts
      else hd pts # concat (map (sample_vexel maxPointSpacing) (curve_vexels pts)))"

text \<open>Consecutive point pairs of a curve and the length of a segment.\<close>

definition segments :: "CurvePoint list \<Rightarrow> (CurvePoint \<times> CurvePoint) list" where
  "segments pts = zip pts (tl pts)"

definition seg_len :: "CurvePoint \<times> CurvePoint \<Rightarrow> real" where
  "seg_len pq = length_v (pos (snd pq) - pos (fst pq))"

text \<open>A concrete control point, for the instances below.\<close>

definition cp :: "real \<Rightarrow> real \<Rightarrow> real \<Rightarrow> CurvePoint" where
  "cp x y r = mkCurvePoint (Vec2D x y) r"

section \<open>One vexel\<close>

lemma sampleVexel_zero_len: "pos p2 = pos p1 \<Longrightarrow> sampleVexel p1 p2 p3 t1 t2 s = []"
  by (simp add: sampleVexel_def)

lemma sampleVexel_last:
  "pos p2 \<noteq> pos p1 \<Longrightarrow> \<exists>xs. sampleVexel p1 p2 p3 t1 t2 s = xs @ [p2]"
  by (simp add: sampleVexel_def Let_def)

lemma sampleVexel_pos_last: "pos (last (p1 # sampleVexel p1 p2 p3 t1 t2 s)) = pos p2"
proof (cases "pos p2 = pos p1")
  case True
  then show ?thesis by (simp add: sampleVexel_zero_len)
next
  case False
  then obtain xs where "sampleVexel p1 p2 p3 t1 t2 s = xs @ [p2]"
    using sampleVexel_last by blast
  then show ?thesis by simp
qed

lemma sampleVexel_last_eq:
  "sampleVexel p1 p2 p3 t1 t2 s \<noteq> [] \<Longrightarrow> last (sampleVexel p1 p2 p3 t1 t2 s) = p2"
proof (cases "pos p2 = pos p1")
  case True
  then show "sampleVexel p1 p2 p3 t1 t2 s \<noteq> [] \<Longrightarrow> ?thesis" by (simp add: sampleVexel_zero_len)
next
  case False
  then obtain xs where "sampleVexel p1 p2 p3 t1 t2 s = xs @ [p2]"
    using sampleVexel_last by blast
  then show ?thesis by simp
qed

lemma sampleVexel_short:
  assumes "0 < length_v (pos p2 - pos p1)" "length_v (pos p2 - pos p1) < s"
  shows "sampleVexel p1 p2 p3 t1 t2 s = [p2]"
proof -
  from assms have "0 < s" by linarith
  with assms have "c_trunc (length_v (pos p2 - pos p1) / s) = 0"
    by (intro c_trunc_small) simp_all
  moreover from assms(1) have "pos p2 \<noteq> pos p1" by (simp add: length_v_diff_pos)
  ultimately show ?thesis by (simp add: sampleVexel_def Let_def)
qed

lemma sampleVexel_length:
  assumes "pos p2 \<noteq> pos p1" "0 < s"
  shows "length (sampleVexel p1 p2 p3 t1 t2 s) = nat \<lfloor>length_v (pos p2 - pos p1) / s\<rfloor> + 1"
proof -
  have "0 \<le> length_v (pos p2 - pos p1) / s" using assms(2) by simp
  then have "0 \<le> \<lfloor>length_v (pos p2 - pos p1) / s\<rfloor>" by simp
  moreover have "Suc 0 \<le> nat \<lfloor>L / s\<rfloor>" if "s \<le> L" for L
  proof -
    from that assms(2) have "1 \<le> L / s" by simp
    then show ?thesis by linarith
  qed
  ultimately show ?thesis using assms by (simp add: sampleVexel_def Let_def nat_add_distrib)
qed

lemma sampleVexel_set:
  "q \<in> set (sampleVexel p1 p2 p3 t1 t2 s) \<Longrightarrow>
   q = p2 \<or> (\<exists>c1 c2 idx n. 1 \<le> idx \<and> idx < nat n \<and> q = bezier_point p1 p2 c1 c2 (real idx / real_of_int n))"
  by (fastforce simp: sampleVexel_def Let_def split: if_splits)

lemma sampleVexel_radius:
  assumes "lo \<le> radius p1" "radius p1 \<le> hi" "lo \<le> radius p2" "radius p2 \<le> hi"
    and "q \<in> set (sampleVexel p1 p2 p3 t1 t2 s)"
  shows "lo \<le> radius q \<and> radius q \<le> hi"
proof -
  have bez: "lo \<le> radius (bezier_point p1 p2 c1 c2 (real idx / real_of_int n)) \<and>
             radius (bezier_point p1 p2 c1 c2 (real idx / real_of_int n)) \<le> hi"
    if "1 \<le> idx" "idx < nat n" for c1 c2 idx n
  proof -
    from that have "0 \<le> real idx / real_of_int n" "real idx / real_of_int n \<le> 1" by auto
    from convex_between [OF this assms(1-4)] show ?thesis
      by (simp add: bezier_point_def Let_def)
  qed
  from sampleVexel_set [OF assms(5)] show ?thesis
    using assms(3,4) bez by blast
qed

section \<open>The frame walk\<close>

lemma vexel_frames_pairs:
  "map (\<lambda>(a, b, _). (a, b)) (vexel_frames p1 p2 t rest) = zip (p1 # p2 # rest) (p2 # rest)"
  by (induction p1 p2 t rest rule: vexel_frames.induct) (simp_all add: Let_def)

lemma vexel_frames_seconds: "map (\<lambda>(_, b, _). b) (vexel_frames p1 p2 t rest) = p2 # rest"
  by (induction p1 p2 t rest rule: vexel_frames.induct) (simp_all add: Let_def)

lemma vexel_frames_points:
  "(a, b, c, t1, t2) \<in> set (vexel_frames p1 p2 t rest) \<Longrightarrow> a \<in> set (p1 # p2 # rest) \<and> b \<in> set (p2 # rest)"
  by (induction p1 p2 t rest rule: vexel_frames.induct) (auto simp: Let_def)

lemma vexel_frames_pos_last:
  "pos (last (p1 # concat (map (sample_vexel s) (vexel_frames p1 p2 t rest)))) = pos (last (p2 # rest))"
proof (induction p1 p2 t rest rule: vexel_frames.induct)
  case (1 p1 p2 t)
  show ?case
    using sampleVexel_pos_last [of p1 p2 p2 t "normalized (pos p2 - pos p1)" s]
    by (simp add: sample_vexel_def)
next
  case (2 p1 p2 t p3 rest)
  let ?S = "sampleVexel p1 p2 p3 t (normalized (pos p3 - pos p1)) s"
  let ?L = "concat (map (sample_vexel s) (vexel_frames p2 p3 (normalized (pos p3 - pos p1)) rest))"
  have IH: "pos (last (p2 # ?L)) = pos (last (p3 # rest))" using "2.IH" by simp
  have S: "pos (last (p1 # ?S)) = pos p2" by (rule sampleVexel_pos_last)
  have split: "concat (map (sample_vexel s) (vexel_frames p1 p2 t (p3 # rest))) = ?S @ ?L"
    by (simp add: Let_def sample_vexel_def)
  have "pos (last (p1 # ?S @ ?L)) = pos (last (p3 # rest))"
  proof (cases "?L = []")
    case True
    with IH S show ?thesis by (metis append_Nil2 last.simps list.discI)
  next
    case False
    then have "last (p1 # ?S @ ?L) = last ?L" "last (p2 # ?L) = last ?L"
      by (metis append_is_Nil_conv last_ConsR last_appendR)+
    with IH show ?thesis by simp
  qed
  moreover have "last (p2 # p3 # rest) = last (p3 # rest)" by simp
  ultimately show ?case by (simp only: split)
qed

lemma vexel_frames_short:
  assumes "\<forall>pq \<in> set (zip (p1 # p2 # rest) (p2 # rest)). 0 < seg_len pq \<and> seg_len pq < s"
  shows "concat (map (sample_vexel s) (vexel_frames p1 p2 t rest)) = p2 # rest"
  using assms
proof (induction p1 p2 t rest rule: vexel_frames.induct)
  case (1 p1 p2 t)
  then show ?case by (simp add: sample_vexel_def seg_len_def sampleVexel_short)
next
  case (2 p1 p2 t p3 rest)
  then show ?case by (simp add: Let_def sample_vexel_def seg_len_def sampleVexel_short)
qed

lemma curve_vexels_points:
  "(a, b, c, t1, t2) \<in> set (curve_vexels pts) \<Longrightarrow> a \<in> set pts \<and> b \<in> set pts"
  by (auto simp: curve_vexels_def split: list.splits dest!: vexel_frames_points)

section \<open>Properties of getSampledCurvePoints\<close>

lemma getSampled_long:
  "3 \<le> length pts \<Longrightarrow> \<exists>p0 p2 rest. pts = p0 # p2 # rest \<and>
     getSampledCurvePoints pts s = p0 # concat (map (sample_vexel s) (vexel_frames p0 p2 (normalized (pos p2 - pos p0)) rest))"
  by (cases pts rule: remdups_adj.cases) (auto simp: getSampledCurvePoints_def curve_vexels_def)

text \<open>
  C10: the sampled curve starts with the curve's first point and ends at the position of
  its last point, so the rendered curve and the selection test span the whole curve.
\<close>

theorem getSampled_endpoints:
  "hd (getSampledCurvePoints pts s) = hd pts \<and>
   pos (last (getSampledCurvePoints pts s)) = pos (last pts)"
proof (cases "length pts < 3")
  case True
  then show ?thesis by (simp add: getSampledCurvePoints_def)
next
  case False
  then obtain p0 p2 rest where pts: "pts = p0 # p2 # rest" and
    g: "getSampledCurvePoints pts s = p0 # concat (map (sample_vexel s) (vexel_frames p0 p2 (normalized (pos p2 - pos p0)) rest))"
    using getSampled_long [of pts s] by auto
  have "pos (last (p0 # concat (map (sample_vexel s) (vexel_frames p0 p2 (normalized (pos p2 - pos p0)) rest))))
        = pos (last (p2 # rest))" by (rule vexel_frames_pos_last)
  then show ?thesis unfolding g by (simp add: pts)
qed

text \<open>
  A curve whose consecutive points are distinct and closer than the spacing is
  rendered as it is: every vexel contributes exactly its end point.
\<close>

theorem getSampled_short_identity:
  "\<forall>pq \<in> set (segments pts). 0 < seg_len pq \<and> seg_len pq < s \<Longrightarrow> getSampledCurvePoints pts s = pts"
proof (cases "length pts < 3")
  case True
  then show "?thesis" by (simp add: getSampledCurvePoints_def)
next
  case False
  assume short: "\<forall>pq \<in> set (segments pts). 0 < seg_len pq \<and> seg_len pq < s"
  from False obtain p0 p2 rest where pts: "pts = p0 # p2 # rest" and
    g: "getSampledCurvePoints pts s = p0 # concat (map (sample_vexel s) (vexel_frames p0 p2 (normalized (pos p2 - pos p0)) rest))"
    using getSampled_long [of pts s] by auto
  from short have "\<forall>pq \<in> set (zip (p0 # p2 # rest) (p2 # rest)). 0 < seg_len pq \<and> seg_len pq < s"
    by (simp add: segments_def pts)
  then show ?thesis unfolding g by (simp add: pts vexel_frames_short)
qed

text \<open>
  Sampling never widens or narrows the vessel beyond its control points: every
  sampled radius lies between bounds that hold for all radii of the curve.
\<close>

theorem getSampled_radius_bounds:
  assumes "\<forall>p \<in> set pts. lo \<le> radius p \<and> radius p \<le> hi"
  shows "\<forall>q \<in> set (getSampledCurvePoints pts s). lo \<le> radius q \<and> radius q \<le> hi"
proof
  fix q assume q: "q \<in> set (getSampledCurvePoints pts s)"
  show "lo \<le> radius q \<and> radius q \<le> hi"
  proof (cases "length pts < 3")
    case True
    with q assms show ?thesis by (simp add: getSampledCurvePoints_def)
  next
    case False
    then have ne: "pts \<noteq> []" by auto
    from False q have "q = hd pts \<or> (\<exists>v \<in> set (curve_vexels pts). q \<in> set (sample_vexel s v))"
      by (auto simp: getSampledCurvePoints_def)
    then show ?thesis
    proof
      assume "q = hd pts"
      with ne assms show ?thesis by simp
    next
      assume "\<exists>v \<in> set (curve_vexels pts). q \<in> set (sample_vexel s v)"
      then obtain a b c t1 t2 where v: "(a, b, c, t1, t2) \<in> set (curve_vexels pts)"
        and qs: "q \<in> set (sampleVexel a b c t1 t2 s)"
        by (auto simp: sample_vexel_def)
      from curve_vexels_points [OF v] assms
      have "lo \<le> radius a" "radius a \<le> hi" "lo \<le> radius b" "radius b \<le> hi" by auto
      from sampleVexel_radius [OF this qs] show ?thesis .
    qed
  qed
qed

theorem getSampled_short_identity_witness:
  "list_all (\<lambda>pq. 0 < seg_len pq \<and> seg_len pq < 2) (segments [cp 0 0 1, cp 1 0 1, cp 2 0 1]) \<and>
   getSampledCurvePoints [cp 0 0 1, cp 1 0 1, cp 2 0 1] 2 = [cp 0 0 1, cp 1 0 1, cp 2 0 1]"
proof -
  have h: "\<forall>pq \<in> set (segments [cp 0 0 1, cp 1 0 1, cp 2 0 1]). 0 < seg_len pq \<and> seg_len pq < 2"
    by (simp add: segments_def seg_len_def cp_def mkCurvePoint_def length_v_def)
  show ?thesis using h getSampled_short_identity [OF h] by (simp add: list_all_iff)
qed

theorem getSampled_radius_bounds_witness:
  "list_all (\<lambda>p. 1 \<le> radius p \<and> radius p \<le> 3) [cp 0 0 1, cp 3 0 2, cp 6 0 3] \<and>
   list_all (\<lambda>q. 1 \<le> radius q \<and> radius q \<le> 3) (getSampledCurvePoints [cp 0 0 1, cp 3 0 2, cp 6 0 3] 1)"
proof -
  have h: "\<forall>p \<in> set [cp 0 0 1, cp 3 0 2, cp 6 0 3]. 1 \<le> radius p \<and> radius p \<le> 3"
    by (simp add: cp_def mkCurvePoint_def)
  show ?thesis using h getSampled_radius_bounds [OF h, of 1] by (simp add: list_all_iff)
qed

end
