(* ===== verification/Smoothing.thy ===== *)
theory Smoothing
  imports Vec
begin

text \<open>
  The two FIR filters of src/Source/Model/Curve.cpp. \<open>Curve::applySmoothing\<close> convolves
  the whole point list with a 7-tap kernel, keeping the end points; the code slides a
  window \<open>filterPoints[7]\<close> along the list with an iterator \<open>it\<close>, padding past both
  ends with the end points. Its model \<open>applySmoothing\<close> keeps that window and iterator
  (\<open>fill_window\<close>, \<open>smooth_loop\<close>); \<open>smooth_ref\<close> is the textbook convolution with a
  clamped index, and the main lemma proves that the sliding window computes it.
  \<open>Curve::applyFilter\<close> and \<open>Curve::filterPoint\<close> smooth the raw input buffer of a
  stroke with a 4-tap half kernel and overwrite the points before the edit point.
\<close>

section \<open>applySmoothing\<close>

datatype SmoothingType = ST_Points | ST_Widths | ST_All

definition smooth_w :: "real list" where
  "smooth_w = [0.008, 0.072, 0.24, 0.36, 0.24, 0.072, 0.008]"

text \<open>One output point from the seven window points, per smoothing type.\<close>

definition smoothed_point :: "SmoothingType \<Rightarrow> CurvePoint list \<Rightarrow> CurvePoint" where
  "smoothed_point ty fp =
     (let wpos = sum_list (map (\<lambda>j. (smooth_w ! j) *\<^sub>R pos (fp ! j)) [0..<7]);
          wrad = sum_list (map (\<lambda>j. smooth_w ! j * radius (fp ! j)) [0..<7])
      in case ty of
           ST_All \<Rightarrow> \<lparr>pos = wpos, radius = wrad\<rparr>
         | ST_Points \<Rightarrow> \<lparr>pos = wpos, radius = radius (fp ! 3)\<rparr>
         | ST_Widths \<Rightarrow> \<lparr>pos = pos (fp ! 3), radius = wrad\<rparr>)"

text \<open>
  The initialisation loop over \<open>idx = 0..6\<close>: before the first point repeat the
  first point, then copy \<open>*it++\<close> while \<open>idx - filterWidth < numCurvePoints - 1\<close>, after
  that repeat the last point. Returns the window and the iterator.
\<close>

fun fill_window ::
  "int \<Rightarrow> CurvePoint \<Rightarrow> CurvePoint \<Rightarrow> nat list \<Rightarrow> CurvePoint list \<Rightarrow> CurvePoint list \<times> CurvePoint list" where
  "fill_window n fstp lstp [] it = ([], it)"
| "fill_window n fstp lstp (idx # idxs) it =
     (let (x, it') = (if int idx - 3 < 0 then (fstp, it)
                      else if int idx - 3 < n - 1 then (hd it, tl it)
                      else (lstp, it));
          (w, it'') = fill_window n fstp lstp idxs it'
      in (x # w, it''))"

text \<open>
  The main loop \<open>for (i = 1; i < numCurvePoints - 1; i++)\<close>: emit the smoothed point,
  shift the window left and fill its last slot from \<open>*it++\<close> or the last point.
\<close>

function smooth_loop ::
  "SmoothingType \<Rightarrow> int \<Rightarrow> CurvePoint \<Rightarrow> int \<Rightarrow> CurvePoint list \<Rightarrow> CurvePoint list \<Rightarrow> CurvePoint list" where
  "smooth_loop ty n lstp i fp it =
     (if i < n - 1 then
        (let s = smoothed_point ty fp;
             (nxt, it') = (if i + 3 < n - 1 then (hd it, tl it) else (lstp, it))
         in s # smooth_loop ty n lstp (i + 1) (tl fp @ [nxt]) it')
      else [])"
  by pat_completeness auto
termination
  by (relation "measure (\<lambda>(ty, n, lstp, i, fp, it). nat (n - 1 - i))") auto

declare smooth_loop.simps [simp del]

definition applySmoothing :: "SmoothingType \<Rightarrow> CurvePoint list \<Rightarrow> CurvePoint list" where
  "applySmoothing ty pts =
     (let n = int (length pts) in
      if n \<le> 3 then pts
      else (let (fp, it) = fill_window n (hd pts) (last pts) [0..<7] (tl pts)
            in hd pts # smooth_loop ty n (last pts) 1 fp it @ [last pts]))"

subsection \<open>Reference convolution\<close>

definition clamp_idx :: "nat \<Rightarrow> int \<Rightarrow> nat" where
  "clamp_idx n k = nat (min (int n - 1) (max 0 k))"

definition window :: "CurvePoint list \<Rightarrow> int \<Rightarrow> CurvePoint list" where
  "window pts i =
     (let px = (\<lambda>k. pts ! clamp_idx (length pts) k)
      in [px (i - 3), px (i - 2), px (i - 1), px i, px (i + 1), px (i + 2), px (i + 3)])"

definition smooth_ref :: "SmoothingType \<Rightarrow> CurvePoint list \<Rightarrow> CurvePoint list" where
  "smooth_ref ty pts =
     (let n = length pts in
      if n \<le> 3 then pts
      else hd pts # map (\<lambda>i. smoothed_point ty (window pts (int i))) [1..<n - 1] @ [last pts])"

section \<open>applyFilter\<close>

text \<open>\<open>Curve::filterPoint\<close>: the input point at \<open>idx\<close>, clamped to the buffer.\<close>

definition filterPoint :: "CurvePoint list \<Rightarrow> int \<Rightarrow> CurvePoint" where
  "filterPoint inp idx =
     (if idx < 0 then inp ! 0
      else if int (length inp) \<le> idx then inp ! (length inp - 1)
      else inp ! nat idx)"

text \<open>\<open>w0/2, w1, w2, w3\<close>: the centre weight is applied twice.\<close>

definition filter_w :: "real list" where
  "filter_w = [0.18, 0.24, 0.072, 0.008]"

definition filtered_input :: "CurvePoint list \<Rightarrow> int \<Rightarrow> CurvePoint" where
  "filtered_input inp i =
     \<lparr>pos = sum_list (map (\<lambda>j. (filter_w ! j) *\<^sub>R
                (pos (filterPoint inp (i - int j)) + pos (filterPoint inp (i + int j)))) [0..<4]),
      radius = sum_list (map (\<lambda>j. filter_w ! j *
                (radius (filterPoint inp (i - int j)) + radius (filterPoint inp (i + int j)))) [0..<4])\<rparr>"

text \<open>
  \<open>Curve::applyFilter(itEdit)\<close>: input indices \<open>idxFirst .. idxLast - 1\<close> are smoothed and
  written to the \<open>numToFilter\<close> curve points just before the edit point.
\<close>

definition applyFilter :: "CurvePoint list \<Rightarrow> nat \<Rightarrow> CurvePoint list \<Rightarrow> CurvePoint list" where
  "applyFilter inp itEdit pts =
     (let filterWidth = 3; n = int (length inp);
          idxFirst = (if filterWidth < n then filterWidth else 1);
          idxLast = n - 1;
          numToFilter = idxLast - idxFirst
      in if numToFilter \<le> 0 then pts
         else overwrite_at (itEdit - nat numToFilter)
                (map (filtered_input inp) [idxFirst..idxLast - 1]) pts)"

section \<open>The sliding window computes the convolution\<close>

lemma fill_window_correct:
  assumes "pts \<noteq> []" "k \<le> m"
  shows "fill_window (int (length pts)) (hd pts) (last pts) [k..<m] (drop (max 1 (k - 2)) pts) =
         (map (\<lambda>idx. pts ! clamp_idx (length pts) (int idx - 2)) [k..<m], drop (max 1 (m - 2)) pts)"
  using assms(2)
proof (induction "m - k" arbitrary: k)
  case 0
  then show ?case by simp
next
  case (Suc d)
  then have km: "k < m" and d: "d = m - Suc k" by simp_all
  have IH: "fill_window (int (length pts)) (hd pts) (last pts) [Suc k..<m] (drop (max 1 (Suc k - 2)) pts) =
         (map (\<lambda>idx. pts ! clamp_idx (length pts) (int idx - 2)) [Suc k..<m], drop (max 1 (m - 2)) pts)"
    by (rule Suc.hyps(1)) (use d km in simp_all)
  have step: "(if int k - 3 < 0 then (hd pts, drop (max 1 (k - 2)) pts)
               else if int k - 3 < int (length pts) - 1 then (hd (drop (max 1 (k - 2)) pts), tl (drop (max 1 (k - 2)) pts))
               else (last pts, drop (max 1 (k - 2)) pts))
            = (pts ! clamp_idx (length pts) (int k - 2), drop (max 1 (Suc k - 2)) pts)"
  proof (cases "k \<le> 2")
    case True
    then have "max 1 (k - 2) = 1" "max 1 (Suc k - 2) = 1" by simp_all
    with True show ?thesis using assms(1) by (simp add: clamp_idx_def hd_conv_nth)
  next
    case False
    show ?thesis
    proof (cases "k - 2 < length pts")
      case True
      from False have "max 1 (k - 2) = k - 2" "max 1 (Suc k - 2) = Suc (k - 2)" by simp_all
      with False True show ?thesis
        by (simp add: clamp_idx_def hd_drop_conv_nth drop_Suc tl_drop nat_diff_distrib)
    next
      case nl: False
      from False have "max 1 (k - 2) = k - 2" "max 1 (Suc k - 2) = Suc (k - 2)" by simp_all
      with False nl assms(1) show ?thesis
        by (simp add: clamp_idx_def last_conv_nth nat_diff_distrib)
    qed
  qed
  from km have "[k..<m] = k # [Suc k..<m]" by (simp add: upt_conv_Cons)
  then show ?case by (simp only: fill_window.simps(2) Let_def step IH prod.case list.map)
qed

lemma window_1: "pts \<noteq> [] \<Longrightarrow> window pts 1 = map (\<lambda>idx. pts ! clamp_idx (length pts) (int idx - 2)) [0..<7]"
  by (simp add: window_def upt_rec)

lemma window_shift:
  assumes "length pts \<ge> 4" "0 \<le> i"
  shows "tl (window pts i) @ [if i + 3 < int (length pts) - 1 then hd (drop (nat i + 4) pts) else last pts]
         = window pts (i + 1)"
proof -
  have "(if i + 3 < int (length pts) - 1 then hd (drop (nat i + 4) pts) else last pts)
        = pts ! clamp_idx (length pts) (i + 4)"
  proof -
    from assms have "pts \<noteq> []" by auto
    with assms show ?thesis by (auto simp: clamp_idx_def hd_drop_conv_nth last_conv_nth nat_add_distrib)
  qed
  then show ?thesis by (simp add: window_def algebra_simps)
qed

lemma smooth_loop_correct:
  "length pts \<ge> 4 \<Longrightarrow> 1 \<le> i \<Longrightarrow>
   smooth_loop ty (int (length pts)) (last pts) i (window pts i) (drop (nat i + 4) pts)
   = map (\<lambda>j. smoothed_point ty (window pts (int j))) [nat i..<length pts - 1]"
proof (induction "length pts - 1 - nat i" arbitrary: i)
  case 0
  then have "\<not> i < int (length pts) - 1" by linarith
  then show ?case using 0 by (simp add: smooth_loop.simps)
next
  case (Suc d)
  then have lt: "i < int (length pts) - 1" by linarith
  have IH: "smooth_loop ty (int (length pts)) (last pts) (i + 1) (window pts (i + 1)) (drop (nat (i + 1) + 4) pts)
     = map (\<lambda>j. smoothed_point ty (window pts (int j))) [nat (i + 1)..<length pts - 1]"
    by (rule Suc.hyps(1)) (use Suc.hyps(2) Suc.prems in linarith)+
  have it: "(if i + 3 < int (length pts) - 1 then (hd (drop (nat i + 4) pts), tl (drop (nat i + 4) pts))
             else (last pts, drop (nat i + 4) pts))
          = (if i + 3 < int (length pts) - 1 then hd (drop (nat i + 4) pts) else last pts,
             drop (nat (i + 1) + 4) pts)"
    using Suc.prems by (auto simp: tl_drop_plus1 nat_add_distrib)
  have up: "[nat i..<length pts - 1] = nat i # [nat (i + 1)..<length pts - 1]"
    using lt Suc.prems by (simp add: upt_conv_Cons nat_add_distrib)
  let ?nxt = "if i + 3 < int (length pts) - 1 then hd (drop (nat i + 4) pts) else last pts"
  have "smooth_loop ty (int (length pts)) (last pts) i (window pts i) (drop (nat i + 4) pts)
        = smoothed_point ty (window pts i) # smooth_loop ty (int (length pts)) (last pts) (i + 1)
            (tl (window pts i) @ [?nxt]) (drop (nat (i + 1) + 4) pts)"
    by (subst smooth_loop.simps) (simp only: lt if_True Let_def it prod.case)
  also have "tl (window pts i) @ [?nxt] = window pts (i + 1)"
    using Suc.prems by (intro window_shift) simp_all
  moreover have "int (nat i) = i" using Suc.prems by simp
  ultimately show ?case by (simp only: IH up list.map)
qed

lemma applySmoothing_conv: "applySmoothing ty pts = smooth_ref ty pts"
proof (cases "length pts \<le> 3")
  case True
  then show ?thesis by (simp add: applySmoothing_def smooth_ref_def)
next
  case False
  then have ne: "pts \<noteq> []" and four: "4 \<le> length pts" by auto
  have "fill_window (int (length pts)) (hd pts) (last pts) [0..<7] (drop (max 1 (0 - 2)) pts)
        = (map (\<lambda>idx. pts ! clamp_idx (length pts) (int idx - 2)) [0..<7], drop (max 1 (7 - 2)) pts)"
    by (rule fill_window_correct) (use ne in simp_all)
  then have fw: "fill_window (int (length pts)) (hd pts) (last pts) [0..<7] (tl pts)
        = (window pts 1, drop (nat 1 + 4) pts)"
    using ne by (simp add: window_1 drop_Suc)
  have "smooth_loop ty (int (length pts)) (last pts) 1 (window pts 1) (drop (nat 1 + 4) pts)
        = map (\<lambda>j. smoothed_point ty (window pts (int j))) [nat 1..<length pts - 1]"
    by (rule smooth_loop_correct) (use four in simp_all)
  with False fw show ?thesis by (simp add: applySmoothing_def smooth_ref_def)
qed

section \<open>Properties of applySmoothing\<close>

lemma smooth_ref_nth:
  assumes "3 < length pts" "k < length pts"
  shows "smooth_ref ty pts ! k =
           (if k = 0 \<or> k = length pts - 1 then pts ! k else smoothed_point ty (window pts (int k)))"
proof -
  from assms have "pts \<noteq> []" by auto
  with assms show ?thesis
    by (auto simp: smooth_ref_def Let_def nth_append nth_Cons' hd_conv_nth last_conv_nth)
qed

lemma length_smooth_ref [simp]: "length (smooth_ref ty pts) = length pts"
  by (auto simp: smooth_ref_def Let_def)

lemma window_centre: "k < length pts \<Longrightarrow> window pts (int k) ! 3 = pts ! k"
  by (simp add: window_def clamp_idx_def)

lemma smoothed_point_centre:
  "radius (smoothed_point ST_Points fp) = radius (fp ! 3)"
  "pos (smoothed_point ST_Widths fp) = pos (fp ! 3)"
  by (simp_all add: smoothed_point_def Let_def)

lemma smooth_ref_keeps_radius: "map radius (smooth_ref ST_Points pts) = map radius pts"
proof (cases "length pts \<le> 3")
  case True
  then show ?thesis by (simp add: smooth_ref_def)
next
  case False
  then show ?thesis
    by (intro nth_equalityI) (auto simp: smooth_ref_nth smoothed_point_centre window_centre)
qed

lemma smooth_ref_keeps_pos: "map pos (smooth_ref ST_Widths pts) = map pos pts"
proof (cases "length pts \<le> 3")
  case True
  then show ?thesis by (simp add: smooth_ref_def)
next
  case False
  then show ?thesis
    by (intro nth_equalityI) (auto simp: smooth_ref_nth smoothed_point_centre window_centre)
qed

section \<open>Properties of applyFilter\<close>

text \<open>The number of curve points the filter overwrites, \<open>numToFilter\<close> when positive.\<close>

definition filter_count :: "CurvePoint list \<Rightarrow> nat" where
  "filter_count inp = nat ((int (length inp) - 1) - (if 3 < int (length inp) then 3 else 1))"

lemma filter_count_le: "filter_count inp + 2 \<le> length inp \<or> filter_count inp = 0"
  by (auto simp: filter_count_def)

lemma applyFilter_alt:
  "applyFilter inp itEdit pts =
     overwrite_at (itEdit - filter_count inp)
       (map (filtered_input inp) [(if 3 < int (length inp) then 3 else 1)..int (length inp) - 2]) pts"
  by (auto simp: applyFilter_def filter_count_def Let_def)

lemma length_filtered_block:
  "length (map (filtered_input inp) [(if 3 < int (length inp) then 3 else 1)..int (length inp) - 2])
   = filter_count inp"
  by (simp add: filter_count_def)

lemma applyFilter_block:
  obtains ys where "applyFilter inp itEdit pts = overwrite_at (itEdit - filter_count inp) ys pts"
    and "length ys = filter_count inp"
proof
  let ?ys = "map (filtered_input inp) [(if 3 < int (length inp) then 3 else 1)..int (length inp) - 2]"
  show "applyFilter inp itEdit pts = overwrite_at (itEdit - filter_count inp) ?ys pts"
    by (simp only: applyFilter_alt)
  show "length ?ys = filter_count inp"
    by (simp only: length_filtered_block)
qed

lemma length_applyFilter:
  "filter_count inp \<le> itEdit \<Longrightarrow> itEdit \<le> length pts \<Longrightarrow>
   length (applyFilter inp itEdit pts) = length pts"
  by (rule applyFilter_block [of inp itEdit pts]) simp

lemma applyFilter_unchanged:
  "filter_count inp \<le> itEdit \<Longrightarrow> itEdit \<le> length pts \<Longrightarrow>
   k < itEdit - filter_count inp \<or> itEdit \<le> k \<Longrightarrow> k < length pts \<Longrightarrow>
   applyFilter inp itEdit pts ! k = pts ! k"
  by (rule applyFilter_block [of inp itEdit pts])
     (auto simp: overwrite_at_nth_before overwrite_at_nth_after)

section \<open>Claims on the smoothing filters\<close>

text \<open>
  C13: \<open>Curve::applySmoothing\<close>, with its sliding window of seven points refilled from
  the list iterator, computes the 7-tap convolution of the point list with the end
  points held fixed and the indices clamped at both ends.
\<close>

theorem applySmoothing_eq_ref: "applySmoothing ty pts = smooth_ref ty pts"
  by (rule applySmoothing_conv)

text \<open>
  Smoothing only the positions keeps every radius, and smoothing only the widths
  keeps every position.
\<close>

theorem applySmoothing_modes:
  "map radius (applySmoothing ST_Points pts) = map radius pts \<and>
   map pos (applySmoothing ST_Widths pts) = map pos pts"
  by (simp add: applySmoothing_conv smooth_ref_keeps_radius smooth_ref_keeps_pos)

text \<open>Smoothing keeps the number of points and both end points of the curve.\<close>

theorem applySmoothing_frame:
  "length (applySmoothing ty pts) = length pts \<and> hd (applySmoothing ty pts) = hd pts \<and>
   last (applySmoothing ty pts) = last pts"
  by (simp add: applySmoothing_conv smooth_ref_def Let_def, arith)

end
