(* ===== verification/Curve.thy ===== *)
theory Curve
  imports Sampling Smoothing
begin

text \<open>
  \<open>class Curve\<close> (src/Source/Model/Curve.h, Curve.cpp): the record \<open>Curve\<close> has one
  field per data member. \<open>std::list<CurvePoint>\<close> is a HOL list; the iterator
  \<open>m_iteratorOfSelection\<close> is the index of its node (\<open>end()\<close> is the length), which is
  sound because the code only reads it between \<open>select\<close> and the first \<open>addPoint\<close>,
  before any later mutation. Each member function is a function from the record (and
  its arguments) to the updated record, with the early returns and guards of the code as
  \<open>if\<close> branches, composed the way \<open>addPoint\<close> composes them: direction resolution,
  then \<open>append\<close>, then \<open>absorb\<close>.
\<close>

section \<open>State\<close>

datatype EditType = ET_None | ET_Draw | ET_Overdraw

datatype EditDirection = ED_None | ED_Forwards | ED_Backwards

record Curve =
  c_id :: int
  defaultRadius :: real
  curvePoints :: "CurvePoint list"
  selectionRadius :: real
  iteratorOfSelection :: nat
  editType :: EditType
  startPoint :: CurvePoint
  numPointsBeforeEdit :: int
  numPointsAfterEdit :: int
  minDistToPreviousPoint :: real
  editDir :: EditDirection
  inputPoints :: "CurvePoint list"

text \<open>\<open>Curve::Curve(int id)\<close>; the iterator is default-constructed there, here \<open>0\<close>.\<close>

definition Curve_new :: "int \<Rightarrow> Curve" where
  "Curve_new i =
     \<lparr>c_id = i, defaultRadius = 1, curvePoints = [], selectionRadius = 1,
      iteratorOfSelection = 0, editType = ET_None, startPoint = mkCurvePoint 0 0,
      numPointsBeforeEdit = 0, numPointsAfterEdit = 0, minDistToPreviousPoint = 1,
      editDir = ED_None, inputPoints = []\<rparr>"

definition clear :: "Curve \<Rightarrow> Curve" where
  "clear c = c\<lparr>curvePoints := [], inputPoints := []\<rparr>"

section \<open>Selection\<close>

text \<open>
  The inner loop of \<open>select\<close> over the samples of one vexel. \<open>minDist\<close> is initialised
  to the selection radius and never updated, so every sample within the radius is taken:
  a sample strictly inside the vexel is inserted before \<open>it\<close> (the node of \<open>p2\<close>) and
  selected, the last sample selects \<open>it\<close> itself. \<open>base\<close> is the index of the first
  node after the already processed prefix, \<open>ins\<close> the samples inserted so far.
\<close>

fun select_samples ::
  "vec2 \<Rightarrow> real \<Rightarrow> nat \<Rightarrow> CurvePoint list \<Rightarrow> CurvePoint list \<Rightarrow> nat option \<Rightarrow> CurvePoint list \<times> nat option" where
  "select_samples p minDist base ins [] sel = (ins, sel)"
| "select_samples p minDist base ins [q] sel =
     (if length_v (pos q - p) < minDist then (ins, Some (base + length ins)) else (ins, sel))"
| "select_samples p minDist base ins (q # qs) sel =
     (if length_v (pos q - p) < minDist
      then select_samples p minDist base (ins @ [q]) qs (Some (base + length ins))
      else select_samples p minDist base ins qs sel)"

text \<open>The outer loop over the vexels; \<open>pre\<close> is the list up to and excluding \<open>it\<close>.\<close>

fun select_scan ::
  "vec2 \<Rightarrow> real \<Rightarrow> vexel list \<Rightarrow> CurvePoint list \<Rightarrow> nat option \<Rightarrow> CurvePoint list \<times> nat option" where
  "select_scan p r [] pre sel = (pre, sel)"
| "select_scan p r ((p1, p2, p3, t1, t2) # vs) pre sel =
     (let (ins, sel') = select_samples p r (length pre) [] (sampleVexel p1 p2 p3 t1 t2 r) sel
      in select_scan p r vs (pre @ ins @ [p2]) sel')"

definition select :: "Curve \<Rightarrow> vec2 \<Rightarrow> real \<Rightarrow> Curve \<times> bool" where
  "select c p selRadius =
     (let pts = curvePoints c;
          c0 = c\<lparr>selectionRadius := selRadius, editDir := ED_None,
                 iteratorOfSelection := length pts, inputPoints := []\<rparr>
      in if length pts < 1 then (c0, False)
         else if length_v (pos (hd pts) - p) < selRadius then (c0\<lparr>iteratorOfSelection := 0\<rparr>, True)
         else if length_v (pos (last pts) - p) < selRadius
           then (c0\<lparr>iteratorOfSelection := length pts - 1\<rparr>, True)
         else if length pts < 2 then (c0, False)
         else (let (pts', sel) = select_scan p selRadius (curve_vexels pts) [hd pts] None
               in case sel of
                    None \<Rightarrow> (c0\<lparr>curvePoints := pts'\<rparr>, False)
                  | Some i \<Rightarrow> (c0\<lparr>curvePoints := pts', iteratorOfSelection := i\<rparr>, True)))"

section \<open>Drawing and overdrawing\<close>

definition endDrawing :: "Curve \<Rightarrow> Curve" where
  "endDrawing c =
     (if editType c = ET_None then c
      else c\<lparr>curvePoints := (if editDir c = ED_Backwards then rev (curvePoints c) else curvePoints c),
             inputPoints := [], editDir := ED_None, editType := ET_None\<rparr>)"

definition startDrawing :: "Curve \<Rightarrow> CurvePoint \<Rightarrow> real \<Rightarrow> Curve \<times> bool" where
  "startDrawing c point minDist =
     (let c0 = (if editType c \<noteq> ET_None then (endDrawing c)\<lparr>editType := ET_None\<rparr> else c);
          c1 = c0\<lparr>minDistToPreviousPoint := minDist\<rparr>
      in if length (curvePoints c1) = 0 then
           (c1\<lparr>startPoint := point, curvePoints := curvePoints c1 @ [point],
               inputPoints := inputPoints c1 @ [point], iteratorOfSelection := 0,
               editDir := ED_Forwards, numPointsBeforeEdit := 0, numPointsAfterEdit := 0,
               editType := ET_Draw\<rparr>, True)
         else (let (c2, ok) = select c1 (pos point) (selectionRadius c1)
               in if ok then
                    (c2\<lparr>startPoint := curvePoints c2 ! iteratorOfSelection c2, editDir := ED_None,
                        numPointsBeforeEdit := int (iteratorOfSelection c2),
                        numPointsAfterEdit :=
                          int (length (curvePoints c2)) - int (iteratorOfSelection c2) - 1,
                        editType := ET_Overdraw\<rparr>, True)
                  else (c2, False)))"

text \<open>\<open>Curve::editIterator\<close>: the index of the edit point.\<close>

definition editIterator :: "Curve \<Rightarrow> nat" where
  "editIterator c = (if numPointsBeforeEdit c < 0 then 0 else nat (numPointsBeforeEdit c))"

definition editDirection :: "Curve \<Rightarrow> vec2 \<Rightarrow> EditDirection" where
  "editDirection c point =
     (let p = pos (startPoint c); dir = point - p in
      if length_v dir < 0.01 then ED_None
      else (let i = iteratorOfSelection c; pts = curvePoints c;
                dirDescending = (if i \<noteq> 0 then normalized (pos (pts ! (i - 1)) - p) else 0);
                dirAscending = (if Suc i < length pts then normalized (pos (pts ! Suc i) - p) else 0)
            in if dotProduct dir dirDescending \<le> dotProduct dir dirAscending then ED_Forwards
               else ED_Backwards))"

text \<open>
  \<open>Curve::append\<close>: a corner (angle over 90 degrees at the edit point) doubles the edit
  point and restarts the input buffer; the new point is inserted after the edit point and
  the input filter smooths the points before it.
\<close>

definition append_pt :: "Curve \<Rightarrow> CurvePoint \<Rightarrow> Curve" where
  "append_pt c point =
     (if editType c = ET_Overdraw \<and> numPointsBeforeEdit c = 0 then c
      else (let itEdit = editIterator c; pts = curvePoints c; p1 = pts ! itEdit;
                cosCornerAngle = 0;
                corner = (0 < numPointsBeforeEdit c \<and>
                          (let p2 = pts ! (itEdit - 1); v01 = pos point - pos p1; v12 = pos p1 - pos p2
                           in dotProduct (normalized v01) (normalized v12) < cosCornerAngle));
                c1 = (if corner
                      then c\<lparr>inputPoints := [p1], curvePoints := insert_at (Suc itEdit) p1 pts,
                             numPointsBeforeEdit := numPointsBeforeEdit c + 1\<rparr>
                      else c);
                itEdit1 = (if corner then Suc itEdit else itEdit);
                c2 = c1\<lparr>curvePoints := insert_at (Suc itEdit1) point (curvePoints c1),
                        inputPoints := inputPoints c1 @ [point],
                        numPointsBeforeEdit := numPointsBeforeEdit c1 + 1\<rparr>
            in c2\<lparr>curvePoints := applyFilter (inputPoints c2) (Suc itEdit1) (curvePoints c2)\<rparr>))"

text \<open>
  The search loop of \<open>Curve::absorb\<close>: walk from \<open>itFirst\<close> until a point lies ahead of
  the input (positive dot product), remembering how many points lead up to the closest.
\<close>

fun absorb_scan :: "vec2 \<Rightarrow> vec2 \<Rightarrow> CurvePoint list \<Rightarrow> real \<Rightarrow> nat \<Rightarrow> nat \<Rightarrow> nat" where
  "absorb_scan editToPoint p [] minDist numConsidered numToErase = numToErase"
| "absorb_scan editToPoint p (q # qs) minDist numConsidered numToErase =
     (let pointToCurvePoint = pos q - p in
      if 0 < dotProduct editToPoint pointToCurvePoint then numToErase
      else (let dist = length_v pointToCurvePoint in
            if dist < minDist
            then absorb_scan editToPoint p qs dist (Suc numConsidered) numConsidered
            else absorb_scan editToPoint p qs minDist (Suc numConsidered) numToErase))"

definition absorb :: "Curve \<Rightarrow> CurvePoint \<Rightarrow> Curve" where
  "absorb c point =
     (if editType c = ET_Draw \<or> numPointsAfterEdit c = 0 then c
      else (let pts = curvePoints c; itEdit = editIterator c;
                itFirst = (if numPointsBeforeEdit c = 0 then itEdit else Suc itEdit);
                editToPoint = pos point - pos (pts ! itEdit);
                minDist = length_v (pos (pts ! itFirst) - pos point);
                numToErase = absorb_scan editToPoint (pos point) (drop itFirst pts) minDist 1 0;
                c1 = c\<lparr>curvePoints := erase_range itFirst numToErase pts,
                       numPointsAfterEdit := numPointsAfterEdit c - int numToErase\<rparr>;
                c2 = (if numPointsAfterEdit c1 = 1
                      then c1\<lparr>curvePoints := butlast (curvePoints c1), numPointsAfterEdit := 0\<rparr>
                      else c1)
            in if length (curvePoints c2) \<le> 1 then endDrawing (c2\<lparr>curvePoints := []\<rparr>) else c2))"

definition addPoint :: "Curve \<Rightarrow> CurvePoint \<Rightarrow> Curve" where
  "addPoint c point =
     (if editType c = ET_None then c
      else (let itEdit = editIterator c;
                editToPoint = pos point - pos (curvePoints c ! itEdit)
            in if length_v editToPoint < minDistToPreviousPoint c then c
               else if editDir c = ED_None then
                 (let d = editDirection c (pos point) in
                  if d = ED_None then c
                  else (let c1 = c\<lparr>editDir := d\<rparr>;
                            c2 = (if d = ED_Backwards
                                  then c1\<lparr>numPointsBeforeEdit := numPointsAfterEdit c1,
                                          numPointsAfterEdit := numPointsBeforeEdit c1,
                                          curvePoints := rev (curvePoints c1)\<rparr>
                                  else c1)
                        in absorb (append_pt c2 point) point))
               else absorb (append_pt c point) point))"

section \<open>Sample states\<close>

text \<open>Concrete points and curves at which the theorems below are instantiated.\<close>

definition pt :: "real \<Rightarrow> real \<Rightarrow> CurvePoint" where
  "pt x y = mkCurvePoint (Vec2D x y) 1"

definition od2 :: Curve where
  "od2 = (Curve_new 0)\<lparr>curvePoints := [pt 0 0, pt 1 0], editType := ET_Overdraw,
           editDir := ED_Forwards, numPointsAfterEdit := 1\<rparr>"

definition dr1 :: Curve where
  "dr1 = fst (startDrawing (Curve_new 0) (pt 0 0) 1)"

definition sp1 :: Curve where
  "sp1 = (Curve_new 0)\<lparr>curvePoints := [pt 0 0], editType := ET_Overdraw\<rparr>"

section \<open>Selection lemmas\<close>

text \<open>\<open>sel_ok L sel\<close>: a selected index names a node of \<open>L\<close> within the radius.\<close>

definition sel_ok :: "vec2 \<Rightarrow> real \<Rightarrow> CurvePoint list \<Rightarrow> nat option \<Rightarrow> bool" where
  "sel_ok p r L sel = (case sel of None \<Rightarrow> True | Some i \<Rightarrow> i < length L \<and> length_v (pos (L ! i) - p) < r)"

lemma sel_ok_append: "sel_ok p r L sel \<Longrightarrow> sel_ok p r (L @ M) sel"
  by (auto simp: sel_ok_def nth_append split: option.splits)

lemma select_samples_spec:
  "select_samples p r base ins qs sel = (ins', sel') \<Longrightarrow> base = length pre \<Longrightarrow>
   (qs \<noteq> [] \<Longrightarrow> last qs = p2) \<Longrightarrow> sel_ok p r (pre @ ins @ [p2]) sel \<Longrightarrow>
   sel_ok p r (pre @ ins' @ [p2]) sel' \<and> (\<exists>e. ins' = ins @ e)"
proof (induction p r base ins qs sel arbitrary: ins' sel' rule: select_samples.induct)
  case (1 p r base ins sel)
  then show ?case by simp
next
  case (2 p r base ins q sel)
  then show ?case by (auto simp: sel_ok_def nth_append split: if_splits)
next
  case (3 p r base ins q v va sel)
  have l: "last (v # va) = p2" using "3.prems"(3) by simp
  show ?case
  proof (cases "length_v (pos q - p) < r")
    case True
    have ok: "sel_ok p r (pre @ (ins @ [q]) @ [p2]) (Some (base + length ins))"
      using True "3.prems"(2) by (simp add: sel_ok_def nth_append)
    from "3.prems"(1) True
    have eq: "select_samples p r base (ins @ [q]) (v # va) (Some (base + length ins)) = (ins', sel')"
      by simp
    from "3.IH"(1) [OF True eq "3.prems"(2) l ok]
    obtain e where "sel_ok p r (pre @ ins' @ [p2]) sel'" "ins' = ins @ [q] @ e" by auto
    then show ?thesis by blast
  next
    case False
    from "3.prems"(1) False have eq: "select_samples p r base ins (v # va) sel = (ins', sel')"
      by simp
    show ?thesis by (rule "3.IH"(2) [OF False eq "3.prems"(2) l "3.prems"(4)])
  qed
qed

lemma select_scan_spec:
  "select_scan p r vs pre sel = (L, sel') \<Longrightarrow> sel_ok p r pre sel \<Longrightarrow>
   sel_ok p r L sel' \<and> subseq (pre @ map (\<lambda>(_, b, _). b) vs) L"
proof (induction p r vs pre sel rule: select_scan.induct)
  case (1 p r pre sel)
  then show ?case by simp
next
  case (2 p r p1 p2 p3 t1 t2 vs pre sel)
  obtain ins sel1 where smp: "select_samples p r (length pre) [] (sampleVexel p1 p2 p3 t1 t2 r) sel = (ins, sel1)"
    by fastforce
  have lastp2: "last (sampleVexel p1 p2 p3 t1 t2 r) = p2" if "sampleVexel p1 p2 p3 t1 t2 r \<noteq> []"
    using that by (rule sampleVexel_last_eq)
  from "2.prems"(2) have "sel_ok p r (pre @ [] @ [p2]) sel" by (simp add: sel_ok_append)
  from select_samples_spec [OF smp refl lastp2 this]
  have ok1: "sel_ok p r (pre @ ins @ [p2]) sel1" by simp
  from smp "2.prems"(1) have rest: "select_scan p r vs (pre @ ins @ [p2]) sel1 = (L, sel')" by simp
  from "2.IH" [OF smp [symmetric] refl rest ok1]
  have IH: "sel_ok p r L sel'" "subseq (pre @ ins @ [p2] @ map (\<lambda>(_, b, _). b) vs) L" by simp_all
  have "subseq (pre @ [p2] @ map (\<lambda>(_, b, _). b) vs) (pre @ ins @ [p2] @ map (\<lambda>(_, b, _). b) vs)"
  proof -
    have "subseq ([p2] @ map (\<lambda>(_, b, _). b) vs) (ins @ [p2] @ map (\<lambda>(_, b, _). b) vs)"
      by (rule list_emb_append2) (rule subseq_order.order_refl)
    then show ?thesis by (rule list_emb_append_mono [OF subseq_order.order_refl])
  qed
  with IH show ?case by (auto intro: subseq_order.order_trans)
qed

lemma curve_vexels_seconds: "2 \<le> length pts \<Longrightarrow> hd pts # map (\<lambda>(_, b, _). b) (curve_vexels pts) = pts"
  by (auto simp: curve_vexels_def vexel_frames_seconds split: list.splits)

lemma select_cases:
  assumes "select c p r = (c', ok)"
  obtains pts' sel where
    "c' = c\<lparr>selectionRadius := r, editDir := ED_None, inputPoints := [], curvePoints := pts',
            iteratorOfSelection := sel\<rparr>"
    "subseq (curvePoints c) pts'"
    "ok \<Longrightarrow> sel < length pts' \<and> length_v (pos (pts' ! sel) - p) < r"
proof -
  let ?pts = "curvePoints c"
  let ?c0 = "c\<lparr>selectionRadius := r, editDir := ED_None, iteratorOfSelection := length ?pts, inputPoints := []\<rparr>"
  show ?thesis
  proof (cases "length ?pts < 2 \<or> length_v (pos (hd ?pts) - p) < r \<or> length_v (pos (last ?pts) - p) < r")
    case True
    have "\<exists>sel. c' = c\<lparr>selectionRadius := r, editDir := ED_None, inputPoints := [], curvePoints := ?pts,
            iteratorOfSelection := sel\<rparr> \<and> (ok \<longrightarrow> sel < length ?pts \<and> length_v (pos (?pts ! sel) - p) < r)"
    proof (cases "?pts = []")
      case True
      with assms have "c' = c\<lparr>selectionRadius := r, editDir := ED_None, iteratorOfSelection := 0,
          inputPoints := []\<rparr>" "\<not> ok" by (auto simp: select_def)
      with True show ?thesis by (intro exI [of _ 0]) (auto intro: Curve.equality)
    next
      case ne: False
      show ?thesis
      proof (cases "length_v (pos (hd ?pts) - p) < r")
        case True
        with ne assms show ?thesis by (auto simp: select_def hd_conv_nth)
      next
        case nh: False
        show ?thesis
        proof (cases "length_v (pos (last ?pts) - p) < r")
          case True
          with ne nh assms show ?thesis by (auto simp: select_def last_conv_nth)
        next
          case False
          with ne nh \<open>length ?pts < 2 \<or> _\<close> assms have "c' = c\<lparr>selectionRadius := r, editDir := ED_None,
              iteratorOfSelection := length ?pts, inputPoints := []\<rparr>" "\<not> ok"
            by (auto simp: select_def)
          then show ?thesis by (intro exI [of _ "length ?pts"]) (auto intro: Curve.equality)
        qed
      qed
    qed
    then show ?thesis using that by blast
  next
    case False
    obtain L s where scan: "select_scan p r (curve_vexels ?pts) [hd ?pts] None = (L, s)" by fastforce
    from select_scan_spec [OF scan] have spec: "sel_ok p r L s" "subseq ([hd ?pts] @ map (\<lambda>(_, b, _). b) (curve_vexels ?pts)) L"
      by (simp_all add: sel_ok_def)
    from False have two: "2 \<le> length ?pts" by simp
    have sub: "subseq ?pts L" using spec(2) curve_vexels_seconds [OF two] by simp
    from two have ne: "?pts \<noteq> []" by auto
    show ?thesis
    proof (cases s)
      case None
      with False ne scan assms have "c' = c\<lparr>selectionRadius := r, editDir := ED_None, inputPoints := [],
          curvePoints := L, iteratorOfSelection := length ?pts\<rparr>" "\<not> ok"
        by (auto simp: select_def Let_def)
      with sub that show ?thesis by blast
    next
      case (Some i)
      with False ne scan assms have "c' = c\<lparr>selectionRadius := r, editDir := ED_None, inputPoints := [],
          curvePoints := L, iteratorOfSelection := i\<rparr>"
        by (auto simp: select_def Let_def)
      moreover from spec(1) Some have "i < length L \<and> length_v (pos (L ! i) - p) < r"
        by (simp add: sel_ok_def)
      ultimately show ?thesis using sub that by blast
    qed
  qed
qed

section \<open>The edit-session invariant\<close>

text \<open>
  What \<open>Curve.h\<close> states for an edit session, and what the code needs for its iterator
  arithmetic: outside a session the input buffer is empty; inside one the counts are
  non-negative and \<open>before + after + 1\<close> is the number of points, the input buffer is
  no longer than the edit index plus one (so \<open>std::prev(itEdit, numToFilter)\<close> of the
  input filter stays inside the list), an unresolved direction only occurs right after
  an overdraw has selected a point, and a fresh draw appends at the end going forwards.
\<close>

definition curve_inv :: "Curve \<Rightarrow> bool" where
  "curve_inv c \<longleftrightarrow>
     (editType c = ET_None \<longrightarrow> inputPoints c = []) \<and>
     (editType c \<noteq> ET_None \<longrightarrow>
        0 \<le> numPointsBeforeEdit c \<and> 0 \<le> numPointsAfterEdit c \<and>
        numPointsBeforeEdit c + numPointsAfterEdit c + 1 = int (length (curvePoints c)) \<and>
        int (length (inputPoints c)) \<le> numPointsBeforeEdit c + 1 \<and>
        (editDir c = ED_None \<longrightarrow> editType c = ET_Overdraw \<and> inputPoints c = [] \<and>
                                 iteratorOfSelection c < length (curvePoints c)) \<and>
        (editType c = ET_Draw \<longrightarrow> numPointsAfterEdit c = 0 \<and> editDir c = ED_Forwards))"

lemma curve_inv_editing:
  assumes "curve_inv c" "editType c \<noteq> ET_None"
  shows "numPointsBeforeEdit c = int (editIterator c)"
    and "editIterator c < length (curvePoints c)"
    and "length (inputPoints c) \<le> editIterator c + 1"
    and "numPointsAfterEdit c = int (length (curvePoints c)) - int (editIterator c) - 1"
  using assms by (auto simp: curve_inv_def editIterator_def)

lemma Curve_new_inv: "curve_inv (Curve_new i)"
  by (simp add: curve_inv_def Curve_new_def)

lemma endDrawing_inv: "curve_inv c \<Longrightarrow> curve_inv (endDrawing c)"
  by (simp add: curve_inv_def endDrawing_def)

lemma endDrawing_None [simp]: "editType (endDrawing c) = ET_None"
  by (simp add: endDrawing_def)

lemma select_inv:
  assumes "curve_inv c" "editType c = ET_None"
  shows "curve_inv (fst (select c p r))"
proof -
  obtain c' ok where eq: "select c p r = (c', ok)" by fastforce
  from eq show ?thesis
    by (rule select_cases) (use assms in \<open>simp add: eq curve_inv_def\<close>)
qed

lemma startDrawing_inv: "curve_inv c \<Longrightarrow> curve_inv (fst (startDrawing c q md))"
proof -
  assume inv: "curve_inv c"
  define c1 where "c1 = (if editType c \<noteq> ET_None then (endDrawing c)\<lparr>editType := ET_None\<rparr> else c)
                           \<lparr>minDistToPreviousPoint := md\<rparr>"
  have c1: "editType c1 = ET_None" "inputPoints c1 = []"
    using inv by (auto simp: c1_def curve_inv_def endDrawing_def)
  have sd: "startDrawing c q md =
     (if length (curvePoints c1) = 0 then
        (c1\<lparr>startPoint := q, curvePoints := curvePoints c1 @ [q], inputPoints := inputPoints c1 @ [q],
             iteratorOfSelection := 0, editDir := ED_Forwards, numPointsBeforeEdit := 0,
             numPointsAfterEdit := 0, editType := ET_Draw\<rparr>, True)
      else (let (c2, ok) = select c1 (pos q) (selectionRadius c1)
            in if ok then
                 (c2\<lparr>startPoint := curvePoints c2 ! iteratorOfSelection c2, editDir := ED_None,
                     numPointsBeforeEdit := int (iteratorOfSelection c2),
                     numPointsAfterEdit := int (length (curvePoints c2)) - int (iteratorOfSelection c2) - 1,
                     editType := ET_Overdraw\<rparr>, True)
               else (c2, False)))"
    by (simp add: startDrawing_def c1_def Let_def)
  show ?thesis
  proof (cases "length (curvePoints c1) = 0")
    case True
    with c1 show ?thesis by (simp add: sd curve_inv_def)
  next
    case False
    obtain c2 ok where sel: "select c1 (pos q) (selectionRadius c1) = (c2, ok)" by fastforce
    then show ?thesis
    proof (rule select_cases)
      fix pts' sel
      assume c2: "c2 = c1\<lparr>selectionRadius := selectionRadius c1, editDir := ED_None, inputPoints := [],
                         curvePoints := pts', iteratorOfSelection := sel\<rparr>"
        and ok: "ok \<Longrightarrow> sel < length pts' \<and> length_v (pos (pts' ! sel) - pos q) < selectionRadius c1"
      show ?thesis
        using False c1 ok by (auto simp: sd sel c2 curve_inv_def)
    qed
  qed
qed

subsection \<open>append\<close>

lemma append_pt_shape:
  assumes inv: "curve_inv c" "editType c \<noteq> ET_None"
    and go: "\<not> (editType c = ET_Overdraw \<and> numPointsBeforeEdit c = 0)"
  obtains k ins1 pts1 where
    "append_pt c q = c\<lparr>inputPoints := ins1 @ [q], numPointsBeforeEdit := int k + 1,
        curvePoints := applyFilter (ins1 @ [q]) (Suc k) (insert_at (Suc k) q pts1)\<rparr>"
    "(k = editIterator c \<and> pts1 = curvePoints c \<and> ins1 = inputPoints c) \<or>
     (k = Suc (editIterator c) \<and>
      pts1 = insert_at (Suc (editIterator c)) (curvePoints c ! editIterator c) (curvePoints c) \<and>
      ins1 = [curvePoints c ! editIterator c])"
proof -
  note e = curve_inv_editing [OF inv]
  let ?e = "editIterator c" and ?pts = "curvePoints c"
  define corner where "corner = (0 < numPointsBeforeEdit c \<and>
     dotProduct (normalized (pos q - pos (?pts ! ?e))) (normalized (pos (?pts ! ?e) - pos (?pts ! (?e - 1)))) < 0)"
  show ?thesis
  proof (cases corner)
    case True
    then have "append_pt c q = c\<lparr>inputPoints := [?pts ! ?e] @ [q], numPointsBeforeEdit := int (Suc ?e) + 1,
        curvePoints := applyFilter ([?pts ! ?e] @ [q]) (Suc (Suc ?e))
          (insert_at (Suc (Suc ?e)) q (insert_at (Suc ?e) (?pts ! ?e) ?pts))\<rparr>"
      using go e(1) by (simp add: append_pt_def corner_def Let_def)
    then show ?thesis by (rule that) simp
  next
    case False
    then have "append_pt c q = c\<lparr>inputPoints := inputPoints c @ [q], numPointsBeforeEdit := int ?e + 1,
        curvePoints := applyFilter (inputPoints c @ [q]) (Suc ?e) (insert_at (Suc ?e) q ?pts)\<rparr>"
      using go e(1) by (auto simp: append_pt_def corner_def Let_def)
    then show ?thesis by (rule that) simp
  qed
qed

lemma filter_count_bound: "length inp \<le> k + 2 \<Longrightarrow> filter_count inp \<le> k"
  using filter_count_le [of inp] by linarith

lemma append_pt_inv:
  assumes inv: "curve_inv c" "editType c \<noteq> ET_None" "editDir c \<noteq> ED_None"
  shows "curve_inv (append_pt c q)" "editType (append_pt c q) = editType c"
    "editDir (append_pt c q) = editDir c" "numPointsAfterEdit (append_pt c q) = numPointsAfterEdit c"
proof -
  note e = curve_inv_editing [OF inv(1,2)]
  have "curve_inv (append_pt c q) \<and> editType (append_pt c q) = editType c \<and>
        editDir (append_pt c q) = editDir c \<and> numPointsAfterEdit (append_pt c q) = numPointsAfterEdit c"
  proof (cases "editType c = ET_Overdraw \<and> numPointsBeforeEdit c = 0")
    case True
    with inv show ?thesis by (simp add: append_pt_def)
  next
    case False
    from inv(1,2) False show ?thesis
    proof (rule append_pt_shape)
      fix k ins1 pts1
      assume eq: "append_pt c q = c\<lparr>inputPoints := ins1 @ [q], numPointsBeforeEdit := int k + 1,
          curvePoints := applyFilter (ins1 @ [q]) (Suc k) (insert_at (Suc k) q pts1)\<rparr>"
        and cs: "(k = editIterator c \<and> pts1 = curvePoints c \<and> ins1 = inputPoints c) \<or>
          (k = Suc (editIterator c) \<and>
           pts1 = insert_at (Suc (editIterator c)) (curvePoints c ! editIterator c) (curvePoints c) \<and>
           ins1 = [curvePoints c ! editIterator c])"
      have k: "Suc k \<le> length pts1" "length pts1 = length (curvePoints c) + (k - editIterator c)"
        "length ins1 \<le> k + 1" "k = editIterator c \<or> k = Suc (editIterator c)"
        using cs e by auto
      then have fc: "filter_count (ins1 @ [q]) \<le> Suc k" by (intro filter_count_bound) simp
      have len: "length (applyFilter (ins1 @ [q]) (Suc k) (insert_at (Suc k) q pts1)) = Suc (length pts1)"
        using fc k(1) by (simp add: length_applyFilter)
      show ?thesis
        using inv k len e by (auto simp: eq curve_inv_def)
    qed
  qed
  then show "curve_inv (append_pt c q)" "editType (append_pt c q) = editType c"
    "editDir (append_pt c q) = editDir c" "numPointsAfterEdit (append_pt c q) = numPointsAfterEdit c"
    by simp_all
qed

subsection \<open>absorb\<close>

lemma absorb_scan_bound: "n < k \<Longrightarrow> absorb_scan d p qs md k n < k + length qs"
  by (induction d p qs md k n rule: absorb_scan.induct) (auto simp: Let_def)

lemma absorb_shape:
  assumes go: "\<not> (editType c = ET_Draw \<or> numPointsAfterEdit c = 0)"
  defines "itFirst \<equiv> if numPointsBeforeEdit c = 0 then editIterator c else Suc (editIterator c)"
  obtains n where "n \<le> length (curvePoints c) - itFirst"
    "absorb c q =
       (let pts1 = erase_range itFirst n (curvePoints c); na1 = numPointsAfterEdit c - int n;
            c2 = (if na1 = 1 then c\<lparr>curvePoints := butlast pts1, numPointsAfterEdit := 0\<rparr>
                  else c\<lparr>curvePoints := pts1, numPointsAfterEdit := na1\<rparr>)
        in if length (curvePoints c2) \<le> 1 then endDrawing (c2\<lparr>curvePoints := []\<rparr>) else c2)"
proof
  let ?n = "absorb_scan (pos q - pos (curvePoints c ! editIterator c)) (pos q)
              (drop itFirst (curvePoints c)) (length_v (pos (curvePoints c ! itFirst) - pos q)) 1 0"
  have "?n < 1 + length (drop itFirst (curvePoints c))"
    by (rule absorb_scan_bound) simp
  then show "?n \<le> length (curvePoints c) - itFirst" by simp
  show "absorb c q =
       (let pts1 = erase_range itFirst ?n (curvePoints c); na1 = numPointsAfterEdit c - int ?n;
            c2 = (if na1 = 1 then c\<lparr>curvePoints := butlast pts1, numPointsAfterEdit := 0\<rparr>
                  else c\<lparr>curvePoints := pts1, numPointsAfterEdit := na1\<rparr>)
        in if length (curvePoints c2) \<le> 1 then endDrawing (c2\<lparr>curvePoints := []\<rparr>) else c2)"
    using go by (simp add: absorb_def itFirst_def Let_def)
qed

lemma absorb_inv:
  assumes inv: "curve_inv c" "editType c \<noteq> ET_None" "editDir c \<noteq> ED_None"
  shows "curve_inv (absorb c q)"
proof (cases "editType c = ET_Draw \<or> numPointsAfterEdit c = 0")
  case True
  then show ?thesis using inv by (auto simp: absorb_def)
next
  case False
  note e = curve_inv_editing [OF inv(1,2)]
  define itFirst where "itFirst = (if numPointsBeforeEdit c = 0 then editIterator c else Suc (editIterator c))"
  from False show ?thesis
  proof (rule absorb_shape [of c q, folded itFirst_def])
    fix n
    assume n: "n \<le> length (curvePoints c) - itFirst"
      and abs: "absorb c q =
       (let pts1 = erase_range itFirst n (curvePoints c); na1 = numPointsAfterEdit c - int n;
            c2 = (if na1 = 1 then c\<lparr>curvePoints := butlast pts1, numPointsAfterEdit := 0\<rparr>
                  else c\<lparr>curvePoints := pts1, numPointsAfterEdit := na1\<rparr>)
        in if length (curvePoints c2) \<le> 1 then endDrawing (c2\<lparr>curvePoints := []\<rparr>) else c2)"
    define pts1 where "pts1 = erase_range itFirst n (curvePoints c)"
    define na1 where "na1 = numPointsAfterEdit c - int n"
    have first_le: "itFirst \<le> length (curvePoints c)"
      using e(2) by (simp add: itFirst_def)
    have len1: "length pts1 = length (curvePoints c) - n"
      using n first_le by (simp add: pts1_def)
    have sum1: "numPointsBeforeEdit c + na1 + 1 = int (length pts1)"
      using e n first_le len1 by (simp add: na1_def)
    have na1_ge: "0 \<le> na1 \<or> length pts1 = 0"
    proof (cases "numPointsBeforeEdit c = 0")
      case True
      with e(1) have "editIterator c = 0" by simp
      with e(4) n first_le len1 show ?thesis unfolding na1_def by auto
    next
      case False
      with e(1) have "itFirst = Suc (editIterator c)" by (simp add: itFirst_def)
      with e(4) n first_le show ?thesis unfolding na1_def by auto
    qed
    have abs': "absorb c q =
       (let c2 = (if na1 = 1 then c\<lparr>curvePoints := butlast pts1, numPointsAfterEdit := 0\<rparr>
                  else c\<lparr>curvePoints := pts1, numPointsAfterEdit := na1\<rparr>)
        in if length (curvePoints c2) \<le> 1 then endDrawing (c2\<lparr>curvePoints := []\<rparr>) else c2)"
      by (simp only: abs pts1_def na1_def Let_def)
    show ?thesis
      using inv sum1 na1_ge False by (auto simp: abs' curve_inv_def Let_def endDrawing_def)
  qed
qed

lemma absorb_editType: "editType (absorb c q) = editType c \<or> editType (absorb c q) = ET_None"
  by (auto simp: absorb_def Let_def)

subsection \<open>addPoint\<close>

lemma addPoint_inv:
  assumes inv: "curve_inv c"
  shows "curve_inv (addPoint c q)"
proof -
  have step: "curve_inv (absorb (append_pt c' q) q)"
    if "curve_inv c'" "editType c' \<noteq> ET_None" "editDir c' \<noteq> ED_None" for c'
    using that append_pt_inv [OF that] by (intro absorb_inv) simp_all
  show ?thesis
  proof (cases "editType c = ET_None \<or> length_v (pos q - pos (curvePoints c ! editIterator c))
                  < minDistToPreviousPoint c")
    case True
    with inv show ?thesis by (auto simp: addPoint_def)
  next
    case False
    show ?thesis
    proof (cases "editDir c = ED_None")
      case False': False
      with False inv step show ?thesis by (simp add: addPoint_def)
    next
      case True
      define d where "d = editDirection c (pos q)"
      define c2 where "c2 = (if d = ED_Backwards
          then c\<lparr>editDir := d, numPointsBeforeEdit := numPointsAfterEdit c,
                 numPointsAfterEdit := numPointsBeforeEdit c, curvePoints := rev (curvePoints c)\<rparr>
          else c\<lparr>editDir := d\<rparr>)"
      have c2: "d \<noteq> ED_None \<Longrightarrow> curve_inv c2 \<and> editType c2 \<noteq> ET_None \<and> editDir c2 \<noteq> ED_None"
        using inv True False by (auto simp: c2_def curve_inv_def)
      have "addPoint c q = (if d = ED_None then c else absorb (append_pt c2 q) q)"
        using False True by (simp add: addPoint_def d_def c2_def Let_def)
      then show ?thesis using inv c2 step by auto
    qed
  qed
qed

section \<open>Reachable curve states\<close>

text \<open>
  The steps a \<open>Curve\<close> takes in the program: \<open>startDrawing\<close>, \<open>addPoint\<close>,
  \<open>endDrawing\<close>, \<open>select\<close> outside an edit session (how \<open>Contour::selectCurve\<close>
  reaches it from a right click), and any rewrite of the points that keeps their number
  (\<open>applySmoothing\<close> and the fitting loops of \<open>Model\<close>, which write through
  \<open>points()\<close>).
\<close>

inductive curve_step :: "Curve \<Rightarrow> Curve \<Rightarrow> bool" where
  start: "curve_step c (fst (startDrawing c q md))"
| add: "curve_step c (addPoint c q)"
| finish: "curve_step c (endDrawing c)"
| sel: "editType c = ET_None \<Longrightarrow> curve_step c (fst (select c p r))"
| rewrite: "length pts = length (curvePoints c) \<Longrightarrow> curve_step c (c\<lparr>curvePoints := pts\<rparr>)"

inductive curve_reachable :: "Curve \<Rightarrow> bool" where
  init: "curve_reachable (Curve_new i)"
| step: "curve_reachable c \<Longrightarrow> curve_step c c' \<Longrightarrow> curve_reachable c'"

lemma curve_step_inv: "curve_step c c' \<Longrightarrow> curve_inv c \<Longrightarrow> curve_inv c'"
proof (induction rule: curve_step.induct)
  case (start c q md)
  then show ?case by (rule startDrawing_inv)
next
  case (add c q)
  then show ?case by (rule addPoint_inv)
next
  case (finish c)
  then show ?case by (rule endDrawing_inv)
next
  case (sel c p r)
  then show ?case by (intro select_inv)
next
  case (rewrite pts c)
  then show ?case by (simp add: curve_inv_def)
qed

text \<open>C1: every curve state the program can reach satisfies the edit-session invariant.\<close>

theorem reachable_curve_inv: "curve_reachable c \<Longrightarrow> curve_inv c"
proof (induction rule: curve_reachable.induct)
  case (init i)
  then show ?case by (rule Curve_new_inv)
next
  case (step c c')
  then show ?case by (blast intro: curve_step_inv)
qed

theorem reachable_curve_inv_witness:
  "curve_reachable (fst (startDrawing (Curve_new 0) (pt 0 0) 0.1)) \<and>
   curve_inv (fst (startDrawing (Curve_new 0) (pt 0 0) 0.1))"
proof -
  have r: "curve_reachable (fst (startDrawing (Curve_new 0) (pt 0 0) 0.1))"
    by (rule curve_reachable.step [OF curve_reachable.init curve_step.start])
  show ?thesis using r reachable_curve_inv [OF r] by simp
qed

section \<open>Properties of the edit operations\<close>

text \<open>
  C2: inside an edit session every position the code dereferences is a node of the list:
  the edit point \<open>std::next(begin, m_numPointsBeforeEdit)\<close>, whose count is never
  negative, and the first point the input filter overwrites,
  \<open>std::prev(itEdit, numToFilter)\<close> after the next append.
\<close>

theorem edit_indices_in_range:
  assumes "curve_inv c" "editType c \<noteq> ET_None"
  shows "0 \<le> numPointsBeforeEdit c \<and> editIterator c < length (curvePoints c) \<and>
         filter_count (inputPoints c @ [q]) \<le> editIterator c + 1"
proof -
  note e = curve_inv_editing [OF assms]
  have "filter_count (inputPoints c @ [q]) \<le> editIterator c + 1"
    using e(3) by (intro filter_count_bound) simp
  with e(1,2) show ?thesis by simp
qed

theorem edit_indices_in_range_witness:
  "curve_inv (fst (startDrawing (Curve_new 0) (pt 0 0) 0.1)) \<and>
   editType (fst (startDrawing (Curve_new 0) (pt 0 0) 0.1)) \<noteq> ET_None \<and>
   0 \<le> numPointsBeforeEdit (fst (startDrawing (Curve_new 0) (pt 0 0) 0.1)) \<and>
   editIterator (fst (startDrawing (Curve_new 0) (pt 0 0) 0.1))
     < length (curvePoints (fst (startDrawing (Curve_new 0) (pt 0 0) 0.1))) \<and>
   filter_count (inputPoints (fst (startDrawing (Curve_new 0) (pt 0 0) 0.1)) @ [pt 1 0])
     \<le> editIterator (fst (startDrawing (Curve_new 0) (pt 0 0) 0.1)) + 1"
proof -
  have i: "curve_inv (fst (startDrawing (Curve_new 0) (pt 0 0) 0.1))"
    by (simp add: startDrawing_def curve_inv_def Curve_new_def)
  have t: "editType (fst (startDrawing (Curve_new 0) (pt 0 0) 0.1)) \<noteq> ET_None"
    by (simp add: startDrawing_def Curve_new_def)
  show ?thesis using i t edit_indices_in_range [OF i t, of "pt 1 0"] by simp
qed

subsection \<open>select\<close>

text \<open>
  C3: when \<open>select\<close> reports a hit, the selection iterator names a node of the (possibly
  extended) list that lies strictly within the selection radius of the query point.
\<close>

theorem select_selects_within:
  assumes "select c p r = (c', True)"
  shows "iteratorOfSelection c' < length (curvePoints c') \<and>
         length_v (pos (curvePoints c' ! iteratorOfSelection c') - p) < r"
  using assms by (rule select_cases) simp

theorem select_selects_within_witness:
  "select ((Curve_new 0)\<lparr>curvePoints := [pt 0 0]\<rparr>) (Vec2D 0 0) 1 =
     (fst (select ((Curve_new 0)\<lparr>curvePoints := [pt 0 0]\<rparr>) (Vec2D 0 0) 1), True) \<and>
   iteratorOfSelection (fst (select ((Curve_new 0)\<lparr>curvePoints := [pt 0 0]\<rparr>) (Vec2D 0 0) 1))
     < length (curvePoints (fst (select ((Curve_new 0)\<lparr>curvePoints := [pt 0 0]\<rparr>) (Vec2D 0 0) 1)))"
proof -
  have h: "select ((Curve_new 0)\<lparr>curvePoints := [pt 0 0]\<rparr>) (Vec2D 0 0) 1 =
     (fst (select ((Curve_new 0)\<lparr>curvePoints := [pt 0 0]\<rparr>) (Vec2D 0 0) 1), True)"
    by (simp add: select_def pt_def mkCurvePoint_def length_v_def)
  show ?thesis using h select_selects_within [OF h] by simp
qed

text \<open>C4: \<open>select\<close> never removes or reorders a point: the old list is a subsequence of the new.\<close>

theorem select_keeps_points: "subseq (curvePoints c) (curvePoints (fst (select c p r)))"
proof -
  obtain c' ok where eq: "select c p r = (c', ok)" by fastforce
  from eq show ?thesis by (rule select_cases) (simp add: eq)
qed

text \<open>
  An endpoint within the radius is selected at once, leaving the points unchanged,
  whatever interior point is closer (the tie-break of spec section 4.1).
\<close>

theorem select_prefers_front:
  assumes "curvePoints c \<noteq> []" "length_v (pos (hd (curvePoints c)) - p) < r"
  shows "select c p r =
           (c\<lparr>selectionRadius := r, editDir := ED_None, iteratorOfSelection := 0, inputPoints := []\<rparr>, True)"
  using assms by (simp add: select_def)

theorem select_prefers_front_witness:
  "curvePoints ((Curve_new 0)\<lparr>curvePoints := [pt 0 0, pt 1 0, pt 2 0]\<rparr>) \<noteq> [] \<and>
   length_v (pos (hd [pt 0 0, pt 1 0, pt 2 0]) - Vec2D 0.9 0) < 1 \<and>
   length_v (pos (pt 1 0) - Vec2D 0.9 0) < length_v (pos (hd [pt 0 0, pt 1 0, pt 2 0]) - Vec2D 0.9 0) \<and>
   select ((Curve_new 0)\<lparr>curvePoints := [pt 0 0, pt 1 0, pt 2 0]\<rparr>) (Vec2D 0.9 0) 1 =
     ((Curve_new 0)\<lparr>curvePoints := [pt 0 0, pt 1 0, pt 2 0], selectionRadius := 1, editDir := ED_None,
        iteratorOfSelection := 0, inputPoints := []\<rparr>, True)"
proof -
  have d: "length_v (pos (hd [pt 0 0, pt 1 0, pt 2 0]) - Vec2D 0.9 0) < 1"
    "length_v (pos (pt 1 0) - Vec2D 0.9 0) < length_v (pos (hd [pt 0 0, pt 1 0, pt 2 0]) - Vec2D 0.9 0)"
    by (simp_all add: pt_def mkCurvePoint_def length_v_def sqrt_less_iff_sq)
  show ?thesis
    using d select_prefers_front [of "(Curve_new 0)\<lparr>curvePoints := [pt 0 0, pt 1 0, pt 2 0]\<rparr>" "Vec2D 0.9 0" 1]
    by simp
qed

lemma filter_butlast_none:
  "\<not> list_ex P xs \<Longrightarrow> filter P (butlast xs) = []"
  by (induction xs) auto

text \<open>
  C6: the sample loop of \<open>select\<close> does not pick the closest sample, as the comment at
  Curve.cpp:95 and spec section 4.1 say: \<open>minDist\<close> is never lowered, so on every list
  of samples it inserts every interior sample within the radius, in order, and selects
  the last sample within the radius (the node \<open>p2\<close> itself when the last sample is one),
  keeping the previous selection when none is.
\<close>

theorem select_samples_last_hit:
  "select_samples p r base ins qs sel =
     (ins @ filter (\<lambda>q. length_v (pos q - p) < r) (butlast qs),
      if list_ex (\<lambda>q. length_v (pos q - p) < r) qs
      then Some (base + length ins + length (filter (\<lambda>q. length_v (pos q - p) < r) (butlast qs)) -
                 (if length_v (pos (last qs) - p) < r then 0 else 1))
      else sel)"
proof (induction p r base ins qs sel rule: select_samples.induct)
  case (3 p r base ins q v va sel)
  show ?case
  proof (cases "length_v (pos q - p) < r")
    case True
    then show ?thesis
      using "3.IH"(1) [OF True] filter_butlast_none [of "\<lambda>q. length_v (pos q - p) < r" "v # va"]
            last_in_set [of va]
      by (auto simp: list_ex_iff)
  next
    case False
    then show ?thesis using "3.IH"(2) [OF False] by simp
  qed
qed simp_all

subsection \<open>absorb and append\<close>

text \<open>
  C7: an overdraw that absorbs the curve down to at most one point clears it and ends the
  edit session (spec section 8, second property).
\<close>

theorem absorb_collapse_clears:
  assumes "editType c = ET_Overdraw" "numPointsAfterEdit c \<noteq> 0"
    and "length (curvePoints (absorb c q)) \<le> 1"
  shows "curvePoints (absorb c q) = [] \<and> editType (absorb c q) = ET_None"
proof -
  from assms(1,2) have go: "\<not> (editType c = ET_Draw \<or> numPointsAfterEdit c = 0)" by simp
  from go show ?thesis
  proof (rule absorb_shape)
    fix n
    assume abs: "absorb c q =
       (let pts1 = erase_range (if numPointsBeforeEdit c = 0 then editIterator c else Suc (editIterator c)) n (curvePoints c);
            na1 = numPointsAfterEdit c - int n;
            c2 = (if na1 = 1 then c\<lparr>curvePoints := butlast pts1, numPointsAfterEdit := 0\<rparr>
                  else c\<lparr>curvePoints := pts1, numPointsAfterEdit := na1\<rparr>)
        in if length (curvePoints c2) \<le> 1 then endDrawing (c2\<lparr>curvePoints := []\<rparr>) else c2)"
    show ?thesis
      using assms(3) assms(1) by (simp add: abs Let_def endDrawing_def split: if_splits)
  qed
qed

theorem absorb_collapse_clears_witness:
  "editType od2 = ET_Overdraw \<and> numPointsAfterEdit od2 \<noteq> 0 \<and>
   length (curvePoints (absorb od2 (pt 2 0))) \<le> 1 \<and>
   curvePoints (absorb od2 (pt 2 0)) = [] \<and> editType (absorb od2 (pt 2 0)) = ET_None"
proof -
  have h: "editType od2 = ET_Overdraw" "numPointsAfterEdit od2 \<noteq> 0"
    by (simp_all add: od2_def Curve_new_def)
  have sq: "sqrt 4 = 2" by (simp add: sqrt_eval)
  have l: "length (curvePoints (absorb od2 (pt 2 0))) \<le> 1"
    by (simp add: od2_def Curve_new_def absorb_def editIterator_def pt_def mkCurvePoint_def
        length_v_def dotProduct_def erase_range_def endDrawing_def Let_def sq)
  show ?thesis using h l absorb_collapse_clears [OF h l] by simp
qed

text \<open>
  C8: a step of a fresh draw that passes the minimum-distance filter keeps the first
  point, ends the curve at the new input and lengthens it; the input filter only ever
  rewrites the points strictly between.
\<close>

theorem draw_step:
  assumes inv: "curve_inv c" and dr: "editType c = ET_Draw"
    and far: "minDistToPreviousPoint c \<le> length_v (pos q - pos (curvePoints c ! editIterator c))"
  shows "hd (curvePoints (addPoint c q)) = hd (curvePoints c) \<and> last (curvePoints (addPoint c q)) = q \<and>
         editType (addPoint c q) = ET_Draw \<and> length (curvePoints c) < length (curvePoints (addPoint c q))"
proof -
  have ed: "editType c \<noteq> ET_None" using dr by simp
  note e = curve_inv_editing [OF inv ed]
  from inv dr have fw: "editDir c = ED_Forwards" and na: "numPointsAfterEdit c = 0"
    by (simp_all add: curve_inv_def)
  have ap: "addPoint c q = append_pt c q"
    using dr fw far append_pt_inv(2) [OF inv ed] by (simp add: addPoint_def absorb_def not_less)
  from dr have go: "\<not> (editType c = ET_Overdraw \<and> numPointsBeforeEdit c = 0)" by simp
  from inv ed go show ?thesis
  proof (rule append_pt_shape)
    fix k ins1 pts1
    assume eq: "append_pt c q = c\<lparr>inputPoints := ins1 @ [q], numPointsBeforeEdit := int k + 1,
          curvePoints := applyFilter (ins1 @ [q]) (Suc k) (insert_at (Suc k) q pts1)\<rparr>"
      and cs: "(k = editIterator c \<and> pts1 = curvePoints c \<and> ins1 = inputPoints c) \<or>
          (k = Suc (editIterator c) \<and>
           pts1 = insert_at (Suc (editIterator c)) (curvePoints c ! editIterator c) (curvePoints c) \<and>
           ins1 = [curvePoints c ! editIterator c])"
    let ?R = "applyFilter (ins1 @ [q]) (Suc k) (insert_at (Suc k) q pts1)"
    have k: "Suc k = length pts1" "length ins1 \<le> k + 1" "0 < length (curvePoints c)"
      "pts1 ! 0 = curvePoints c ! 0"
      using cs e na by (auto simp: insert_at_nth_before)
    have fc: "filter_count (ins1 @ [q]) \<le> k" using k(2) by (intro filter_count_bound) simp
    have len: "length ?R = Suc (length pts1)"
      using fc k(1) by (simp add: length_applyFilter)
    have last_q: "?R ! Suc k = q"
      using fc k(1) by (simp add: applyFilter_unchanged)
    have "insert_at (Suc k) q pts1 ! 0 = pts1 ! 0"
      using k(1) by (intro insert_at_nth_before) (simp_all, metis Zero_not_Suc list.size(3))
    then have hd0: "?R ! 0 = curvePoints c ! 0"
      using fc k by (simp add: applyFilter_unchanged)
    have grow: "length (curvePoints c) \<le> length pts1"
      using cs e by auto
    have ne: "?R \<noteq> []" using len by auto
    have "hd ?R = hd (curvePoints c)"
      using hd0 ne k(3) by (simp add: hd_conv_nth)
    moreover have "last ?R = q"
      using last_q ne len k(1) by (simp add: last_conv_nth)
    ultimately show ?thesis
      using len grow dr by (simp add: ap eq)
  qed
qed

theorem draw_step_witness:
  "curve_inv dr1 \<and> editType dr1 = ET_Draw \<and>
   minDistToPreviousPoint dr1 \<le> length_v (pos (pt 3 0) - pos (curvePoints dr1 ! editIterator dr1)) \<and>
   hd (curvePoints (addPoint dr1 (pt 3 0))) = pt 0 0 \<and> last (curvePoints (addPoint dr1 (pt 3 0))) = pt 3 0 \<and>
   editType (addPoint dr1 (pt 3 0)) = ET_Draw \<and> 1 < length (curvePoints (addPoint dr1 (pt 3 0)))"
proof -
  have sq: "sqrt 9 = 3" by (simp add: sqrt_eval)
  have d: "dr1 = (Curve_new 0)\<lparr>minDistToPreviousPoint := 1, startPoint := pt 0 0,
      curvePoints := [pt 0 0], inputPoints := [pt 0 0], iteratorOfSelection := 0,
      editDir := ED_Forwards, numPointsBeforeEdit := 0, numPointsAfterEdit := 0, editType := ET_Draw\<rparr>"
    by (simp add: dr1_def startDrawing_def Curve_new_def)
  have h1: "curve_inv dr1" by (simp add: d curve_inv_def Curve_new_def)
  have h2: "editType dr1 = ET_Draw" by (simp add: d)
  have h3: "minDistToPreviousPoint dr1 \<le> length_v (pos (pt 3 0) - pos (curvePoints dr1 ! editIterator dr1))"
    by (simp add: d editIterator_def pt_def mkCurvePoint_def length_v_def sq)
  have cp: "curvePoints dr1 = [pt 0 0]" by (simp add: d)
  show ?thesis using h1 h2 h3 draw_step [OF h1 h2 h3] by (simp add: cp)
qed

subsection \<open>Overdrawing a one-point curve\<close>

lemma single_point_addPoint:
  assumes inv: "curve_inv c" and od: "editType c = ET_Overdraw" and one: "length (curvePoints c) = 1"
  shows "curve_inv (addPoint c q) \<and> editType (addPoint c q) = ET_Overdraw \<and>
         curvePoints (addPoint c q) = curvePoints c"
proof -
  from inv od one have nb: "numPointsBeforeEdit c = 0" and na: "numPointsAfterEdit c = 0"
    by (auto simp: curve_inv_def)
  have fix_ap: "append_pt c' q = c'" if "editType c' = ET_Overdraw" "numPointsBeforeEdit c' = 0" for c'
    using that by (simp add: append_pt_def)
  have fix_ab: "absorb c' q = c'" if "numPointsAfterEdit c' = 0" for c'
    using that by (simp add: absorb_def)
  have "editType (addPoint c q) = ET_Overdraw \<and> curvePoints (addPoint c q) = curvePoints c"
    using od nb na one fix_ap fix_ab
    by (auto simp: addPoint_def Let_def length_Suc_conv)
  with addPoint_inv [OF inv] show ?thesis by simp
qed

text \<open>
  C9: overdrawing a curve of one point never changes it, whatever the input: with no
  neighbour the direction resolves forwards, so there is nothing before the edit point
  to append after and nothing after it to absorb.
\<close>

theorem single_point_overdraw_inert:
  "curve_inv c \<Longrightarrow> editType c = ET_Overdraw \<Longrightarrow> length (curvePoints c) = 1 \<Longrightarrow>
   curvePoints (foldl addPoint c qs) = curvePoints c"
proof (induction qs arbitrary: c)
  case Nil
  then show ?case by simp
next
  case (Cons q qs)
  from single_point_addPoint [OF Cons.prems] Cons.IH [of "addPoint c q"] Cons.prems(3)
  show ?case by simp
qed

theorem single_point_overdraw_inert_witness:
  "curve_inv sp1 \<and> editType sp1 = ET_Overdraw \<and> length (curvePoints sp1) = 1 \<and>
   curvePoints (foldl addPoint sp1 [pt 5 0, pt 0 9]) = [pt 0 0]"
proof -
  have h: "curve_inv sp1" "editType sp1 = ET_Overdraw" "length (curvePoints sp1) = 1"
    by (simp_all add: sp1_def curve_inv_def Curve_new_def)
  have cp: "curvePoints sp1 = [pt 0 0]" by (simp add: sp1_def)
  show ?thesis using h single_point_overdraw_inert [OF h, of "[pt 5 0, pt 0 9]"] by (simp add: cp)
qed

end
