(* ===== verification/Contour.thy ===== *)
theory Contour
  imports Curve
begin

text \<open>
  \<open>Contour\<close> (src/Source/Model/Contour.h, Contour.cpp): the list of curves of a
  segmentation, the id handed to the next new curve and the id of the active curve
  (\<open>-1\<close> for none). The C++ list holds \<open>Curve*\<close>; every pointer is allocated once by
  \<open>addCurve\<close>, so the list is modelled by the curves themselves, and a write through the
  pointer that \<open>Contour::curve(id)\<close> returns is \<open>update_curve\<close>, which rewrites the first
  curve carrying that id, the one the lookup finds. The invariant \<open>contour_inv\<close> (ids
  distinct, below the counter, the active id names a curve) holds initially and is kept by
  every operation.
\<close>

section \<open>State and operations\<close>

record Contour =
  idNextCurve :: int
  idActiveCurve :: int
  curves :: "Curve list"

definition Contour_new :: Contour where
  "Contour_new = \<lparr>idNextCurve = 0, idActiveCurve = -1, curves = []\<rparr>"

definition deselectCurve :: "Contour \<Rightarrow> Contour" where
  "deselectCurve ct = ct\<lparr>idActiveCurve := -1\<rparr>"

text \<open>
  \<open>Contour::clear\<close>: the last statement \<open>int m_idNextCurve = 0;\<close> declares a local that
  shadows the member, so the id counter is not reset.
\<close>

definition contour_clear :: "Contour \<Rightarrow> Contour" where
  "contour_clear ct = (deselectCurve ct)\<lparr>curves := []\<rparr>"

definition addCurve :: "Contour \<Rightarrow> Contour \<times> int" where
  "addCurve ct =
     (let i = idNextCurve ct
      in (ct\<lparr>curves := curves ct @ [Curve_new i], idActiveCurve := i, idNextCurve := i + 1\<rparr>, i))"

text \<open>The loop of \<open>removeCurve\<close>: delete the first curve with the id and stop.\<close>

fun remove_curve_id :: "int \<Rightarrow> Curve list \<Rightarrow> Curve list" where
  "remove_curve_id i [] = []"
| "remove_curve_id i (c # cs) = (if c_id c = i then cs else c # remove_curve_id i cs)"

definition removeCurve :: "Contour \<Rightarrow> int \<Rightarrow> Contour" where
  "removeCurve ct i =
     (if i < 0 then ct
      else (let ct1 = (if i = idActiveCurve ct then deselectCurve ct else ct)
            in ct1\<lparr>curves := remove_curve_id i (curves ct1)\<rparr>))"

text \<open>
  The loop of \<open>selectCurve\<close>: \<open>Curve::select\<close> runs on each curve in turn, and changes
  it (selection state, inserted samples) even when it misses, until one reports a hit.
\<close>

fun select_curves :: "vec2 \<Rightarrow> real \<Rightarrow> Curve list \<Rightarrow> Curve list \<times> int option" where
  "select_curves p r [] = ([], None)"
| "select_curves p r (c # cs) =
     (let (c', ok) = select c p r
      in if ok then (c' # cs, Some (c_id c'))
         else (let (cs', res) = select_curves p r cs in (c' # cs', res)))"

definition selectCurve :: "Contour \<Rightarrow> vec2 \<Rightarrow> real \<Rightarrow> Contour \<times> int" where
  "selectCurve ct p r =
     (let (cs, res) = select_curves p r (curves ct)
      in case res of
           None \<Rightarrow> (ct\<lparr>curves := cs\<rparr>, -1)
         | Some i \<Rightarrow> (ct\<lparr>curves := cs, idActiveCurve := i\<rparr>, i))"

text \<open>\<open>Contour::curve(id)\<close>: \<open>None\<close> is the \<open>nullptr\<close> it returns for an unknown id.\<close>

definition curve :: "Contour \<Rightarrow> int \<Rightarrow> Curve option" where
  "curve ct i = (if 0 \<le> i then find (\<lambda>c. c_id c = i) (curves ct) else None)"

fun map_curve_id :: "int \<Rightarrow> (Curve \<Rightarrow> Curve) \<Rightarrow> Curve list \<Rightarrow> Curve list" where
  "map_curve_id i f [] = []"
| "map_curve_id i f (c # cs) = (if c_id c = i then f c # cs else c # map_curve_id i f cs)"

text \<open>A mutation of the curve that \<open>Contour::curve(i)\<close> points to.\<close>

definition update_curve :: "Contour \<Rightarrow> int \<Rightarrow> (Curve \<Rightarrow> Curve) \<Rightarrow> Contour" where
  "update_curve ct i f = (if 0 \<le> i then ct\<lparr>curves := map_curve_id i f (curves ct)\<rparr> else ct)"

definition contour_inv :: "Contour \<Rightarrow> bool" where
  "contour_inv ct \<longleftrightarrow>
     0 \<le> idNextCurve ct \<and> distinct (map c_id (curves ct)) \<and>
     list_all (\<lambda>c. 0 \<le> c_id c \<and> c_id c < idNextCurve ct) (curves ct) \<and>
     (idActiveCurve ct = -1 \<or> idActiveCurve ct \<in> set (map c_id (curves ct)))"

text \<open>A contour of one two-point curve, for the instances below.\<close>

definition one_curve :: Contour where
  "one_curve = \<lparr>idNextCurve = 1, idActiveCurve = -1,
                 curves = [(Curve_new 0)\<lparr>curvePoints := [pt 0 0, pt 5 0]\<rparr>]\<rparr>"

section \<open>Curve operations keep the curve id\<close>

named_theorems keeps_id \<open>curve operations that keep \<open>c_id\<close>\<close>

lemma select_id [simp, keeps_id]: "c_id (fst (select c p r)) = c_id c"
  by (simp add: select_def Let_def split: prod.split option.split)

lemma endDrawing_id [simp, keeps_id]: "c_id (endDrawing c) = c_id c"
  by (simp add: endDrawing_def)

lemma startDrawing_id [simp, keeps_id]: "c_id (fst (startDrawing c q md)) = c_id c"
  by (simp add: startDrawing_def Let_def prod.case_eq_if)

lemma append_pt_id [simp, keeps_id]: "c_id (append_pt c q) = c_id c"
  by (simp add: append_pt_def Let_def)

lemma absorb_id [simp, keeps_id]: "c_id (absorb c q) = c_id c"
  by (simp add: absorb_def Let_def)

lemma addPoint_id [simp, keeps_id]: "c_id (addPoint c q) = c_id c"
  by (simp add: addPoint_def Let_def)

section \<open>Lookup by id\<close>

lemma find_id_member:
  "distinct (map c_id cs) \<Longrightarrow> c \<in> set cs \<Longrightarrow> find (\<lambda>c'. c_id c' = c_id c) cs = Some c"
  by (induction cs) auto

lemma find_id_none: "i \<notin> c_id ` set cs \<Longrightarrow> find (\<lambda>c. c_id c = i) cs = None"
  by (auto simp: find_None_iff image_iff)

lemma find_id_append_fresh:
  "i \<notin> set (map c_id cs) \<Longrightarrow> find (\<lambda>c. c_id c = i) (cs @ [c]) = (if c_id c = i then Some c else None)"
  by (induction cs) auto

lemma find_id_append_other:
  "c_id c \<noteq> j \<Longrightarrow> find (\<lambda>c. c_id c = j) (cs @ [c]) = find (\<lambda>c. c_id c = j) cs"
  by (induction cs) auto

lemma map_c_id_map_curve_id [simp]:
  "\<forall>c. c_id (f c) = c_id c \<Longrightarrow> map c_id (map_curve_id i f cs) = map c_id cs"
  by (induction cs) auto

lemma map_c_id_remove_curve_id:
  "map c_id (remove_curve_id i cs) = remove1 i (map c_id cs)"
  by (induction cs) auto

lemma find_remove_curve_id_other:
  "j \<noteq> i \<Longrightarrow> find (\<lambda>c. c_id c = j) (remove_curve_id i cs) = find (\<lambda>c. c_id c = j) cs"
  by (induction cs) auto

lemma find_remove_curve_id_self:
  "distinct (map c_id cs) \<Longrightarrow> find (\<lambda>c. c_id c = i) (remove_curve_id i cs) = None"
  by (induction cs) (auto simp: find_id_none)

lemma set_remove_curve_id: "set (remove_curve_id i cs) \<subseteq> set cs"
  by (induction cs) auto

lemma image_c_id_map_curve_id:
  "\<forall>c. c_id (f c) = c_id c \<Longrightarrow> c_id ` set (map_curve_id i f cs) = c_id ` set cs"
  by (metis map_c_id_map_curve_id set_map)

lemma select_curves_ids [simp]: "map c_id (fst (select_curves p r cs)) = map c_id cs"
  by (induction cs) (auto simp: Let_def prod.case_eq_if)

lemma select_curves_hit:
  assumes "select_curves p r cs = (cs', Some i)"
  shows "\<exists>c \<in> set cs'. c_id c = i \<and> iteratorOfSelection c < length (curvePoints c) \<and>
           length_v (pos (curvePoints c ! iteratorOfSelection c) - p) < r"
  using assms
proof (induction cs arbitrary: cs')
  case Nil
  then show ?case by simp
next
  case (Cons c cs)
  obtain c' ok where sel: "select c p r = (c', ok)" by fastforce
  show ?case
  proof (cases ok)
    case True
    obtain pts' sl where "c' = c\<lparr>selectionRadius := r, editDir := ED_None, inputPoints := [],
        curvePoints := pts', iteratorOfSelection := sl\<rparr>" and "subseq (curvePoints c) pts'" and
      "ok \<Longrightarrow> sl < length pts' \<and> length_v (pos (pts' ! sl) - p) < r"
      using select_cases [OF sel] by blast
    with True Cons.prems sel show ?thesis by auto
  next
    case False
    obtain cs'' res where rec: "select_curves p r cs = (cs'', res)" by fastforce
    with Cons.prems sel False have "res = Some i" "cs' = c' # cs''" by auto
    with Cons.IH rec show ?thesis by auto
  qed
qed

section \<open>The invariant\<close>

lemma Contour_new_inv: "contour_inv Contour_new"
  by (simp add: contour_inv_def Contour_new_def)

lemma addCurve_inv: "contour_inv ct \<Longrightarrow> contour_inv (fst (addCurve ct))"
  by (auto simp: contour_inv_def addCurve_def Let_def Curve_new_def list_all_iff)

lemma removeCurve_inv: "contour_inv ct \<Longrightarrow> contour_inv (removeCurve ct i)"
proof -
  assume inv: "contour_inv ct"
  let ?cs = "remove_curve_id i (curves ct)"
  have d: "distinct (map c_id ?cs)"
    using inv by (simp add: contour_inv_def map_c_id_remove_curve_id distinct_remove1)
  have b: "list_all (\<lambda>c. 0 \<le> c_id c \<and> c_id c < idNextCurve ct) ?cs"
    using inv set_remove_curve_id by (fastforce simp: contour_inv_def list_all_iff)
  have a: "j \<in> set (map c_id ?cs)" if "j \<in> set (map c_id (curves ct))" "j \<noteq> i" for j
    using that inv by (simp add: map_c_id_remove_curve_id contour_inv_def)
  show ?thesis
    using inv d b a by (auto simp: contour_inv_def removeCurve_def deselectCurve_def Let_def)
qed

lemma selectCurve_inv: "contour_inv ct \<Longrightarrow> contour_inv (fst (selectCurve ct p r))"
proof -
  assume inv: "contour_inv ct"
  obtain cs res where sc: "select_curves p r (curves ct) = (cs, res)" by fastforce
  have ids: "map c_id cs = map c_id (curves ct)"
    using select_curves_ids [of p r "curves ct"] sc by simp
  have hit: "i \<in> set (map c_id cs)" if "res = Some i" for i
    using select_curves_hit [of p r "curves ct" cs i] sc that by force
  have lst: "list_all (\<lambda>c. 0 \<le> c_id c \<and> c_id c < idNextCurve ct) cs"
    using inv ids by (simp add: contour_inv_def list_all_iff) (metis list.set_map image_iff)
  show ?thesis
    using inv ids hit lst by (cases res) (auto simp: contour_inv_def selectCurve_def sc)
qed

lemma deselectCurve_inv: "contour_inv ct \<Longrightarrow> contour_inv (deselectCurve ct)"
  by (simp add: contour_inv_def deselectCurve_def)

lemma contour_clear_inv: "contour_inv ct \<Longrightarrow> contour_inv (contour_clear ct)"
  by (simp add: contour_inv_def contour_clear_def deselectCurve_def)

lemma update_curve_inv:
  "contour_inv ct \<Longrightarrow> \<forall>c. c_id (f c) = c_id c \<Longrightarrow> contour_inv (update_curve ct i f)"
proof -
  assume inv: "contour_inv ct" and f: "\<forall>c. c_id (f c) = c_id c"
  let ?cs = "map_curve_id i f (curves ct)"
  have "list_all P (map_curve_id i f cs)" if "list_all P cs" "\<forall>c. P c \<longrightarrow> P (f c)" for P cs
    using that by (induction cs) auto
  moreover have "\<forall>c. 0 \<le> c_id c \<and> c_id c < idNextCurve ct \<longrightarrow> 0 \<le> c_id (f c) \<and> c_id (f c) < idNextCurve ct"
    using f by simp
  ultimately have "list_all (\<lambda>c. 0 \<le> c_id c \<and> c_id c < idNextCurve ct) ?cs"
    using inv by (simp add: contour_inv_def)
  moreover have "map c_id ?cs = map c_id (curves ct)" using f by simp
  ultimately show ?thesis
    using inv f by (simp add: contour_inv_def update_curve_def image_c_id_map_curve_id)
qed

section \<open>Reachable contours\<close>

text \<open>
  One step of a contour: a public operation of \<open>Contour\<close>, or a change of one curve
  through the pointer \<open>Contour::curve\<close> returns by an operation that keeps its id (every
  operation of \<open>Curve\<close> does, \<open>keeps_id\<close>).
\<close>

inductive contour_step :: "Contour \<Rightarrow> Contour \<Rightarrow> bool" where
  add: "contour_step ct (fst (addCurve ct))"
| remove: "contour_step ct (removeCurve ct i)"
| select: "contour_step ct (fst (selectCurve ct p r))"
| deselect: "contour_step ct (deselectCurve ct)"
| clear: "contour_step ct (contour_clear ct)"
| edit: "\<forall>c. c_id (f c) = c_id c \<Longrightarrow> contour_step ct (update_curve ct i f)"

inductive contour_reachable :: "Contour \<Rightarrow> bool" where
  init: "contour_reachable Contour_new"
| step: "contour_reachable ct \<Longrightarrow> contour_step ct ct' \<Longrightarrow> contour_reachable ct'"

lemma contour_step_inv: "contour_step ct ct' \<Longrightarrow> contour_inv ct \<Longrightarrow> contour_inv ct'"
  by (induction rule: contour_step.induct)
     (simp_all add: addCurve_inv removeCurve_inv selectCurve_inv deselectCurve_inv
        contour_clear_inv update_curve_inv)

text \<open>
  C17: in every reachable contour the curve ids are distinct, non-negative and below the
  id counter, and the active id is \<open>-1\<close> or the id of a curve of the contour.
\<close>

theorem reachable_contour_inv: "contour_reachable ct \<Longrightarrow> contour_inv ct"
  by (induction rule: contour_reachable.induct) (simp_all add: Contour_new_inv contour_step_inv)

theorem reachable_contour_inv_witness:
  "contour_reachable (fst (addCurve Contour_new)) \<and> contour_inv (fst (addCurve Contour_new))"
proof -
  have r: "contour_reachable (fst (addCurve Contour_new))"
    by (rule contour_reachable.step [OF contour_reachable.init contour_step.add])
  show ?thesis using r reachable_contour_inv [OF r] by simp
qed

section \<open>Functional behaviour\<close>

lemma contour_inv_fresh:
  "contour_inv ct \<Longrightarrow> idNextCurve ct \<notin> c_id ` set (curves ct)"
  by (auto simp: contour_inv_def list_all_iff)

lemma addCurve_lookup:
  assumes inv: "contour_inv ct" and add: "addCurve ct = (ct', i)"
  shows "curve ct' i = Some (Curve_new i) \<and> idActiveCurve ct' = i \<and> 0 \<le> i \<and> contour_inv ct'"
proof -
  have i: "i = idNextCurve ct" and ct': "curves ct' = curves ct @ [Curve_new i]" "idActiveCurve ct' = i"
    using add by (auto simp: addCurve_def Let_def)
  have fresh: "i \<notin> c_id ` set (curves ct)" using contour_inv_fresh [OF inv] i by simp
  have nn: "0 \<le> i" using inv i by (simp add: contour_inv_def)
  have "contour_inv ct'" using addCurve_inv [OF inv] add by simp
  then show ?thesis
    using fresh nn ct' find_id_append_fresh [of i "curves ct" "Curve_new i"]
    by (simp add: curve_def Curve_new_def)
qed

text \<open>
  C18: \<open>addCurve\<close> hands out an id no curve has, makes the new empty curve active and
  findable under that id, and changes the lookup of no other id.
\<close>

theorem addCurve_fresh:
  assumes inv: "contour_inv ct" and add: "addCurve ct = (ct', i)"
  shows "curve ct i = None \<and> curve ct' i = Some (Curve_new i) \<and> idActiveCurve ct' = i \<and>
         (\<forall>j. j \<noteq> i \<longrightarrow> curve ct' j = curve ct j)"
proof -
  have i: "i = idNextCurve ct" and ct': "curves ct' = curves ct @ [Curve_new i]"
    using add by (auto simp: addCurve_def Let_def)
  have fresh: "i \<notin> c_id ` set (curves ct)" using contour_inv_fresh [OF inv] i by simp
  have idn: "c_id (Curve_new i) = i" by (simp add: Curve_new_def)
  have l: "curve ct' i = Some (Curve_new i)" "idActiveCurve ct' = i"
    using addCurve_lookup [OF inv add] by simp_all
  have none: "curve ct i = None" using fresh by (simp add: curve_def find_id_none)
  have oth: "\<forall>j. j \<noteq> i \<longrightarrow> curve ct' j = curve ct j"
    using ct' idn by (simp add: curve_def find_id_append_other)
  show ?thesis using l none oth by simp
qed

theorem addCurve_fresh_witness:
  "contour_inv Contour_new \<and> addCurve Contour_new = (fst (addCurve Contour_new), 0) \<and>
   curve (fst (addCurve Contour_new)) 0 = Some (Curve_new 0)"
proof -
  have h: "contour_inv Contour_new" by (rule Contour_new_inv)
  have a: "addCurve Contour_new = (fst (addCurve Contour_new), 0)"
    by (simp add: addCurve_def Contour_new_def)
  show ?thesis using h a addCurve_fresh [OF h a] by simp
qed

text \<open>
  C19: after \<open>removeCurve(i)\<close> no curve is found under \<open>i\<close>, every other id finds what
  it found before, and the selection is dropped exactly when it was \<open>i\<close>.
\<close>

theorem removeCurve_spec:
  assumes inv: "contour_inv ct" and nn: "0 \<le> i"
  shows "curve (removeCurve ct i) i = None \<and>
         (\<forall>j. j \<noteq> i \<longrightarrow> curve (removeCurve ct i) j = curve ct j) \<and>
         idActiveCurve (removeCurve ct i) = (if idActiveCurve ct = i then -1 else idActiveCurve ct)"
proof -
  have d: "distinct (map c_id (curves ct))" using inv by (simp add: contour_inv_def)
  have cs: "curves (removeCurve ct i) = remove_curve_id i (curves ct)"
    using nn by (simp add: removeCurve_def deselectCurve_def Let_def)
  show ?thesis
    using nn d by (simp add: cs curve_def find_remove_curve_id_self find_remove_curve_id_other)
      (simp add: removeCurve_def deselectCurve_def Let_def)
qed

theorem removeCurve_spec_witness:
  "contour_inv (fst (addCurve Contour_new)) \<and> (0::int) \<le> 0 \<and>
   curve (removeCurve (fst (addCurve Contour_new)) 0) 0 = None \<and>
   idActiveCurve (removeCurve (fst (addCurve Contour_new)) 0) = -1"
proof -
  have h: "contour_inv (fst (addCurve Contour_new))" by (intro addCurve_inv Contour_new_inv)
  have a: "idActiveCurve (fst (addCurve Contour_new)) = 0"
    by (simp add: addCurve_def Contour_new_def)
  show ?thesis using h removeCurve_spec [OF h, of 0] a by simp
qed

text \<open>
  A selection that reports a curve id makes it active, and the curve found under the
  id has its selected node within the selection radius of the query point.
\<close>

theorem selectCurve_hit:
  assumes inv: "contour_inv ct" and sc: "selectCurve ct p r = (ct', i)" and nn: "0 \<le> i"
  shows "idActiveCurve ct' = i \<and>
         (\<exists>c. curve ct' i = Some c \<and> iteratorOfSelection c < length (curvePoints c) \<and>
              length_v (pos (curvePoints c ! iteratorOfSelection c) - p) < r)"
proof -
  obtain cs res where sr: "select_curves p r (curves ct) = (cs, res)" by fastforce
  have res: "res = Some i" and ct': "curves ct' = cs" "idActiveCurve ct' = i"
    using sc nn by (auto simp: selectCurve_def sr split: option.splits)
  obtain c where c: "c \<in> set cs" "c_id c = i" "iteratorOfSelection c < length (curvePoints c)"
      "length_v (pos (curvePoints c ! iteratorOfSelection c) - p) < r"
    using select_curves_hit [of p r "curves ct" cs i] sr res by blast
  have "distinct (map c_id cs)"
    using inv select_curves_ids [of p r "curves ct"] sr by (simp add: contour_inv_def)
  with c have "find (\<lambda>c'. c_id c' = i) cs = Some c" using find_id_member [of cs c] by simp
  with c nn ct' show ?thesis by (auto simp: curve_def)
qed

theorem selectCurve_hit_witness:
  "contour_inv one_curve \<and>
   selectCurve one_curve (Vec2D 0.5 0) 1 = (fst (selectCurve one_curve (Vec2D 0.5 0) 1), 0) \<and>
   (0::int) \<le> 0 \<and> idActiveCurve (fst (selectCurve one_curve (Vec2D 0.5 0) 1)) = 0"
proof -
  have h: "contour_inv one_curve" by (simp add: contour_inv_def one_curve_def Curve_new_def)
  have s: "selectCurve one_curve (Vec2D 0.5 0) 1 = (fst (selectCurve one_curve (Vec2D 0.5 0) 1), 0)"
    by (simp add: selectCurve_def one_curve_def select_def Curve_new_def pt_def mkCurvePoint_def
        length_v_def sqrt_less_iff_sq Let_def)
  show ?thesis using h s selectCurve_hit [OF h s] by simp
qed

section \<open>Scenarios\<close>

text \<open>
  The scenario of the specification: three \<open>addCurve\<close> calls return \<open>0\<close>, \<open>1\<close>,
  \<open>2\<close>; after \<open>removeCurve(1)\<close> the lookup of \<open>1\<close> is \<open>nullptr\<close> and that of \<open>0\<close> is not.
\<close>

theorem contour_scenario:
  "let (k1, a) = addCurve Contour_new; (k2, b) = addCurve k1; (k3, c) = addCurve k2;
       k4 = removeCurve k3 1
   in a = 0 \<and> b = 1 \<and> c = 2 \<and> curve k4 1 = None \<and> curve k4 0 \<noteq> None"
  by (simp add: addCurve_def Contour_new_def removeCurve_def deselectCurve_def curve_def
      Curve_new_def Let_def)

text \<open>
  C22: \<open>Contour::clear\<close> does not reset the id counter (its \<open>int m_idNextCurve = 0\<close>
  declares a local): in every reachable contour, the first curve added after clearing
  gets the old counter as its id, above the id of every curve the contour held, so a
  contour that held a curve never numbers its curves from 0 again.
\<close>

theorem clear_keeps_id_counter:
  assumes "contour_reachable ct"
  shows "snd (addCurve (contour_clear ct)) = idNextCurve ct \<and>
         list_all (\<lambda>c. c_id c < snd (addCurve (contour_clear ct))) (curves ct) \<and>
         (curves ct \<noteq> [] \<longrightarrow> 0 < snd (addCurve (contour_clear ct)))"
proof -
  have inv: "contour_inv ct"
    using assms by (induction rule: contour_reachable.induct) (simp_all add: Contour_new_inv contour_step_inv)
  have n: "snd (addCurve (contour_clear ct)) = idNextCurve ct"
    by (simp add: addCurve_def contour_clear_def deselectCurve_def Let_def)
  have "list_all (\<lambda>c. 0 \<le> c_id c \<and> c_id c < idNextCurve ct) (curves ct)"
    using inv by (simp add: contour_inv_def)
  then show ?thesis using n by (cases "curves ct") (auto simp: list_all_iff)
qed

theorem clear_keeps_id_counter_witness:
  "contour_reachable (fst (addCurve Contour_new)) \<and>
   snd (addCurve (contour_clear (fst (addCurve Contour_new)))) = idNextCurve (fst (addCurve Contour_new)) \<and>
   0 < snd (addCurve (contour_clear (fst (addCurve Contour_new))))"
proof -
  have r: "contour_reachable (fst (addCurve Contour_new))"
    by (rule contour_reachable.step [OF contour_reachable.init contour_step.add])
  have "curves (fst (addCurve Contour_new)) \<noteq> []" by (simp add: addCurve_def Let_def)
  then show ?thesis using clear_keeps_id_counter [OF r] r by simp
qed

end
