(* ===== verification/Model.thy ===== *)
theory Model
  imports Contour Smoothing
begin

text \<open>
  \<open>Model\<close> (src/Source/Model/Model.h, Model.cpp) and the mouse handlers of
  \<open>GL_View\<close> (src/Source/View/GL_View.cpp) and the contour menu of \<open>Controller\<close>
  (src/Source/Controller/Controller.cpp) that drive it. The model owns the contour and
  reads the image; of the shared \<open>RenderState\<close> it reads the window-to-contour scale and
  writes two redraw flags, which are fields of the model state here. Every call through
  the \<open>Curve*\<close> that \<open>Contour::curve\<close> returns is \<open>with_curve\<close>, which fails with
  \<open>NullCurve\<close> where the code dereferences \<open>nullptr\<close>; the operations that do so return
  \<open>model_error + Model\<close>. The two fitting routines take the image filter
  (\<open>ImageFilterer::getVecToClosestVessel\<close>, \<open>ImageFilterer::getWidthAtP\<close>) as a
  function argument: the lemmas on them hold for every filter.
\<close>

section \<open>State\<close>

datatype model_error = NullCurve

record Model =
  m_contour :: Contour
  isDrawing :: bool
  minSeparationInWindowPixels :: real
  selectionRadiusInWindowPixels :: real
  imageValid :: bool
  windowToContourScale :: real
  contourNeedsUpdate :: bool
  activeCurveNeedsUpdate :: bool

text \<open>\<open>Model::Model\<close>, for a render state with the given scale and no image loaded.\<close>

definition Model_new :: "real \<Rightarrow> Model" where
  "Model_new s =
     \<lparr>m_contour = Contour_new, isDrawing = False, minSeparationInWindowPixels = 2,
      selectionRadiusInWindowPixels = 3, imageValid = False, windowToContourScale = s,
      contourNeedsUpdate = False, activeCurveNeedsUpdate = False\<rparr>"

definition set_needs_update :: "Model \<Rightarrow> Model" where
  "set_needs_update m = m\<lparr>contourNeedsUpdate := True, activeCurveNeedsUpdate := True\<rparr>"

text \<open>
  \<open>m_contour.curve(i)->f(...)\<close>: dereference the pointer (\<open>NullCurve\<close> if it is
  \<open>nullptr\<close>), run the method on the curve in place and return its result.
\<close>

definition with_curve ::
  "Contour \<Rightarrow> int \<Rightarrow> (Curve \<Rightarrow> Curve \<times> 'a) \<Rightarrow> model_error + (Contour \<times> 'a)" where
  "with_curve ct i f =
     (case curve ct i of
        None \<Rightarrow> Inl NullCurve
      | Some c \<Rightarrow> Inr (update_curve ct i (\<lambda>c. fst (f c)), snd (f c)))"

section \<open>Selection\<close>

definition deselect :: "Model \<Rightarrow> Model" where
  "deselect m =
     (if 0 \<le> idActiveCurve (m_contour m)
      then set_needs_update (m\<lparr>m_contour := deselectCurve (m_contour m)\<rparr>)
      else m)"

definition model_select :: "Model \<Rightarrow> vec2 \<Rightarrow> Model \<times> bool" where
  "model_select m p =
     (let r = selectionRadiusInWindowPixels m * windowToContourScale m;
          ct = fst (selectCurve (m_contour m) p r)
      in (set_needs_update (m\<lparr>m_contour := ct\<rparr>), 0 \<le> idActiveCurve ct))"

definition deleteSelected :: "Model \<Rightarrow> Model" where
  "deleteSelected m =
     (let i = idActiveCurve (m_contour m)
      in if 0 \<le> i then set_needs_update (m\<lparr>m_contour := removeCurve (m_contour m) i\<rparr>) else m)"

text \<open>\<open>Model::clear\<close>: the image is emptied (no longer valid) and the contour cleared.\<close>

definition model_clear :: "Model \<Rightarrow> Model" where
  "model_clear m = m\<lparr>imageValid := False, m_contour := contour_clear (m_contour m)\<rparr>"

section \<open>Drawing\<close>

text \<open>The branch \<open>if (!m_isDrawing)\<close> of \<open>startDraw\<close>: a new curve, active, drawn from the start point.\<close>

definition draw_new_curve :: "Model \<Rightarrow> CurvePoint \<Rightarrow> real \<Rightarrow> model_error + Model" where
  "draw_new_curve m pStart minSeparation =
     (let m3 = deselect m; (ct, j) = addCurve (m_contour m3)
      in case with_curve ct j (\<lambda>c. startDrawing c pStart minSeparation) of
           Inl e \<Rightarrow> Inl e
         | Inr (ct', ok) \<Rightarrow> Inr (m3\<lparr>m_contour := ct', isDrawing := ok\<rparr>))"

definition startDraw :: "Model \<Rightarrow> CurvePoint \<Rightarrow> model_error + Model" where
  "startDraw m pStart =
     (let m1 = m\<lparr>isDrawing := False\<rparr>;
          i = idActiveCurve (m_contour m1);
          minSeparation = minSeparationInWindowPixels m1 * windowToContourScale m1;
          r1 = (if 0 \<le> i
                then (case with_curve (m_contour m1) i (\<lambda>c. startDrawing c pStart minSeparation) of
                        Inl e \<Rightarrow> Inl e
                      | Inr (ct, ok) \<Rightarrow> Inr (m1\<lparr>m_contour := ct, isDrawing := ok\<rparr>))
                else Inr m1);
          r2 = (case r1 of
                  Inl e \<Rightarrow> Inl e
                | Inr m2 \<Rightarrow> if isDrawing m2 then Inr m2 else draw_new_curve m2 pStart minSeparation)
      in case r2 of Inl e \<Rightarrow> Inl e | Inr m4 \<Rightarrow> Inr (set_needs_update m4))"

definition updateDraw :: "Model \<Rightarrow> CurvePoint \<Rightarrow> model_error + Model" where
  "updateDraw m point =
     (if \<not> isDrawing m then Inr m
      else (case with_curve (m_contour m) (idActiveCurve (m_contour m)) (\<lambda>c. (addPoint c point, ())) of
              Inl e \<Rightarrow> Inl e
            | Inr (ct, _) \<Rightarrow> Inr (m\<lparr>m_contour := ct, activeCurveNeedsUpdate := True\<rparr>)))"

definition endDraw :: "Model \<Rightarrow> CurvePoint \<Rightarrow> model_error + Model" where
  "endDraw m point =
     (case updateDraw m point of
        Inl e \<Rightarrow> Inl e
      | Inr m1 \<Rightarrow>
          (case with_curve (m_contour m1) (idActiveCurve (m_contour m1)) (\<lambda>c. (endDrawing c, ())) of
             Inl e \<Rightarrow> Inl e
           | Inr (ct, _) \<Rightarrow> Inr (m1\<lparr>m_contour := ct, activeCurveNeedsUpdate := True, isDrawing := False\<rparr>)))"

section \<open>Fitting\<close>

text \<open>
  One pass of \<open>fitSelectedToNearestVessel\<close>: all move vectors are computed from the
  current positions first (\<open>moveVecs\<close>), then every point moves by \<open>moveConst = 0.5\<close>
  times its vector.
\<close>

definition fit_pass :: "(vec2 \<Rightarrow> real \<Rightarrow> vec2) \<Rightarrow> real \<Rightarrow> CurvePoint list \<Rightarrow> CurvePoint list" where
  "fit_pass vecTo expectedRadius pts =
     (let moveVecs = map (\<lambda>p. vecTo (pos p) expectedRadius) pts
      in map2 (\<lambda>p v. p\<lparr>pos := pos p + 0.5 *\<^sub>R v\<rparr>) pts moveVecs)"

primrec fit_passes ::
  "(vec2 \<Rightarrow> real \<Rightarrow> vec2) \<Rightarrow> real \<Rightarrow> nat \<Rightarrow> CurvePoint list \<Rightarrow> CurvePoint list" where
  "fit_passes vecTo expectedRadius 0 pts = pts"
| "fit_passes vecTo expectedRadius (Suc n) pts = fit_passes vecTo expectedRadius n (fit_pass vecTo expectedRadius pts)"

definition fitSelectedToNearestVessel ::
  "(vec2 \<Rightarrow> real \<Rightarrow> vec2) \<Rightarrow> Model \<Rightarrow> real \<Rightarrow> Model" where
  "fitSelectedToNearestVessel vecTo m expectedRadius =
     (let ct = m_contour m; i = idActiveCurve ct; numTries = 10 in
      if \<not> imageValid m then m
      else (case curve ct i of
              None \<Rightarrow> m
            | Some c \<Rightarrow>
                if curvePoints c = [] then m
                else m\<lparr>m_contour := update_curve ct i (\<lambda>c. c\<lparr>curvePoints :=
                         applySmoothing ST_Points (fit_passes vecTo expectedRadius numTries (curvePoints c))\<rparr>)\<rparr>))"

text \<open>
  The loop of \<open>fitSelectedVesselWidth\<close>: the tangent at each point is the normalised
  difference of its neighbours (the point itself at either end), and its radius becomes
  half the detected width. The loop writes radii only and reads positions only, so it is
  a map over the indices.
\<close>

definition width_pass ::
  "(vec2 \<Rightarrow> vec2 \<Rightarrow> real \<Rightarrow> real) \<Rightarrow> real \<Rightarrow> CurvePoint list \<Rightarrow> CurvePoint list" where
  "width_pass widthAt expectedRadius pts =
     map (\<lambda>i. let itPrev = (if i = 0 then i else i - 1);
                  itNext = (if Suc i = length pts then i else Suc i);
                  curveDir = normalized (pos (pts ! itNext) - pos (pts ! itPrev));
                  width = widthAt (pos (pts ! i)) curveDir expectedRadius
              in (pts ! i)\<lparr>radius := 0.5 * width\<rparr>) [0..<length pts]"

text \<open>The last point takes the radius of its predecessor, then the first that of its successor.\<close>

definition fix_end_radii :: "CurvePoint list \<Rightarrow> CurvePoint list" where
  "fix_end_radii pts =
     (let n = length pts;
          pts1 = pts[n - 1 := (pts ! (n - 1))\<lparr>radius := radius (pts ! (n - 2))\<rparr>]
      in pts1[0 := (pts1 ! 0)\<lparr>radius := radius (pts1 ! 1)\<rparr>])"

definition fitSelectedVesselWidth ::
  "(vec2 \<Rightarrow> vec2 \<Rightarrow> real \<Rightarrow> real) \<Rightarrow> Model \<Rightarrow> real \<Rightarrow> Model" where
  "fitSelectedVesselWidth widthAt m expectedRadius =
     (let ct = m_contour m; i = idActiveCurve ct in
      if \<not> imageValid m then m
      else (case curve ct i of
              None \<Rightarrow> m
            | Some c \<Rightarrow>
                if length (curvePoints c) \<le> 1 then m
                else m\<lparr>m_contour := update_curve ct i (\<lambda>c. c\<lparr>curvePoints :=
                         applySmoothing ST_Widths (fix_end_radii (width_pass widthAt expectedRadius (curvePoints c)))\<rparr>)\<rparr>))"

section \<open>The view and the contour menu\<close>

text \<open>
  The events of \<open>GL_View\<close> and \<open>Controller\<close> that reach the model, without keyboard
  modifiers (those pan, zoom and window the view). A press carries the state of the left
  and right buttons, \<open>e->buttons()\<close>; \<open>view_drawing\<close> is \<open>m_currentAction == Draw\<close>.
\<close>

datatype view_event =
    MousePress bool bool CurvePoint
  | MouseMove CurvePoint
  | MouseRelease CurvePoint
  | MenuDeselect
  | MenuDeleteSelected
  | MenuClearContour
  | MenuFitToVessel real
  | MenuFitWidth real

record View =
  view_drawing :: bool
  view_model :: Model

definition lift_model :: "View \<Rightarrow> model_error + Model \<Rightarrow> bool \<Rightarrow> model_error + View" where
  "lift_model v r drawing =
     (case r of Inl e \<Rightarrow> Inl e | Inr m \<Rightarrow> Inr (v\<lparr>view_drawing := drawing, view_model := m\<rparr>))"

definition view_step ::
  "(vec2 \<Rightarrow> real \<Rightarrow> vec2) \<Rightarrow> (vec2 \<Rightarrow> vec2 \<Rightarrow> real \<Rightarrow> real) \<Rightarrow> View \<Rightarrow> view_event \<Rightarrow> model_error + View" where
  "view_step vecTo widthAt v ev =
     (let m = view_model v in
      case ev of
        MousePress left right p \<Rightarrow>
          if left then lift_model v (startDraw m p) True
          else if right then Inr (v\<lparr>view_drawing := False, view_model := fst (model_select m (pos p))\<rparr>)
          else Inr v
      | MouseMove p \<Rightarrow> if view_drawing v then lift_model v (updateDraw m p) True else Inr v
      | MouseRelease p \<Rightarrow>
          if view_drawing v then lift_model v (endDraw m p) False else Inr (v\<lparr>view_drawing := False\<rparr>)
      | MenuDeselect \<Rightarrow> Inr (v\<lparr>view_model := (deselect m)\<lparr>contourNeedsUpdate := True\<rparr>\<rparr>)
      | MenuDeleteSelected \<Rightarrow> Inr (v\<lparr>view_model := (deleteSelected m)\<lparr>contourNeedsUpdate := True\<rparr>\<rparr>)
      | MenuClearContour \<Rightarrow>
          Inr (v\<lparr>view_model := m\<lparr>m_contour := contour_clear (m_contour m), contourNeedsUpdate := True\<rparr>\<rparr>)
      | MenuFitToVessel r \<Rightarrow>
          Inr (v\<lparr>view_model := (fitSelectedToNearestVessel vecTo m r)\<lparr>activeCurveNeedsUpdate := True\<rparr>\<rparr>)
      | MenuFitWidth r \<Rightarrow>
          Inr (v\<lparr>view_model := (fitSelectedVesselWidth widthAt m r)\<lparr>activeCurveNeedsUpdate := True\<rparr>\<rparr>))"

fun run_view ::
  "(vec2 \<Rightarrow> real \<Rightarrow> vec2) \<Rightarrow> (vec2 \<Rightarrow> vec2 \<Rightarrow> real \<Rightarrow> real) \<Rightarrow> View \<Rightarrow> view_event list \<Rightarrow> model_error + View" where
  "run_view vecTo widthAt v [] = Inr v"
| "run_view vecTo widthAt v (ev # evs) =
     (case view_step vecTo widthAt v ev of
        Inl e \<Rightarrow> Inl e
      | Inr v' \<Rightarrow> run_view vecTo widthAt v' evs)"

text \<open>The view of a freshly started application.\<close>

definition View_new :: "real \<Rightarrow> View" where
  "View_new s = \<lparr>view_drawing = False, view_model = Model_new s\<rparr>"

text \<open>A model whose active curve is a single point at the origin, for the instances below.\<close>

definition one_point_model :: Model where
  "one_point_model = (Model_new 1)\<lparr>m_contour :=
     \<lparr>idNextCurve = 1, idActiveCurve = 0, curves = [(Curve_new 0)\<lparr>curvePoints := [pt 0 0]\<rparr>]\<rparr>,
     imageValid := True\<rparr>"

section \<open>Invariant and gesture protocol\<close>

text \<open>
  \<open>model_inv\<close>: the contour invariant, and while a stroke is being drawn there is an
  active curve. \<open>view_inv\<close> adds that the view is in its draw action exactly while the
  model draws.
\<close>

definition model_inv :: "Model \<Rightarrow> bool" where
  "model_inv m \<longleftrightarrow> contour_inv (m_contour m) \<and> (isDrawing m \<longrightarrow> idActiveCurve (m_contour m) \<noteq> -1)"

definition view_inv :: "View \<Rightarrow> bool" where
  "view_inv v \<longleftrightarrow> model_inv (view_model v) \<and> view_drawing v = isDrawing (view_model v)"

text \<open>
  The draw action after an event, and the events a user can produce in each: while the
  left button is held, only mouse moves, the release, and presses that still hold it.
\<close>

fun drag_after :: "bool \<Rightarrow> view_event \<Rightarrow> bool" where
  "drag_after d (MousePress left right p) = left"
| "drag_after d (MouseRelease p) = False"
| "drag_after d ev = d"

fun ev_ok :: "bool \<Rightarrow> view_event \<Rightarrow> bool" where
  "ev_ok True (MousePress left right p) = left"
| "ev_ok True (MouseMove p) = True"
| "ev_ok True (MouseRelease p) = True"
| "ev_ok True ev = False"
| "ev_ok False ev = True"

fun gesture_ok :: "bool \<Rightarrow> view_event list \<Rightarrow> bool" where
  "gesture_ok d [] = True"
| "gesture_ok d (ev # evs) = (ev_ok d ev \<and> gesture_ok (drag_after d ev) evs)"

section \<open>Lookup after a write through the pointer\<close>

lemma find_map_curve_id_self:
  "\<forall>c. c_id (f c) = c_id c \<Longrightarrow> find (\<lambda>c. c_id c = i) (map_curve_id i f cs) = map_option f (find (\<lambda>c. c_id c = i) cs)"
  by (induction cs) auto

lemma find_map_curve_id_other:
  "\<forall>c. c_id (f c) = c_id c \<Longrightarrow> j \<noteq> i \<Longrightarrow>
   find (\<lambda>c. c_id c = j) (map_curve_id i f cs) = find (\<lambda>c. c_id c = j) cs"
  by (induction cs) auto

lemma curve_update_curve:
  assumes "\<forall>c. c_id (f c) = c_id c"
  shows "curve (update_curve ct i f) j = (if j = i then map_option f (curve ct j) else curve ct j)"
  using assms by (simp add: curve_def update_curve_def find_map_curve_id_self find_map_curve_id_other)

lemma update_curve_active [simp]: "idActiveCurve (update_curve ct i f) = idActiveCurve ct"
  by (simp add: update_curve_def)

lemma contour_inv_active:
  assumes "contour_inv ct" "idActiveCurve ct \<noteq> -1"
  shows "\<exists>c. curve ct (idActiveCurve ct) = Some c"
proof -
  from assms obtain c where c: "c \<in> set (curves ct)" "c_id c = idActiveCurve ct"
    by (auto simp: contour_inv_def)
  with assms(1) have "0 \<le> c_id c" by (auto simp: contour_inv_def list_all_iff)
  moreover from assms(1) c have "find (\<lambda>c'. c_id c' = c_id c) (curves ct) = Some c"
    by (intro find_id_member) (simp_all add: contour_inv_def)
  ultimately show ?thesis using c by (auto simp: curve_def)
qed

lemma with_curve_some:
  "curve ct i = Some c \<Longrightarrow> with_curve ct i f = Inr (update_curve ct i (\<lambda>c. fst (f c)), snd (f c))"
  by (simp add: with_curve_def)

lemma with_curve_inv:
  "with_curve ct i f = Inr (ct', r) \<Longrightarrow> contour_inv ct \<Longrightarrow> \<forall>c. c_id (fst (f c)) = c_id c \<Longrightarrow>
   contour_inv ct' \<and> idActiveCurve ct' = idActiveCurve ct"
  by (auto simp: with_curve_def update_curve_inv split: option.splits)

section \<open>The model operations keep the invariant\<close>

lemma startDrawing_new [simp]: "snd (startDrawing (Curve_new j) p md) = True"
  by (simp add: startDrawing_def Curve_new_def)

lemma draw_new_curve_ok:
  assumes inv: "contour_inv (m_contour m)"
  shows "\<exists>m'. draw_new_curve m p md = Inr m' \<and> model_inv m' \<and> isDrawing m'"
proof -
  have ci: "contour_inv (m_contour (deselect m))"
    using inv by (simp add: deselect_def set_needs_update_def deselectCurve_inv)
  obtain ct1 j where add: "addCurve (m_contour (deselect m)) = (ct1, j)" by fastforce
  note l = addCurve_lookup [OF ci add]
  have wc: "with_curve ct1 j (\<lambda>c. startDrawing c p md) =
            Inr (update_curve ct1 j (\<lambda>c. fst (startDrawing c p md)), True)"
    using l with_curve_some [of ct1 j "Curve_new j" "\<lambda>c. startDrawing c p md"] by simp
  have "contour_inv (update_curve ct1 j (\<lambda>c. fst (startDrawing c p md)))"
    using l by (intro update_curve_inv) simp_all
  then show ?thesis using l by (simp add: draw_new_curve_def Let_def add wc model_inv_def)
qed

lemma startDraw_ok:
  assumes inv: "model_inv m"
  shows "\<exists>m'. startDraw m p = Inr m' \<and> model_inv m' \<and> isDrawing m'"
proof -
  let ?md = "minSeparationInWindowPixels m * windowToContourScale m"
  let ?i = "idActiveCurve (m_contour m)"
  have ci: "contour_inv (m_contour m)" using inv by (simp add: model_inv_def)
  have su: "model_inv (set_needs_update m') = model_inv m'" "isDrawing (set_needs_update m') = isDrawing m'" for m'
    by (simp_all add: set_needs_update_def model_inv_def)
  show ?thesis
  proof (cases "0 \<le> ?i")
    case True
    then have "?i \<noteq> -1" by simp
    from contour_inv_active [OF ci this] obtain c where c: "curve (m_contour m) ?i = Some c" by blast
    let ?ct = "update_curve (m_contour m) ?i (\<lambda>c. fst (startDrawing c p ?md))"
    have cti: "contour_inv ?ct" using ci by (intro update_curve_inv) simp_all
    show ?thesis
    proof (cases "snd (startDrawing c p ?md)")
      case ok: True
      then show ?thesis
        using True c cti \<open>?i \<noteq> -1\<close>
        by (simp add: startDraw_def with_curve_some model_inv_def set_needs_update_def)
    next
      case False
      obtain m' where "draw_new_curve (m\<lparr>m_contour := ?ct, isDrawing := False\<rparr>) p ?md = Inr m'"
        "model_inv m'" "isDrawing m'"
        using draw_new_curve_ok [of "m\<lparr>m_contour := ?ct, isDrawing := False\<rparr>"] cti by auto
      with True c False show ?thesis by (simp add: startDraw_def with_curve_some su)
    qed
  next
    case False
    obtain m' where "draw_new_curve (m\<lparr>isDrawing := False\<rparr>) p ?md = Inr m'" "model_inv m'" "isDrawing m'"
      using draw_new_curve_ok [of "m\<lparr>isDrawing := False\<rparr>"] ci by auto
    with False show ?thesis by (simp add: startDraw_def su)
  qed
qed

lemma active_curve:
  "model_inv m \<Longrightarrow> isDrawing m \<Longrightarrow> \<exists>c. curve (m_contour m) (idActiveCurve (m_contour m)) = Some c"
  by (intro contour_inv_active) (simp_all add: model_inv_def)

lemma updateDraw_ok:
  assumes inv: "model_inv m"
  shows "\<exists>m'. updateDraw m p = Inr m' \<and> model_inv m' \<and> isDrawing m' = isDrawing m"
proof (cases "isDrawing m")
  case True
  from active_curve [OF inv True] obtain c where c: "curve (m_contour m) (idActiveCurve (m_contour m)) = Some c" ..
  have "contour_inv (update_curve (m_contour m) (idActiveCurve (m_contour m)) (\<lambda>c. addPoint c p))"
    using inv by (intro update_curve_inv) (simp_all add: model_inv_def)
  with True c inv show ?thesis by (simp add: updateDraw_def with_curve_some model_inv_def)
next
  case False
  with inv show ?thesis by (simp add: updateDraw_def)
qed

lemma endDraw_ok:
  assumes inv: "model_inv m" and dr: "isDrawing m"
  shows "\<exists>m'. endDraw m p = Inr m' \<and> model_inv m' \<and> \<not> isDrawing m'"
proof -
  obtain m1 where u: "updateDraw m p = Inr m1" "model_inv m1" "isDrawing m1"
    using updateDraw_ok [OF inv] dr by auto
  from active_curve [OF u(2,3)] obtain c where c: "curve (m_contour m1) (idActiveCurve (m_contour m1)) = Some c" ..
  have "contour_inv (update_curve (m_contour m1) (idActiveCurve (m_contour m1)) endDrawing)"
    using u(2) by (intro update_curve_inv) (simp_all add: model_inv_def)
  with u c show ?thesis by (simp add: endDraw_def with_curve_some model_inv_def)
qed

lemma update_curve_points_inv:
  "model_inv m \<Longrightarrow> model_inv (m\<lparr>m_contour := update_curve (m_contour m) i (\<lambda>c. c\<lparr>curvePoints := g c\<rparr>)\<rparr>)"
  by (simp add: model_inv_def update_curve_inv)

lemma fit_inv:
  "model_inv m \<Longrightarrow> model_inv (fitSelectedToNearestVessel vecTo m r) \<and>
     isDrawing (fitSelectedToNearestVessel vecTo m r) = isDrawing m"
  "model_inv m \<Longrightarrow> model_inv (fitSelectedVesselWidth widthAt m r) \<and>
     isDrawing (fitSelectedVesselWidth widthAt m r) = isDrawing m"
  by (auto simp: fitSelectedToNearestVessel_def fitSelectedVesselWidth_def Let_def
      update_curve_points_inv split: option.split)

lemma idle_ops_inv:
  assumes "model_inv m" "\<not> isDrawing m"
  shows "model_inv (fst (model_select m q)) \<and> \<not> isDrawing (fst (model_select m q))"
    and "model_inv (deselect m) \<and> \<not> isDrawing (deselect m)"
    and "model_inv (deleteSelected m) \<and> \<not> isDrawing (deleteSelected m)"
    and "model_inv (m\<lparr>m_contour := contour_clear (m_contour m)\<rparr>)"
  using assms
  by (simp_all add: model_inv_def model_select_def deselect_def deleteSelected_def set_needs_update_def
      Let_def selectCurve_inv deselectCurve_inv removeCurve_inv contour_clear_inv)

section \<open>The view keeps the invariant\<close>

lemma view_inv_set:
  "view_inv (v\<lparr>view_drawing := d, view_model := m\<rparr>) \<longleftrightarrow> model_inv m \<and> d = isDrawing m"
  by (simp add: view_inv_def)

lemma model_inv_flags [simp]:
  "model_inv (m\<lparr>contourNeedsUpdate := b\<rparr>) = model_inv m"
  "model_inv (m\<lparr>activeCurveNeedsUpdate := b\<rparr>) = model_inv m"
  by (simp_all add: model_inv_def)

lemma view_step_ok:
  assumes inv: "view_inv v" and ok: "ev_ok (view_drawing v) ev"
  shows "\<exists>v'. view_step vecTo widthAt v ev = Inr v' \<and> view_inv v' \<and>
              view_drawing v' = drag_after (view_drawing v) ev"
proof -
  let ?m = "view_model v"
  have mi: "model_inv ?m" and dr: "view_drawing v = isDrawing ?m" using inv by (simp_all add: view_inv_def)
  show ?thesis
  proof (cases ev)
    case (MousePress left right p)
    show ?thesis
    proof (cases left)
      case True
      from startDraw_ok [OF mi] obtain m' where "startDraw ?m p = Inr m'" "model_inv m'" "isDrawing m'" by blast
      with MousePress True show ?thesis by (simp add: view_step_def lift_model_def view_inv_set)
    next
      case False
      with ok MousePress dr have "\<not> isDrawing ?m" by (cases "view_drawing v") simp_all
      with MousePress False mi dr show ?thesis
        using idle_ops_inv(1) [OF mi] by (simp add: view_step_def view_inv_def)
    qed
  next
    case (MouseMove p)
    from updateDraw_ok [OF mi] obtain m' where "updateDraw ?m p = Inr m'" "model_inv m'" "isDrawing m' = isDrawing ?m"
      by blast
    with MouseMove inv dr show ?thesis by (simp add: view_step_def lift_model_def view_inv_def)
  next
    case (MouseRelease p)
    show ?thesis
    proof (cases "view_drawing v")
      case True
      from endDraw_ok [OF mi] True dr obtain m' where "endDraw ?m p = Inr m'" "model_inv m'" "\<not> isDrawing m'"
        by auto
      with MouseRelease True show ?thesis by (simp add: view_step_def lift_model_def view_inv_set)
    next
      case False
      with MouseRelease inv dr show ?thesis by (simp add: view_step_def view_inv_def)
    qed
  next
    case MenuDeselect
    with ok dr have "\<not> isDrawing ?m" by (cases "view_drawing v") simp_all
    with MenuDeselect mi dr show ?thesis using idle_ops_inv(2) [OF mi] by (simp add: view_step_def view_inv_def)
  next
    case MenuDeleteSelected
    with ok dr have "\<not> isDrawing ?m" by (cases "view_drawing v") simp_all
    with MenuDeleteSelected mi dr show ?thesis using idle_ops_inv(3) [OF mi] by (simp add: view_step_def view_inv_def)
  next
    case MenuClearContour
    with ok dr have "\<not> isDrawing ?m" by (cases "view_drawing v") simp_all
    with MenuClearContour mi dr show ?thesis using idle_ops_inv(4) [OF mi] by (simp add: view_step_def view_inv_def model_inv_def Let_def)
  next
    case (MenuFitToVessel r)
    with mi dr show ?thesis using fit_inv(1) [OF mi] by (simp add: view_step_def view_inv_def)
  next
    case (MenuFitWidth r)
    with mi dr show ?thesis using fit_inv(2) [OF mi] by (simp add: view_step_def view_inv_def)
  qed
qed

lemma run_view_gesture:
  "view_inv v \<Longrightarrow> gesture_ok (view_drawing v) evs \<Longrightarrow>
   \<exists>v'. run_view vecTo widthAt v evs = Inr v' \<and> view_inv v' \<and> view_drawing v' = foldl drag_after (view_drawing v) evs"
proof (induction evs arbitrary: v)
  case Nil
  then show ?case by simp
next
  case (Cons ev evs)
  then have ok: "ev_ok (view_drawing v) ev" and rest: "gesture_ok (drag_after (view_drawing v) ev) evs"
    by simp_all
  from view_step_ok [OF Cons.prems(1) ok] obtain v' where
    "view_step vecTo widthAt v ev = Inr v'" "view_inv v'" "view_drawing v' = drag_after (view_drawing v) ev"
    by blast
  with Cons.IH [of v'] rest show ?case by simp
qed

section \<open>Claims on the model and the view\<close>

text \<open>
  C23: a user who does not use the contour menu or its shortcuts while dragging the left
  button never makes the model dereference a null curve: every such event sequence runs
  to the end, for every image filter, and keeps the invariant.
\<close>

theorem gesture_safe:
  "view_inv v \<Longrightarrow> gesture_ok (view_drawing v) evs \<Longrightarrow>
   \<exists>v'. run_view vecTo widthAt v evs = Inr v' \<and> view_inv v'"
  using run_view_gesture by blast

lemma View_new_inv: "view_inv (View_new s)"
  by (simp add: view_inv_def model_inv_def View_new_def Model_new_def Contour_new_inv)

theorem gesture_safe_witness:
  "view_inv (View_new 1) \<and>
   gesture_ok (view_drawing (View_new 1)) [MousePress True False (pt 0 0), MouseMove (pt 3 0),
      MouseRelease (pt 6 0), MenuDeleteSelected] \<and>
   (\<exists>v'. run_view (\<lambda>p r. 0) (\<lambda>p d r. 2) (View_new 1) [MousePress True False (pt 0 0), MouseMove (pt 3 0),
      MouseRelease (pt 6 0), MenuDeleteSelected] = Inr v')"
proof -
  have h: "view_inv (View_new 1)" by (rule View_new_inv)
  have g: "gesture_ok (view_drawing (View_new 1)) [MousePress True False (pt 0 0), MouseMove (pt 3 0),
      MouseRelease (pt 6 0), MenuDeleteSelected]" by (simp add: View_new_def Model_new_def)
  from gesture_safe [OF h g, of "\<lambda>p r. 0" "\<lambda>p d r. 2"] h g show ?thesis by blast
qed

text \<open>
  C24: deleting the active curve (the Delete shortcut) while the left button is still held
  makes the next mouse move dereference \<open>nullptr\<close>: from every view state with the view
  invariant in which a draw is in progress, \<open>Model::deleteSelected\<close> removes the active
  curve and deselects it but leaves \<open>m_isDrawing\<close> set, so \<open>Model::updateDraw\<close> calls
  \<open>curve(-1)->addPoint\<close>.
\<close>

theorem delete_during_drag_null:
  assumes inv: "view_inv v" and drag: "view_drawing v"
  shows "run_view vecTo widthAt v [MenuDeleteSelected, MouseMove p] = Inl NullCurve"
proof -
  let ?ct = "m_contour (view_model v)"
  have d: "isDrawing (view_model v)" "idActiveCurve ?ct \<noteq> -1" "contour_inv ?ct"
    using inv drag by (auto simp: view_inv_def model_inv_def)
  obtain c where "curve ?ct (idActiveCurve ?ct) = Some c" using contour_inv_active [OF d(3,2)] by blast
  then have a: "0 \<le> idActiveCurve ?ct" by (simp add: curve_def split: if_splits)
  show ?thesis
    using d(1) drag a
    by (simp add: view_step_def deleteSelected_def removeCurve_def deselectCurve_def set_needs_update_def
        updateDraw_def with_curve_def curve_def lift_model_def Let_def)
qed

theorem delete_during_drag_null_witness:
  "\<exists>v. view_step (\<lambda>p r. 0) (\<lambda>p d r. 2) (View_new 1) (MousePress True False (pt 0 0)) = Inr v \<and> view_inv v \<and>
       view_drawing v \<and> run_view (\<lambda>p r. 0) (\<lambda>p d r. 2) v [MenuDeleteSelected, MouseMove (pt 3 0)] = Inl NullCurve"
proof -
  have ok: "ev_ok (view_drawing (View_new 1)) (MousePress True False (pt 0 0))"
    by (simp add: View_new_def)
  obtain v where v: "view_step (\<lambda>p r. 0) (\<lambda>p d r. 2) (View_new 1) (MousePress True False (pt 0 0)) = Inr v" "view_inv v"
    "view_drawing v = drag_after (view_drawing (View_new 1)) (MousePress True False (pt 0 0))"
    using view_step_ok [OF View_new_inv ok] by blast
  have d: "view_drawing v" using v(3) by (simp add: View_new_def)
  show ?thesis using v d delete_during_drag_null [OF v(2) d, of "\<lambda>p r. 0" "\<lambda>p d r. 2" "pt 3 0"] by blast
qed

text \<open>
  C25: \<open>Model::select\<close> reports a hit when the click misses every curve but a curve was
  already active: \<open>Contour::selectCurve\<close> returns \<open>-1\<close> and keeps the old selection,
  and the model tests the active id, not the result.
\<close>

theorem select_miss_reports_hit:
  "snd (selectCurve (m_contour one_point_model) (Vec2D 100 100) 3) = -1 \<and>
   snd (model_select one_point_model (Vec2D 100 100)) = True"
proof -
  have far: "\<not> length_v (pos (pt 0 0) - Vec2D 100 100) < 3"
    by (simp add: pt_def mkCurvePoint_def length_v_def sqrt_less_iff_sq)
  then show ?thesis
    by (simp add: one_point_model_def Model_new_def selectCurve_def model_select_def select_def
        Curve_new_def set_needs_update_def Let_def)
qed

section \<open>Fitting\<close>

lemma fit_pass_radius [simp]: "map radius (fit_pass vecTo r pts) = map radius pts"
  by (induction pts) (simp_all add: fit_pass_def)

lemma fit_passes_radius [simp]: "map radius (fit_passes vecTo r n pts) = map radius pts"
  by (induction n arbitrary: pts) simp_all

lemma width_pass_pos [simp]: "map pos (width_pass widthAt r pts) = map pos pts"
  by (rule nth_equalityI) (simp_all add: width_pass_def Let_def)

lemma map_pos_set_radius [simp]: "map pos (xs[k := (xs ! k)\<lparr>radius := r\<rparr>]) = map pos xs"
proof (cases "k < length xs")
  case True
  then show ?thesis by (simp add: map_update) (metis list_update_id nth_map)
next
  case False
  then show ?thesis by (simp add: list_update_beyond)
qed

lemma fix_end_radii_pos [simp]: "map pos (fix_end_radii pts) = map pos pts"
  by (simp add: fix_end_radii_def Let_def)

lemma curve_update_points:
  "curve (update_curve ct i (\<lambda>c. c\<lparr>curvePoints := g c\<rparr>)) j =
     (if j = i then map_option (\<lambda>c. c\<lparr>curvePoints := g c\<rparr>) (curve ct j) else curve ct j)"
  by (rule curve_update_curve) simp

text \<open>
  C26: fitting the active curve to the nearest vessel moves points only: whatever the
  image filter returns, every curve keeps its number of points and every radius.
\<close>

theorem fit_keeps_radii:
  assumes "curve (m_contour m) j = Some c"
  shows "\<exists>c'. curve (m_contour (fitSelectedToNearestVessel vecTo m r)) j = Some c' \<and>
              map radius (curvePoints c') = map radius (curvePoints c)"
  using assms
  by (auto simp: fitSelectedToNearestVessel_def Let_def curve_update_points applySmoothing_conv
      smooth_ref_keeps_radius split: option.splits)

theorem fit_keeps_radii_witness:
  "curve (m_contour one_point_model) 0 = Some ((Curve_new 0)\<lparr>curvePoints := [pt 0 0]\<rparr>) \<and>
   (\<exists>c'. curve (m_contour (fitSelectedToNearestVessel (\<lambda>p r. Vec2D 1 0) one_point_model 1)) 0 = Some c' \<and>
         map radius (curvePoints c') = [1])"
proof -
  have h: "curve (m_contour one_point_model) 0 = Some ((Curve_new 0)\<lparr>curvePoints := [pt 0 0]\<rparr>)"
    by (simp add: one_point_model_def curve_def Curve_new_def)
  from fit_keeps_radii [OF h, of "\<lambda>p r. Vec2D 1 0" 1] h show ?thesis
    by (simp add: pt_def mkCurvePoint_def)
qed

text \<open>
  Fitting the widths of the active curve changes radii only: whatever the width
  detector returns, every curve keeps its points' positions.
\<close>

theorem fitWidth_keeps_positions:
  assumes "curve (m_contour m) j = Some c"
  shows "\<exists>c'. curve (m_contour (fitSelectedVesselWidth widthAt m r)) j = Some c' \<and>
              map pos (curvePoints c') = map pos (curvePoints c)"
  using assms
  by (auto simp: fitSelectedVesselWidth_def Let_def curve_update_points applySmoothing_conv
      smooth_ref_keeps_pos split: option.splits)

theorem fitWidth_keeps_positions_witness:
  "curve (m_contour one_point_model) 0 = Some ((Curve_new 0)\<lparr>curvePoints := [pt 0 0]\<rparr>) \<and>
   (\<exists>c'. curve (m_contour (fitSelectedVesselWidth (\<lambda>p d r. 4) one_point_model 1)) 0 = Some c' \<and>
         map pos (curvePoints c') = [Vec2D 0 0])"
proof -
  have h: "curve (m_contour one_point_model) 0 = Some ((Curve_new 0)\<lparr>curvePoints := [pt 0 0]\<rparr>)"
    by (simp add: one_point_model_def curve_def Curve_new_def)
  from fitWidth_keeps_positions [OF h, of "\<lambda>p d r. 4" 1] h show ?thesis
    by (simp add: pt_def mkCurvePoint_def)
qed

text \<open>
  Without a valid image or without an active curve both fitting commands leave the
  model unchanged (the precondition failures of the specification are silent no-ops).
\<close>

theorem fit_noop:
  "\<not> imageValid m \<or> curve (m_contour m) (idActiveCurve (m_contour m)) = None \<Longrightarrow>
   fitSelectedToNearestVessel vecTo m r = m \<and> fitSelectedVesselWidth widthAt m r = m"
  by (auto simp: fitSelectedToNearestVessel_def fitSelectedVesselWidth_def Let_def)

theorem fit_noop_witness:
  "\<not> imageValid (Model_new 1) \<and> fitSelectedToNearestVessel (\<lambda>p r. Vec2D 1 0) (Model_new 1) 1 = Model_new 1"
proof -
  have h: "\<not> imageValid (Model_new 1)" by (simp add: Model_new_def)
  from fit_noop [OF disjI1 [OF h], of "\<lambda>p r. Vec2D 1 0" 1 "\<lambda>p d r. 4"] h show ?thesis by simp
qed

text \<open>
  The end-point correction of \<open>fitSelectedVesselWidth\<close> gives the last point the
  radius of its predecessor and the first point that of its successor, and moves nothing;
  on a two-point curve both end up with the width detected at the first point.
\<close>

theorem fix_end_radii_spec:
  assumes "2 \<le> length pts"
  shows "radius (last (fix_end_radii pts)) = radius (pts ! (length pts - 2)) \<and>
         radius (hd (fix_end_radii pts)) = (if length pts = 2 then radius (pts ! 0) else radius (pts ! 1)) \<and>
         map pos (fix_end_radii pts) = map pos pts"
proof -
  obtain a b rest where pts: "pts = a # b # rest" using assms by (cases pts rule: remdups_adj.cases) auto
  show ?thesis
  proof (cases rest rule: rev_cases)
    case Nil
    then show ?thesis by (simp add: pts fix_end_radii_def)
  next
    case (snoc ys z)
    then show ?thesis
      by (simp add: pts fix_end_radii_def last_conv_nth nth_append nth_list_update)
  qed
qed

theorem fix_end_radii_spec_witness:
  "2 \<le> length [cp 0 0 1, cp 1 0 2, cp 2 0 3] \<and>
   radius (last (fix_end_radii [cp 0 0 1, cp 1 0 2, cp 2 0 3])) = 2 \<and>
   radius (hd (fix_end_radii [cp 0 0 1, cp 1 0 2, cp 2 0 3])) = 2"
proof -
  have h: "2 \<le> length [cp 0 0 1, cp 1 0 2, cp 2 0 3]" by simp
  from fix_end_radii_spec [OF h] show ?thesis by (simp add: cp_def mkCurvePoint_def)
qed

end
