(* ===== verification/ImageFilterer.thy ===== *)
theory ImageFilterer
  imports Vec
begin

text \<open>
  The image and the vessel filters: \<open>Image\<close> (src/Source/Model/Image.h, Image.cpp) as far
  as the filters read it, and \<open>ImageFilterer\<close> (src/Source/Model/ImageFilterer.cpp):
  bilinear sampling \<open>imageValueAtP\<close>, the centreline attraction
  \<open>getVecToClosestVessel\<close> and the width detector \<open>getWidthAtP\<close>. The width detector
  keeps its derivative-of-Gaussian kernel in function-static variables between calls;
  here they are an explicit cache record that the function takes and returns. Pixel data
  is the byte buffer \<open>m_data\<close>, a 16-bit pixel being two bytes in little-endian order.
  The loops over the filter window are folds over the index lists in the code's order;
  \<open>exp\<close> and \<open>sqrt\<close> are the real functions.
\<close>

section \<open>Image\<close>

text \<open>\<open>Image::DataFormat\<close>; \<open>NotSupported\<close> is renamed, its name being taken by the contrast type.\<close>

datatype DataFormat = UChar | UShort | FormatNotSupported

record Image =
  img_width :: int
  img_height :: int
  img_format :: DataFormat
  img_data :: "char list option"

text \<open>\<open>Image::isValid\<close>: the data pointer is not \<open>nullptr\<close>.\<close>

definition isValid :: "Image \<Rightarrow> bool" where
  "isValid img = (img_data img \<noteq> None)"

text \<open>
  The value of pixel \<open>k\<close> of the buffer, read as \<open>unsigned short\<close> for \<open>UShort\<close> and as
  \<open>unsigned char\<close> otherwise (the \<open>default\<close> branch of the switch).
\<close>

definition pixel :: "Image \<Rightarrow> int \<Rightarrow> real" where
  "pixel img k =
     (let d = the (img_data img); b = (\<lambda>n. real (of_char (d ! n) :: nat)) in
      case img_format img of
        UShort \<Rightarrow> b (2 * nat k) + 256 * b (2 * nat k + 1)
      | _ \<Rightarrow> b (nat k))"

section \<open>Bilinear sampling\<close>

text \<open>
  \<open>ImageFilterer::imageValueAtP\<close>: the four neighbours, each index clamped to the image
  in the order of the code, and the bilinear weights taken from the clamped lower
  indices.
\<close>

definition imageValueAtP :: "Image \<Rightarrow> vec2 \<Rightarrow> real" where
  "imageValueAtP img p =
     (let x = vx p; y = vy p; w = img_width img; h = img_height img;
          i0 = c_trunc x; j0 = c_trunc y; i1 = c_trunc (x + 1); j1 = c_trunc (y + 1);
          i0 = (if i0 < 0 then 0 else i0); i1 = (if i1 < 0 then 0 else i1);
          i0 = (if i0 > w - 1 then w - 1 else i0); i1 = (if i1 > w - 1 then w - 1 else i1);
          j0 = (if j0 < 0 then 0 else j0); j1 = (if j1 < 0 then 0 else j1);
          j0 = (if j0 > h - 1 then h - 1 else j0); j1 = (if j1 > h - 1 then h - 1 else j1);
          d0 = pixel img (i0 + j0 * w); d1 = pixel img (i1 + j0 * w);
          d2 = pixel img (i0 + j1 * w); d3 = pixel img (i1 + j1 * w);
          s = x - real_of_int i0; t = y - real_of_int j0
      in (1 - s) * (1 - t) * d0 + s * (1 - t) * d1 + (1 - s) * t * d2 + s * t * d3)"

section \<open>Centreline attraction\<close>

datatype VesselContrastType = DarkOnLight | LightOnDark | NotSupported

text \<open>The standard deviation bucket shared by both filters.\<close>

definition sigma_of :: "real \<Rightarrow> real" where
  "sigma_of expectedRadius = (if expectedRadius \<le> 0.5 then 0.5 else if expectedRadius \<le> 1.5 then 1 else 1.5)"

text \<open>The accumulators \<open>m00, m10, m01, gradient, min\<close> of the window loop.\<close>

record Moments =
  m00 :: real
  m10 :: real
  m01 :: real
  gradient :: vec2
  mmin :: real

definition moment_step :: "Image \<Rightarrow> vec2 \<Rightarrow> real \<Rightarrow> real \<Rightarrow> Moments \<Rightarrow> int \<times> int \<Rightarrow> Moments" where
  "moment_step img position filterScale sigmaInv acc iijj =
     (let (ii, jj) = iijj; fx = real_of_int ii; fy = real_of_int jj;
          scaledExpXY = filterScale * exp (-0.5 * (fx * fx + fy * fy));
          imgValue = imageValueAtP img (position + Vec2D fx fy)
      in \<lparr>m00 = m00 acc + imgValue, m10 = m10 acc + - imgValue * fx, m01 = m01 acc + - imgValue * fy,
          gradient = gradient acc + (imgValue * scaledExpXY * sigmaInv) *\<^sub>R Vec2D fx fy,
          mmin = (if imgValue < mmin acc then imgValue else mmin acc)\<rparr>)"

text \<open>The window offsets, \<open>jj\<close> in the outer loop and \<open>ii\<close> in the inner.\<close>

definition window_offsets :: "int \<Rightarrow> (int \<times> int) list" where
  "window_offsets r = concat (map (\<lambda>jj. map (\<lambda>ii. (ii, jj)) [-r..r]) [-r..r])"

definition getVecToClosestVessel :: "Image \<Rightarrow> VesselContrastType \<Rightarrow> vec2 \<Rightarrow> real \<Rightarrow> vec2" where
  "getVecToClosestVessel img ty position expectedRadius =
     (let sigma = sigma_of expectedRadius;
          filterRadius = c_trunc (3 * sigma);
          filterWidth = 2 * filterRadius + 1;
          filterSize = filterWidth * filterWidth;
          w = img_width img; h = img_height img;
          i = c_trunc (vx position); j = c_trunc (vy position)
      in if i < filterRadius \<or> i > w - filterRadius \<or> j < filterRadius \<or> j > h - filterRadius then 0
         else (let sigmaInv = 1 / sigma;
                   filterScale = 1 / (sigma * sqrt (2 * 3.14159265359));
                   acc0 = \<lparr>m00 = 0, m10 = 0, m01 = 0, gradient = 0, mmin = imageValueAtP img position\<rparr>;
                   acc = foldl (moment_step img position filterScale sigmaInv) acc0 (window_offsets filterRadius);
                   correctedMean = m00 acc - mmin acc * real_of_int filterSize;
                   com = (if correctedMean > 0 then Vec2D (m10 acc / correctedMean) (m01 acc / correctedMean)
                          else 0);
                   g = normalized (gradient acc);
                   moveMag = dotProduct com g
               in if ty = DarkOnLight then moveMag *\<^sub>R g else (- moveMag) *\<^sub>R g))"

section \<open>Width detection\<close>

text \<open>
  The function-static variables of \<open>getWidthAtP\<close>: \<open>sigma\<close>, \<open>filterRadius\<close>,
  \<open>numFilterValues\<close> and the array \<open>filterValue[200]\<close>, all zero initially
  (\<open>samplesPerPixel\<close> is the constant 10).
\<close>

record WidthCache =
  wc_sigma :: real
  wc_filterRadius :: int
  wc_numFilterValues :: int
  wc_filterValue :: "real list"

definition WidthCache_init :: WidthCache where
  "WidthCache_init = \<lparr>wc_sigma = 0, wc_filterRadius = 0, wc_numFilterValues = 0,
                      wc_filterValue = replicate 200 0\<rparr>"

definition samplesPerPixel :: real where
  "samplesPerPixel = 10"

text \<open>One value of the derivative-of-Gaussian kernel.\<close>

definition kernel_value :: "real \<Rightarrow> int \<Rightarrow> int \<Rightarrow> real" where
  "kernel_value sigma numFilterValues i =
     (let x = real_of_int (i - numFilterValues div 2) * (1 / samplesPerPixel);
          scale = - x / (sigma * sigma * sigma * sqrt (2 * 3.1415926))
      in scale * exp (- (x * x) / (2 * sigma * sigma)))"

text \<open>
  The recomputation loop: write \<open>filterValue[i]\<close> for \<open>i < numFilterValues\<close>; a write
  past the 200 entries of the array is \<open>None\<close>.
\<close>

definition fill_kernel :: "real \<Rightarrow> int \<Rightarrow> real list \<Rightarrow> real list option" where
  "fill_kernel sigma numFilterValues fv =
     foldl (\<lambda>acc i. case acc of None \<Rightarrow> None
                   | Some a \<Rightarrow> if i < length a then Some (a[i := kernel_value sigma numFilterValues (int i)]) else None)
       (Some fv) [0..<nat numFilterValues]"

definition update_cache :: "WidthCache \<Rightarrow> real \<Rightarrow> WidthCache option" where
  "update_cache cache expectedRadius =
     (let newSigma = sigma_of expectedRadius in
      if wc_sigma cache \<noteq> newSigma then
        (let filterRadius = c_trunc (2 * newSigma + 0.5);
             numFilterValues = c_trunc (2 * real_of_int filterRadius * samplesPerPixel + 1)
         in case fill_kernel newSigma numFilterValues (wc_filterValue cache) of
              None \<Rightarrow> None
            | Some fv \<Rightarrow> Some \<lparr>wc_sigma = newSigma, wc_filterRadius = filterRadius,
                              wc_numFilterValues = numFilterValues, wc_filterValue = fv\<rparr>)
      else Some cache)"

text \<open>The samples along the normal of the curve, \<open>samples[i]\<close>.\<close>

definition width_samples :: "Image \<Rightarrow> vec2 \<Rightarrow> vec2 \<Rightarrow> int \<Rightarrow> real list" where
  "width_samples img curvePoint curveDir numSamplePoints =
     (let offsetVector = Vec2D (- vy curveDir) (vx curveDir)
      in map (\<lambda>i. imageValueAtP img
                (curvePoint + (real_of_int (int i - numSamplePoints div 2) / samplesPerPixel) *\<^sub>R offsetVector))
           [0..<nat numSamplePoints])"

text \<open>\<open>filtered[i]\<close>: the kernel applied around sample \<open>i\<close>, the samples clamped at both ends.\<close>

definition filtered_at :: "real list \<Rightarrow> int \<Rightarrow> real list \<Rightarrow> nat \<Rightarrow> real" where
  "filtered_at fv numFilterValues samples i =
     (let n = int (length samples); c = numFilterValues div 2 in
      foldl (\<lambda>acc j. let idxNeighbor = int i + (int j - c) in
                     if idxNeighbor < 0 then acc + fv ! j * samples ! 0
                     else if idxNeighbor \<ge> n then acc + fv ! j * samples ! nat (n - 1)
                     else acc + fv ! j * samples ! nat idxNeighbor)
        0 [0..<nat numFilterValues])"

text \<open>The edge search: the first index of the strict minimum below 0 and of the strict maximum above 0.\<close>

definition edge_step :: "real \<times> real \<times> real \<times> real \<Rightarrow> nat \<times> real \<Rightarrow> real \<times> real \<times> real \<times> real" where
  "edge_step acc ifv =
     (let (idxMinEdge, idxMaxEdge, mn, mx) = acc; (i, f) = ifv;
          (idxMinEdge, mn) = (if f < mn then (real i, f) else (idxMinEdge, mn));
          (idxMaxEdge, mx) = (if f > mx then (real i, f) else (idxMaxEdge, mx))
      in (idxMinEdge, idxMaxEdge, mn, mx))"

definition width_from_kernel :: "Image \<Rightarrow> real list \<Rightarrow> int \<Rightarrow> int \<Rightarrow> vec2 \<Rightarrow> vec2 \<Rightarrow> real \<Rightarrow> real option" where
  "width_from_kernel img fv numFilterValues filterRadius curvePoint curveDir expectedRadius =
     (let samplesRadius = c_trunc ((expectedRadius + real_of_int filterRadius) * samplesPerPixel + 0.5);
          numSamplePoints = 2 * samplesRadius + 1
      in if numSamplePoints < 0 then None
         else (let samples = width_samples img curvePoint curveDir numSamplePoints;
                   filtered = map (filtered_at fv numFilterValues samples) [0..<nat numSamplePoints];
                   (idxMinEdge, idxMaxEdge, _, _) = foldl edge_step (-1, -1, 0, 0) (zip [0..<length filtered] filtered)
               in Some (\<bar>idxMaxEdge - idxMinEdge\<bar> / samplesPerPixel)))"

text \<open>
  \<open>ImageFilterer::getWidthAtP\<close>: refresh the cache if the sigma bucket changed, then
  sample, filter and measure. \<open>None\<close> is a write past the kernel array or a negative
  array size (\<open>new float[n]\<close> with \<open>n < 0\<close> throws).
\<close>

definition getWidthAtP :: "Image \<Rightarrow> WidthCache \<Rightarrow> vec2 \<Rightarrow> vec2 \<Rightarrow> real \<Rightarrow> (WidthCache \<times> real) option" where
  "getWidthAtP img cache curvePoint curveDir expectedRadius =
     (case update_cache cache expectedRadius of
        None \<Rightarrow> None
      | Some c \<Rightarrow>
          (case width_from_kernel img (wc_filterValue c) (wc_numFilterValues c) (wc_filterRadius c)
                  curvePoint curveDir expectedRadius of
             None \<Rightarrow> None
           | Some w \<Rightarrow> Some (c, w)))"

text \<open>A 2 by 2 grey image with pixel values 10, 20, 30, 40.\<close>

definition img4 :: Image where
  "img4 = \<lparr>img_width = 2, img_height = 2, img_format = UChar,
           img_data = Some [char_of (10::nat), char_of (20::nat), char_of (30::nat), char_of (40::nat)]\<rparr>"

text \<open>An 8 by 8 image of grey value 50.\<close>

definition img_flat :: Image where
  "img_flat = \<lparr>img_width = 8, img_height = 8, img_format = UChar, img_data = Some (replicate 64 (char_of (50::nat)))\<rparr>"

text \<open>
  The kernel that the recomputation writes, and the coherence of the cache: either the
  initial state or the kernel of its sigma bucket, with its radius and size.
\<close>

definition dog_kernel :: "real \<Rightarrow> int \<Rightarrow> real list" where
  "dog_kernel sigma numFilterValues = map (\<lambda>i. kernel_value sigma numFilterValues (int i)) [0..<nat numFilterValues]"

definition cache_ok :: "WidthCache \<Rightarrow> bool" where
  "cache_ok c \<longleftrightarrow> length (wc_filterValue c) = 200 \<and>
     (wc_sigma c = 0 \<or>
      (wc_sigma c \<in> {0.5, 1, 1.5} \<and> wc_filterRadius c = c_trunc (2 * wc_sigma c + 0.5) \<and>
       wc_numFilterValues c = c_trunc (2 * real_of_int (wc_filterRadius c) * samplesPerPixel + 1) \<and>
       take (nat (wc_numFilterValues c)) (wc_filterValue c) = dog_kernel (wc_sigma c) (wc_numFilterValues c)))"

text \<open>The width with a kernel computed afresh for the call's sigma bucket.\<close>

definition width_ref :: "Image \<Rightarrow> vec2 \<Rightarrow> vec2 \<Rightarrow> real \<Rightarrow> real option" where
  "width_ref img curvePoint curveDir expectedRadius =
     (let sigma = sigma_of expectedRadius;
          filterRadius = c_trunc (2 * sigma + 0.5);
          numFilterValues = c_trunc (2 * real_of_int filterRadius * samplesPerPixel + 1)
      in width_from_kernel img (dog_kernel sigma numFilterValues) numFilterValues filterRadius
           curvePoint curveDir expectedRadius)"

section \<open>Bilinear sampling stays within the pixel values\<close>

text \<open>
  Along each axis the two clamped neighbours are either the same pixel or adjacent with
  the fractional offset in \<open>[0, 1]\<close>: truncation and clamping never extrapolate.
\<close>

definition clamp_lo_hi :: "int \<Rightarrow> int \<Rightarrow> int" where
  "clamp_lo_hi w i = (let i = (if i < 0 then 0 else i) in if i > w - 1 then w - 1 else i)"

lemma clamp_lo_hi_range: "1 \<le> w \<Longrightarrow> 0 \<le> clamp_lo_hi w i \<and> clamp_lo_hi w i \<le> w - 1"
  by (simp add: clamp_lo_hi_def Let_def)

lemma axis_cases:
  assumes "1 \<le> w"
  shows "clamp_lo_hi w (c_trunc (x + 1)) = clamp_lo_hi w (c_trunc x) \<or>
         (clamp_lo_hi w (c_trunc (x + 1)) = clamp_lo_hi w (c_trunc x) + 1 \<and>
          0 \<le> x - real_of_int (clamp_lo_hi w (c_trunc x)) \<and> x - real_of_int (clamp_lo_hi w (c_trunc x)) \<le> 1)"
proof (cases "0 \<le> x")
  case True
  then have t0: "c_trunc x = \<lfloor>x\<rfloor>" and t1: "c_trunc (x + 1) = \<lfloor>x\<rfloor> + 1" by simp_all
  have f: "0 \<le> \<lfloor>x\<rfloor>" "real_of_int \<lfloor>x\<rfloor> \<le> x" "x < real_of_int \<lfloor>x\<rfloor> + 1"
    using True by linarith+
  show ?thesis
    using f assms by (auto simp: t0 t1 clamp_lo_hi_def Let_def; linarith)
next
  case False
  then have "c_trunc x \<le> 0" by simp
  moreover have "c_trunc (x + 1) \<le> 0"
  proof (cases "0 \<le> x + 1")
    case True
    with False show ?thesis by simp linarith
  next
    case False
    then have "\<lceil>x + 1\<rceil> \<le> 0" by (intro ceiling_le) simp
    with False show ?thesis by simp
  qed
  ultimately show ?thesis using assms by (simp add: clamp_lo_hi_def Let_def)
qed

lemma lerp_bound:
  fixes s a b lo hi :: real
  assumes "a = b \<or> (0 \<le> s \<and> s \<le> 1)" "lo \<le> a" "a \<le> hi" "lo \<le> b" "b \<le> hi"
  shows "lo \<le> (1 - s) * a + s * b \<and> (1 - s) * a + s * b \<le> hi"
  using assms(1)
proof
  assume "a = b"
  with assms show ?thesis by (simp add: algebra_simps)
next
  assume "0 \<le> s \<and> s \<le> 1"
  with assms(2-5) show ?thesis using convex_between [of s lo a hi b] by simp
qed

lemma imageValueAtP_alt:
  "imageValueAtP img p =
     (let w = img_width img; h = img_height img;
          i0 = clamp_lo_hi w (c_trunc (vx p)); i1 = clamp_lo_hi w (c_trunc (vx p + 1));
          j0 = clamp_lo_hi h (c_trunc (vy p)); j1 = clamp_lo_hi h (c_trunc (vy p + 1));
          s = vx p - real_of_int i0; t = vy p - real_of_int j0
      in (1 - t) * ((1 - s) * pixel img (i0 + j0 * w) + s * pixel img (i1 + j0 * w)) +
         t * ((1 - s) * pixel img (i0 + j1 * w) + s * pixel img (i1 + j1 * w)))"
  by (simp add: imageValueAtP_def clamp_lo_hi_def Let_def algebra_simps)

lemma pixel_index_range:
  fixes w h i j :: int
  shows "1 \<le> w \<Longrightarrow> 0 \<le> i \<Longrightarrow> i \<le> w - 1 \<Longrightarrow> 0 \<le> j \<Longrightarrow> j \<le> h - 1 \<Longrightarrow> 0 \<le> i + j * w \<and> i + j * w < w * h"
proof -
  assume a: "1 \<le> w" "0 \<le> i" "i \<le> w - 1" "0 \<le> j" "j \<le> h - 1"
  have "j * w \<le> (h - 1) * w" using a by (simp add: mult_right_mono)
  with a show ?thesis by (simp add: algebra_simps)
qed

lemma lerp_axis:
  assumes w: "1 \<le> w" and a: "lo \<le> a" "a \<le> hi" and b: "lo \<le> b" "b \<le> hi"
    and eq: "clamp_lo_hi w (c_trunc (x + 1)) = clamp_lo_hi w (c_trunc x) \<Longrightarrow> a = b"
  shows "lo \<le> (1 - (x - real_of_int (clamp_lo_hi w (c_trunc x)))) * a + (x - real_of_int (clamp_lo_hi w (c_trunc x))) * b \<and>
         (1 - (x - real_of_int (clamp_lo_hi w (c_trunc x)))) * a + (x - real_of_int (clamp_lo_hi w (c_trunc x))) * b \<le> hi"
  using axis_cases [OF w, of x] eq by (intro lerp_bound a b) auto

text \<open>
  C30: when every pixel value of a non-empty image lies in \<open>[lo, hi]\<close>, so does the
  sampled value at any point, inside the image or outside it: the sampler clamps at the
  edges and never extrapolates.
\<close>

theorem imageValueAtP_bounds:
  assumes w: "1 \<le> img_width img" and h: "1 \<le> img_height img"
    and px: "\<forall>k. 0 \<le> k \<and> k < img_width img * img_height img \<longrightarrow> lo \<le> pixel img k \<and> pixel img k \<le> hi"
  shows "lo \<le> imageValueAtP img p \<and> imageValueAtP img p \<le> hi"
proof -
  let ?w = "img_width img" and ?h = "img_height img"
  let ?i0 = "clamp_lo_hi ?w (c_trunc (vx p))" and ?i1 = "clamp_lo_hi ?w (c_trunc (vx p + 1))"
  let ?j0 = "clamp_lo_hi ?h (c_trunc (vy p))" and ?j1 = "clamp_lo_hi ?h (c_trunc (vy p + 1))"
  have pb: "lo \<le> pixel img (i + j * ?w) \<and> pixel img (i + j * ?w) \<le> hi"
    if "0 \<le> i" "i \<le> ?w - 1" "0 \<le> j" "j \<le> ?h - 1" for i j
    using px pixel_index_range [OF w that] by blast
  have ri: "0 \<le> ?i0" "?i0 \<le> ?w - 1" "0 \<le> ?i1" "?i1 \<le> ?w - 1"
    using clamp_lo_hi_range [OF w] by blast+
  have rj: "0 \<le> ?j0" "?j0 \<le> ?h - 1" "0 \<le> ?j1" "?j1 \<le> ?h - 1"
    using clamp_lo_hi_range [OF h] by blast+
  let ?row = "\<lambda>j. (1 - (vx p - real_of_int ?i0)) * pixel img (?i0 + j * ?w) + (vx p - real_of_int ?i0) * pixel img (?i1 + j * ?w)"
  have row: "lo \<le> ?row j \<and> ?row j \<le> hi" if "0 \<le> j" "j \<le> ?h - 1" for j
    using pb [OF ri(1,2) that] pb [OF ri(3,4) that] by (intro lerp_axis [OF w]) auto
  have "lo \<le> (1 - (vy p - real_of_int ?j0)) * ?row ?j0 + (vy p - real_of_int ?j0) * ?row ?j1 \<and>
        (1 - (vy p - real_of_int ?j0)) * ?row ?j0 + (vy p - real_of_int ?j0) * ?row ?j1 \<le> hi"
    using row [OF rj(1,2)] row [OF rj(3,4)] by (intro lerp_axis [OF h]) auto
  then show ?thesis by (simp add: imageValueAtP_alt Let_def)
qed

theorem imageValueAtP_bounds_witness:
  "10 \<le> imageValueAtP img4 (Vec2D 7 (-3)) \<and> imageValueAtP img4 (Vec2D 7 (-3)) \<le> 40"
proof -
  have w: "1 \<le> img_width img4" and h: "1 \<le> img_height img4" by (simp_all add: img4_def)
  have px: "\<forall>k. 0 \<le> k \<and> k < img_width img4 * img_height img4 \<longrightarrow> 10 \<le> pixel img4 k \<and> pixel img4 k \<le> 40"
  proof (intro allI impI)
    fix k :: int
    assume "0 \<le> k \<and> k < img_width img4 * img_height img4"
    then have "k = 0 \<or> k = 1 \<or> k = 2 \<or> k = 3" by (simp add: img4_def) arith
    then show "10 \<le> pixel img4 k \<and> pixel img4 k \<le> 40"
      by (auto simp: pixel_def img4_def)
  qed
  show ?thesis by (rule imageValueAtP_bounds [OF w h px])
qed

lemma imageValueAtP_const:
  assumes "1 \<le> img_width img" "1 \<le> img_height img"
    and "\<forall>k. 0 \<le> k \<and> k < img_width img * img_height img \<longrightarrow> pixel img k = c"
  shows "imageValueAtP img p = c"
  using imageValueAtP_bounds [of img c c p] assms by auto

section \<open>Centreline attraction on a flat patch\<close>

lemma moments_flat:
  assumes "\<forall>q. imageValueAtP img q = c" "mmin acc = c"
  shows "m00 (foldl (moment_step img position fs si) acc L) = m00 acc + c * real (length L) \<and>
         mmin (foldl (moment_step img position fs si) acc L) = c"
  using assms(2)
proof (induction L arbitrary: acc)
  case Nil
  then show ?case by simp
next
  case (Cons a L)
  have "m00 (moment_step img position fs si acc a) = m00 acc + c \<and> mmin (moment_step img position fs si acc a) = c"
    using assms(1) Cons.prems by (simp add: moment_step_def Let_def split: prod.split)
  with Cons.IH [of "moment_step img position fs si acc a"] show ?case by (simp add: algebra_simps)
qed

lemma length_window_offsets: "0 \<le> r \<Longrightarrow> int (length (window_offsets r)) = (2 * r + 1) * (2 * r + 1)"
proof -
  assume r: "0 \<le> r"
  have "length (window_offsets r) = nat (2 * r + 1) * nat (2 * r + 1)"
    by (simp add: window_offsets_def length_concat comp_def sum_list_triv)
  with r show ?thesis by simp
qed

lemma filterRadius_pos: "1 \<le> c_trunc (3 * sigma_of r)"
  by (simp add: sigma_of_def)

text \<open>
  On an image of one grey value the centreline attraction is the zero vector, at
  every point and for every radius and contrast type: the bias-corrected mass of the
  patch is zero, so the centre of mass is taken at the window centre.
\<close>

theorem getVecToClosestVessel_flat:
  assumes flat: "\<forall>k. 0 \<le> k \<and> k < img_width img * img_height img \<longrightarrow> pixel img k = c"
  shows "getVecToClosestVessel img ty position r = 0"
proof -
  let ?R = "c_trunc (3 * sigma_of r)"
  have R: "1 \<le> ?R" by (rule filterRadius_pos)
  show ?thesis
  proof (cases "c_trunc (vx position) < ?R \<or> c_trunc (vx position) > img_width img - ?R \<or>
                c_trunc (vy position) < ?R \<or> c_trunc (vy position) > img_height img - ?R")
    case True
    then show ?thesis by (simp add: getVecToClosestVessel_def Let_def)
  next
    case False
    with R have wh: "1 \<le> img_width img" "1 \<le> img_height img" by linarith+
    have const: "\<forall>q. imageValueAtP img q = c" using imageValueAtP_const [OF wh flat] by blast
    let ?acc0 = "\<lparr>m00 = 0, m10 = 0, m01 = 0, gradient = 0, mmin = imageValueAtP img position\<rparr>"
    have mm: "m00 (foldl (moment_step img position fs si) ?acc0 (window_offsets ?R)) = c * real (length (window_offsets ?R)) \<and>
              mmin (foldl (moment_step img position fs si) ?acc0 (window_offsets ?R)) = c" for fs si
      using moments_flat [OF const, of ?acc0] const by simp
    have len: "real (length (window_offsets ?R)) = real_of_int ((2 * ?R + 1) * (2 * ?R + 1))"
      using length_window_offsets [of ?R] R by (metis of_int_of_nat_eq zero_le_one order_trans)
    show ?thesis using False mm len by (simp add: getVecToClosestVessel_def Let_def)
  qed
qed

lemma img_flat_pixels:
  "\<forall>k. 0 \<le> k \<and> k < img_width img_flat * img_height img_flat \<longrightarrow> pixel img_flat k = 50"
proof (intro allI impI)
  fix k :: int
  assume "0 \<le> k \<and> k < img_width img_flat * img_height img_flat"
  then have "nat k < 64" by (simp add: img_flat_def) arith
  then show "pixel img_flat k = 50" by (simp add: img_flat_def pixel_def)
qed

theorem getVecToClosestVessel_flat_witness:
  "getVecToClosestVessel img_flat DarkOnLight (Vec2D 4 4) 1 = 0"
  by (rule getVecToClosestVessel_flat [OF img_flat_pixels])

section \<open>The kernel cache of the width detector\<close>

lemma fill_kernel_prefix:
  "m \<le> length fv \<Longrightarrow>
   foldl (\<lambda>acc i. case acc of None \<Rightarrow> None
                  | Some a \<Rightarrow> if i < length a then Some (a[i := kernel_value sigma n (int i)]) else None)
     (Some fv) [0..<m] = Some (map (\<lambda>i. kernel_value sigma n (int i)) [0..<m] @ drop m fv)"
proof (induction m)
  case 0
  then show ?case by simp
next
  case (Suc m)
  then have m: "m < length fv" by simp
  have "(map (\<lambda>i. kernel_value sigma n (int i)) [0..<m] @ drop m fv)[m := kernel_value sigma n (int m)]
        = map (\<lambda>i. kernel_value sigma n (int i)) [0..<Suc m] @ drop (Suc m) fv"
    using m by (simp add: list_update_append Cons_nth_drop_Suc [symmetric])
  with Suc m show ?case by simp
qed

lemma fill_kernel_ok:
  assumes "length fv = 200" "0 \<le> n" "n \<le> 200"
  shows "\<exists>fv'. fill_kernel sigma n fv = Some fv' \<and> length fv' = 200 \<and> take (nat n) fv' = dog_kernel sigma n"
  using fill_kernel_prefix [of "nat n" fv sigma n] assms by (simp add: fill_kernel_def dog_kernel_def)

lemma kernel_size_cases:
  "sigma_of r \<in> {0.5, 1, 1.5}"
  "c_trunc (2 * sigma_of r + 0.5) \<in> {1, 2, 3}"
  "c_trunc (2 * real_of_int (c_trunc (2 * sigma_of r + 0.5)) * samplesPerPixel + 1) \<in> {21, 41, 61}"
  by (simp_all add: sigma_of_def samplesPerPixel_def)

lemma numFilterValues_eq: "c_trunc (2 * real_of_int R * samplesPerPixel + 1) = 20 * R + 1"
proof -
  have e: "2 * real_of_int R * samplesPerPixel + 1 = real_of_int (20 * R + 1)"
    by (simp add: samplesPerPixel_def)
  show ?thesis by (simp only: e c_trunc_def floor_of_int ceiling_of_int if_cancel)
qed

lemma update_cache_coherent:
  assumes ok: "cache_ok c"
  shows "\<exists>c'. update_cache c r = Some c' \<and> cache_ok c' \<and> wc_sigma c' = sigma_of r"
proof (cases "wc_sigma c = sigma_of r")
  case True
  with ok show ?thesis by (simp add: update_cache_def)
next
  case False
  let ?R = "c_trunc (2 * sigma_of r + 0.5)"
  let ?n = "c_trunc (2 * real_of_int ?R * samplesPerPixel + 1)"
  have n: "?n \<in> {21, 41, 61}" "sigma_of r \<in> {0.5, 1, 1.5}" by (rule kernel_size_cases)+
  then have "0 \<le> ?n" "?n \<le> 200" by auto
  then obtain fv' where "fill_kernel (sigma_of r) ?n (wc_filterValue c) = Some fv'" "length fv' = 200"
      "take (nat ?n) fv' = dog_kernel (sigma_of r) ?n"
    using fill_kernel_ok [of "wc_filterValue c" ?n "sigma_of r"] ok by (auto simp: cache_ok_def)
  with False n show ?thesis by (simp add: update_cache_def cache_ok_def Let_def)
qed

lemma cache_ok_sigma:
  assumes "cache_ok c" "wc_sigma c = sigma_of r"
  shows "wc_filterRadius c = c_trunc (2 * sigma_of r + 0.5) \<and>
         wc_numFilterValues c = c_trunc (2 * real_of_int (c_trunc (2 * sigma_of r + 0.5)) * samplesPerPixel + 1) \<and>
         take (nat (wc_numFilterValues c)) (wc_filterValue c) = dog_kernel (sigma_of r) (wc_numFilterValues c) \<and>
         length (wc_filterValue c) = 200"
proof -
  have "sigma_of r \<noteq> 0" by (simp add: sigma_of_def)
  with assms show ?thesis by (auto simp: cache_ok_def)
qed

text \<open>
  The static array of 200 kernel values always suffices: from a coherent cache the
  refresh never writes past it, leaves a coherent cache for the sigma bucket of the call,
  and holds 21, 41 or 61 kernel values.
\<close>

theorem update_cache_fits:
  assumes ok: "cache_ok c"
  shows "\<exists>c'. update_cache c r = Some c' \<and> cache_ok c' \<and> wc_sigma c' = sigma_of r \<and>
              wc_numFilterValues c' \<in> {21, 41, 61}"
proof -
  obtain c' where c': "update_cache c r = Some c'" "cache_ok c'" "wc_sigma c' = sigma_of r"
    using update_cache_coherent [OF ok] by blast
  with cache_ok_sigma [OF c'(2,3)] kernel_size_cases(3) [of r] show ?thesis by auto
qed

theorem update_cache_fits_witness:
  "\<exists>c'. update_cache WidthCache_init 1 = Some c' \<and> cache_ok c' \<and> wc_sigma c' = sigma_of 1 \<and>
        wc_numFilterValues c' \<in> {21, 41, 61}"
proof -
  have "cache_ok WidthCache_init" by (simp add: cache_ok_def WidthCache_init_def)
  then show ?thesis by (rule update_cache_fits)
qed

section \<open>The cached width equals the width with a fresh kernel\<close>

lemma filtered_at_take:
  "nat n \<le> length fv \<Longrightarrow> filtered_at fv n = filtered_at (take (nat n) fv) n"
  unfolding filtered_at_def Let_def by (intro ext foldl_cong) simp_all

lemma width_from_kernel_take:
  "nat n \<le> length fv \<Longrightarrow>
   width_from_kernel img fv n fr p d r = width_from_kernel img (take (nat n) fv) n fr p d r"
  by (simp add: width_from_kernel_def Let_def filtered_at_take [of n fv])

text \<open>
  C33: \<open>getWidthAtP\<close> with its function-static kernel cache computes, from any coherent
  cache, the width that a kernel computed afresh for the call gives, and leaves a
  coherent cache: the cache never changes a result.
\<close>

theorem getWidthAtP_refines:
  assumes ok: "cache_ok c"
  shows "map_option snd (getWidthAtP img c p d r) = width_ref img p d r \<and>
         (\<forall>c' w. getWidthAtP img c p d r = Some (c', w) \<longrightarrow> cache_ok c')"
proof -
  obtain c' where c': "update_cache c r = Some c'" "cache_ok c'" "wc_sigma c' = sigma_of r"
    using update_cache_coherent [OF ok] by blast
  note k = cache_ok_sigma [OF c'(2,3)]
  have len: "nat (wc_numFilterValues c') \<le> length (wc_filterValue c')"
    using k kernel_size_cases(3) [of r] by auto
  have "width_from_kernel img (wc_filterValue c') (wc_numFilterValues c') (wc_filterRadius c') p d r =
        width_from_kernel img (take (nat (wc_numFilterValues c')) (wc_filterValue c')) (wc_numFilterValues c')
          (wc_filterRadius c') p d r"
    by (rule width_from_kernel_take [OF len])
  also have "\<dots> = width_ref img p d r"
  proof -
    let ?R = "c_trunc (2 * sigma_of r + 0.5)"
    let ?N = "c_trunc (2 * real_of_int ?R * samplesPerPixel + 1)"
    have e1: "wc_filterRadius c' = ?R" using k by blast
    have e2: "wc_numFilterValues c' = ?N" using k by blast
    have k3: "take (nat (wc_numFilterValues c')) (wc_filterValue c') = dog_kernel (sigma_of r) (wc_numFilterValues c')"
      using k by blast
    have e3: "take (nat ?N) (wc_filterValue c') = dog_kernel (sigma_of r) ?N"
      using k3 unfolding e2 .
    note e = e1 e2 e3
    show ?thesis by (simp only: width_ref_def Let_def e)
  qed
  finally have "width_from_kernel img (wc_filterValue c') (wc_numFilterValues c') (wc_filterRadius c') p d r =
        width_ref img p d r" .
  with c' show ?thesis by (auto simp: getWidthAtP_def split: option.split)
qed

theorem getWidthAtP_refines_witness:
  "map_option snd (getWidthAtP img4 WidthCache_init (Vec2D 1 1) (Vec2D 1 0) 1) = width_ref img4 (Vec2D 1 1) (Vec2D 1 0) 1"
proof -
  have "cache_ok WidthCache_init" by (simp add: cache_ok_def WidthCache_init_def)
  from getWidthAtP_refines [OF this] show ?thesis by blast
qed

section \<open>The width stays within the sampled window\<close>

lemma edge_fold_range:
  assumes "\<forall>x \<in> set xs. fst x < n" "-1 \<le> a" "a \<le> real n - 1" "-1 \<le> b" "b \<le> real n - 1"
  shows "case foldl edge_step (a, b, mn, mx) xs of
           (a', b', _, _) \<Rightarrow> -1 \<le> a' \<and> a' \<le> real n - 1 \<and> -1 \<le> b' \<and> b' \<le> real n - 1"
  using assms
proof (induction xs arbitrary: a b mn mx)
  case (Cons x xs)
  obtain i f where x: "x = (i, f)" by fastforce
  have i: "real i \<le> real n - 1" using Cons.prems(1) x by auto
  obtain a1 b1 mn1 mx1 where e: "edge_step (a, b, mn, mx) (i, f) = (a1, b1, mn1, mx1)" by (metis prod_cases4)
  have "-1 \<le> a1 \<and> a1 \<le> real n - 1 \<and> -1 \<le> b1 \<and> b1 \<le> real n - 1"
    using e i Cons.prems(2-5) by (auto simp: edge_step_def split: if_splits)
  then show ?case using Cons.IH [of a1 b1 mn1 mx1] Cons.prems(1) x e by simp
qed simp

text \<open>
  C34: from a coherent cache and for a non-negative expected radius \<open>r\<close>,
  \<open>getWidthAtP\<close> always returns (no write past the kernel array, no negative array size)
  a width between 0 and the length of the sampled window, at most \<open>2 r + 6.2\<close> pixels:
  both edge indices stay in \<open>[-1, numSamplePoints - 1]\<close>, and \<open>samplesRadius\<close> is at most
  \<open>(r + 3) * 10 + 0.5\<close>.
\<close>

theorem getWidthAtP_bounds:
  assumes ok: "cache_ok c0" and r: "0 \<le> r"
  shows "\<exists>c' w. getWidthAtP img c0 p d r = Some (c', w) \<and> 0 \<le> w \<and> w \<le> 2 * r + 6.2"
proof -
  obtain c' where c': "update_cache c0 r = Some c'" "cache_ok c'" "wc_sigma c' = sigma_of r"
    using update_cache_coherent [OF ok] by blast
  let ?R = "wc_filterRadius c'"
  have R: "1 \<le> ?R" "?R \<le> 3" using cache_ok_sigma [OF c'(2,3)] kernel_size_cases(2) [of r] by auto
  let ?sr = "c_trunc ((r + real_of_int ?R) * samplesPerPixel + 0.5)"
  have sr: "0 \<le> ?sr" "real_of_int ?sr \<le> (r + 3) * 10 + 0.5"
  proof -
    have x: "0 \<le> (r + real_of_int ?R) * samplesPerPixel + 0.5" using r R by (simp add: samplesPerPixel_def)
    then show "0 \<le> ?sr" by simp
    have "real_of_int ?sr \<le> (r + real_of_int ?R) * samplesPerPixel + 0.5" using x by simp
    then show "real_of_int ?sr \<le> (r + 3) * 10 + 0.5" using R by (simp add: samplesPerPixel_def)
  qed
  let ?N = "nat (2 * ?sr + 1)"
  let ?F = "map (filtered_at (wc_filterValue c') (wc_numFilterValues c')
                  (width_samples img p d (2 * ?sr + 1))) [0..<?N]"
  obtain a b mn mx where fold: "foldl edge_step (-1, -1, 0, 0) (zip [0..<length ?F] ?F) = (a, b, mn, mx)"
    by (metis prod_cases4)
  have fs: "\<forall>x \<in> set (zip [0..<length ?F] ?F). fst x < ?N"
    by (fastforce dest: set_zip_leftD)
  have ab: "-1 \<le> a \<and> a \<le> real ?N - 1 \<and> -1 \<le> b \<and> b \<le> real ?N - 1"
    using edge_fold_range [OF fs, of "-1" "-1" 0 0] fold by simp
  have N: "real ?N = 2 * real_of_int ?sr + 1" using sr(1) by simp
  have "\<bar>b - a\<bar> / samplesPerPixel \<le> 2 * r + 6.2"
    using ab N sr(2) by (simp add: samplesPerPixel_def abs_le_iff)
  moreover have "width_from_kernel img (wc_filterValue c') (wc_numFilterValues c') ?R p d r = Some (\<bar>b - a\<bar> / samplesPerPixel)"
    using sr(1) fold by (simp add: width_from_kernel_def Let_def)
  moreover have "0 \<le> \<bar>b - a\<bar> / samplesPerPixel" by (simp add: samplesPerPixel_def)
  ultimately show ?thesis using c'(1) by (simp add: getWidthAtP_def)
qed

theorem getWidthAtP_bounds_witness:
  "cache_ok WidthCache_init \<and> (0::real) \<le> 1 \<and>
   (\<exists>c' w. getWidthAtP img4 WidthCache_init (Vec2D 1 1) (Vec2D 1 0) 1 = Some (c', w) \<and> 0 \<le> w \<and> w \<le> 2 * 1 + 6.2)"
proof -
  have ok: "cache_ok WidthCache_init" by (simp add: cache_ok_def WidthCache_init_def)
  show ?thesis using getWidthAtP_bounds [OF ok, of 1 img4 "Vec2D 1 1" "Vec2D 1 0"] ok by simp
qed

end
