(* ===== verification/Stream.thy ===== *)
theory Stream
  imports Prelude
begin

text \<open>
  The parts of the C++ standard library that the persistence code of the model calls:
  an input file stream with its \<open>eof\<close> and \<open>fail\<close> bits, \<open>std::getline\<close>,
  \<open>istream::read\<close>, \<open>std::stoi\<close> and the decimal output of integers by \<open>operator<<\<close>.
  An output stream is the text written to it, so a \<open>writeToFile\<close> is a function that
  returns a string. These are library models, not translations of the repository;
  the theory also proves their round trip: what \<open>operator<<\<close> writes for an integer,
  \<open>std::stoi\<close> reads back, and \<open>getline\<close> returns a line that was written with
  \<open>std::endl\<close>.
\<close>

section \<open>Characters\<close>

definition nl :: char where
  "nl = CHR 0x0A"

text \<open>\<open>std::isspace\<close> in the C locale: blank, tab, newline, vertical tab, form feed, return.\<close>

definition is_space :: "char \<Rightarrow> bool" where
  "is_space c = (c = CHR '' '' \<or> (9 \<le> (of_char c :: nat) \<and> (of_char c :: nat) \<le> 13))"

definition is_digit :: "char \<Rightarrow> bool" where
  "is_digit c = (48 \<le> (of_char c :: nat) \<and> (of_char c :: nat) \<le> 57)"

lemma digit_not_special [simp]:
  "is_digit c \<Longrightarrow> \<not> is_space c"
  "is_digit c \<Longrightarrow> c \<noteq> CHR ''-''"
  "is_digit c \<Longrightarrow> c \<noteq> CHR ''+''"
  "is_digit c \<Longrightarrow> c \<noteq> nl"
  by (auto simp: is_digit_def is_space_def nl_def)

lemma special_chars [simp]:
  "\<not> is_digit CHR ''-''" "\<not> is_space CHR ''-''" "\<not> is_digit nl" "is_space nl"
  "\<not> is_digit CHR '' ''" "is_space CHR '' ''" "CHR '' '' \<noteq> nl" "nl \<noteq> CHR '' ''" "CHR ''-'' \<noteq> nl" "nl \<noteq> CHR ''-''"
  by (simp_all add: is_digit_def is_space_def nl_def)

section \<open>Decimal output\<close>

text \<open>\<open>operator<<\<close> on an integer: its decimal digits, with a minus sign if negative.\<close>

fun put_nat :: "nat \<Rightarrow> string" where
  "put_nat n = (if n < 10 then [char_of (48 + n)] else put_nat (n div 10) @ [char_of (48 + n mod 10)])"

definition put_int :: "int \<Rightarrow> string" where
  "put_int i = (if i < 0 then CHR ''-'' # put_nat (nat (- i)) else put_nat (nat i))"

declare put_nat.simps [simp del]

text \<open>The value of a run of decimal digits.\<close>

definition nat_of_digits :: "string \<Rightarrow> nat" where
  "nat_of_digits ds = foldl (\<lambda>a c. 10 * a + (of_char c - 48)) 0 ds"

section \<open>Input streams\<close>

record istream =
  is_rest :: string
  is_eof :: bool
  is_fail :: bool

definition istream_of :: "string \<Rightarrow> istream" where
  "istream_of s = \<lparr>is_rest = s, is_eof = False, is_fail = False\<rparr>"

definition good :: "istream \<Rightarrow> bool" where
  "good s = (\<not> is_eof s \<and> \<not> is_fail s)"

text \<open>
  \<open>std::getline(s, line)\<close>. On a stream that is not good the sentry fails: the fail bit is
  set and \<open>line\<close> is left as it was. Otherwise \<open>line\<close> is erased and the characters up
  to the next newline are extracted, the newline consumed and not stored. Reaching the end
  of the input sets \<open>eof\<close>, and also \<open>fail\<close> when nothing was extracted.
\<close>

definition getline :: "istream \<Rightarrow> string \<Rightarrow> istream \<times> string" where
  "getline s line =
     (if \<not> good s then (s\<lparr>is_fail := True\<rparr>, line)
      else if is_rest s = [] then (s\<lparr>is_eof := True, is_fail := True\<rparr>, [])
      else (let l = takeWhile (\<lambda>c. c \<noteq> nl) (is_rest s); r = dropWhile (\<lambda>c. c \<noteq> nl) (is_rest s)
            in if r = [] then (s\<lparr>is_rest := [], is_eof := True\<rparr>, l) else (s\<lparr>is_rest := tl r\<rparr>, l)))"

text \<open>
  \<open>s.read(buf, n)\<close>: the next \<open>n\<close> characters; when fewer are left it takes them all and
  sets \<open>eof\<close> and \<open>fail\<close>. The stream converts to \<open>false\<close> exactly when \<open>fail\<close> is set.
\<close>

definition read_bytes :: "istream \<Rightarrow> nat \<Rightarrow> istream \<times> string" where
  "read_bytes s n =
     (if \<not> good s then (s\<lparr>is_fail := True\<rparr>, [])
      else if n \<le> length (is_rest s) then (s\<lparr>is_rest := drop n (is_rest s)\<rparr>, take n (is_rest s))
      else (s\<lparr>is_rest := [], is_eof := True, is_fail := True\<rparr>, is_rest s))"

text \<open>
  \<open>strtol\<close> in base 10 as \<open>std::stoi\<close> calls it: leading white space, an optional sign,
  and at least one digit; it returns the value and the unread rest. \<open>std::stoi\<close> throws
  \<open>invalid_argument\<close> without a digit and \<open>out_of_range\<close> outside \<open>int\<close>; both are \<open>None\<close>.
\<close>

definition parse_int :: "string \<Rightarrow> (int \<times> string) option" where
  "parse_int s =
     (let t = dropWhile is_space s;
          (neg, u) = (case t of [] \<Rightarrow> (False, [])
                      | c # u' \<Rightarrow> if c = CHR ''-'' then (True, u') else if c = CHR ''+'' then (False, u') else (False, t));
          ds = takeWhile is_digit u;
          v = int (nat_of_digits ds)
      in if ds = [] then None else Some (if neg then - v else v, dropWhile is_digit u))"

definition stoi :: "string \<Rightarrow> int option" where
  "stoi s = (case parse_int s of None \<Rightarrow> None
             | Some (v, _) \<Rightarrow> if - (2 ^ 31) \<le> v \<and> v < 2 ^ 31 then Some v else None)"

section \<open>Round trips\<close>

lemma put_nat_digits: "put_nat n \<noteq> [] \<and> list_all is_digit (put_nat n)"
proof (induction n rule: put_nat.induct)
  case (1 n)
  have "is_digit (char_of (48 + k))" if "k < 10" for k :: nat
    using that by (simp add: is_digit_def)
  with 1 show ?case by (simp add: put_nat.simps [of n])
qed

lemma put_nat_cons: "\<exists>c cs. put_nat n = c # cs \<and> is_digit c \<and> list_all is_digit cs"
  using put_nat_digits [of n] by (cases "put_nat n") auto

lemma nat_of_digits_snoc: "nat_of_digits (xs @ [c]) = 10 * nat_of_digits xs + (of_char c - 48)"
  by (simp add: nat_of_digits_def)

lemma nat_of_put_nat: "nat_of_digits (put_nat n) = n"
proof (induction n rule: put_nat.induct)
  case (1 n)
  have d: "(of_char (char_of (48 + k)) :: nat) - 48 = k" if "k < 10" for k :: nat
    using that by simp
  show ?case
  proof (cases "n < 10")
    case True
    then show ?thesis by (subst put_nat.simps) (simp add: nat_of_digits_def d)
  next
    case False
    then show ?thesis using 1 by (subst put_nat.simps) (simp add: nat_of_digits_snoc d)
  qed
qed

lemma digits_split:
  assumes "list_all is_digit ds" "rest = [] \<or> \<not> is_digit (hd rest)"
  shows "takeWhile is_digit (ds @ rest) = ds \<and> dropWhile is_digit (ds @ rest) = rest"
  using assms
proof (induction ds)
  case Nil
  then show ?case by (cases rest) auto
qed simp

lemma parse_digits:
  assumes "ds = c # cs" "is_digit c" "list_all is_digit cs" "rest = [] \<or> \<not> is_digit (hd rest)"
  shows "parse_int (ds @ rest) = Some (int (nat_of_digits ds), rest)"
    "parse_int (CHR ''-'' # ds @ rest) = Some (- int (nat_of_digits ds), rest)"
proof -
  have "takeWhile is_digit (ds @ rest) = ds \<and> dropWhile is_digit (ds @ rest) = rest"
    using assms by (intro digits_split) simp_all
  then show "parse_int (ds @ rest) = Some (int (nat_of_digits ds), rest)"
    "parse_int (CHR ''-'' # ds @ rest) = Some (- int (nat_of_digits ds), rest)"
    using assms(1,2) by (simp_all add: parse_int_def Let_def)
qed

lemma parse_put_int:
  assumes "rest = [] \<or> \<not> is_digit (hd rest)"
  shows "parse_int (put_int i @ rest) = Some (i, rest)"
proof (cases "i < 0")
  case True
  obtain c cs where "put_nat (nat (- i)) = c # cs" "is_digit c" "list_all is_digit cs"
    using put_nat_cons by blast
  from parse_digits(2) [OF this assms] True show ?thesis by (simp add: put_int_def nat_of_put_nat)
next
  case False
  obtain c cs where "put_nat (nat i) = c # cs" "is_digit c" "list_all is_digit cs"
    using put_nat_cons by blast
  from parse_digits(1) [OF this assms] False show ?thesis by (simp add: put_int_def nat_of_put_nat)
qed

lemma stoi_put_int: "- (2 ^ 31) \<le> i \<Longrightarrow> i < 2 ^ 31 \<Longrightarrow> stoi (put_int i) = Some i"
  using parse_put_int [of "[]" i] by (simp add: stoi_def)

lemma put_int_no_nl: "nl \<notin> set (put_int i)"
  using put_nat_digits [of "nat (- i)"] put_nat_digits [of "nat i"]
  by (auto simp: put_int_def list_all_iff)

lemma getline_line:
  assumes "good s" "nl \<notin> set l"
  shows "getline (s\<lparr>is_rest := l @ nl # r\<rparr>) x = (s\<lparr>is_rest := r\<rparr>, l)"
proof -
  have "takeWhile (\<lambda>c. c \<noteq> nl) (l @ nl # r) = l" "dropWhile (\<lambda>c. c \<noteq> nl) (l @ nl # r) = nl # r"
    using assms(2) by (induction l) auto
  with assms(1) show ?thesis by (simp add: getline_def good_def)
qed

lemma read_bytes_exact:
  "good s \<Longrightarrow> read_bytes (s\<lparr>is_rest := bs @ r\<rparr>) (length bs) = (s\<lparr>is_rest := r\<rparr>, bs)"
  by (simp add: read_bytes_def good_def)

lemma good_rest [simp]: "good (s\<lparr>is_rest := r\<rparr>) = good s"
  by (simp add: good_def)

end
