(* ===== verification/Persistence.thy ===== *)
theory Persistence
  imports Model ImageFilterer Stream
begin

text \<open>
  Saving and loading (src/Source/Model): \<open>Curve::readFromFile\<close>/\<open>writeToFile\<close>,
  \<open>Contour::readFromFile\<close>/\<open>writeToFile\<close>, \<open>Image::readFromFile\<close>/\<open>writeToFile\<close> with
  the image statistics, and \<open>Model::save\<close>/\<open>load\<close>, over the stream models of the theory
  Stream. The text form of a \<open>float\<close> is a parameter: \<open>fmt\<close> is what \<open>operator<<\<close>
  writes and \<open>rd\<close> is \<open>operator>>\<close> on the rest of an \<open>istringstream\<close>, returning the
  value and the unread rest. \<open>float_io fmt rd q\<close> is their contract: reading back what was
  written gives \<open>q x\<close>, the value rounded to the precision of the format. The two
  counted loops of the readers, whose bounds come from the file, are
  \<open>partial_function (option)\<close>, so that they are proved to return.
\<close>

type_synonym float_fmt = "real \<Rightarrow> string"
type_synonym float_rd = "string \<Rightarrow> (real \<times> string) option"

text \<open>The record keys, which the writers hold in \<open>std::string key\<close> and the readers compare with.\<close>

definition key_curve :: string where
  "key_curve = ''key_curve''"

definition key_contour :: string where
  "key_contour = ''key_contour''"

definition key_image :: string where
  "key_image = ''key_image''"

section \<open>Curve\<close>

text \<open>
  One line \<open>x y radius\<close> as \<open>Curve::writeToFile\<close> writes it, ended by \<open>std::endl\<close>.
\<close>

definition point_line :: "float_fmt \<Rightarrow> CurvePoint \<Rightarrow> string" where
  "point_line fmt p =
     fmt (vx (pos p)) @ CHR '' '' # fmt (vy (pos p)) @ CHR '' '' # fmt (radius p) @ [nl]"

definition curve_writeToFile :: "float_fmt \<Rightarrow> Curve \<Rightarrow> string" where
  "curve_writeToFile fmt c =
     (let numPoints = int (length (curvePoints c))
      in key_curve @ nl # put_int numPoints @ nl # concat (map (point_line fmt) (curvePoints c)))"

text \<open>
  \<open>iss >> x >> y >> radius\<close> on one line. Each extraction reads from the rest the
  previous one left; after a failed extraction the stream is failed and the later ones
  do nothing. A variable whose extraction failed has no specified value here
  (\<open>undefined\<close>): C++11 stores 0 when characters were rejected and otherwise leaves the
  uninitialised \<open>float\<close> as it was.
\<close>

definition read_point :: "float_rd \<Rightarrow> string \<Rightarrow> CurvePoint" where
  "read_point rd line =
     (case rd line of
        None \<Rightarrow> \<lparr>pos = Vec2D undefined undefined, radius = undefined\<rparr>
      | Some (x, r1) \<Rightarrow>
          (case rd r1 of
             None \<Rightarrow> \<lparr>pos = Vec2D x undefined, radius = undefined\<rparr>
           | Some (y, r2) \<Rightarrow>
               (case rd r2 of
                  None \<Rightarrow> \<lparr>pos = Vec2D x y, radius = undefined\<rparr>
                | Some (rad, _) \<Rightarrow> \<lparr>pos = Vec2D x y, radius = rad\<rparr>)))"

text \<open>
  The loop \<open>for (int i = 0; i < numPoints; i++)\<close> of \<open>Curve::readFromFile\<close>: read a
  line, parse it, \<open>push_back\<close> the point. The line variable keeps its value when
  \<open>getline\<close> fails.
\<close>

partial_function (option) read_points ::
  "float_rd \<Rightarrow> int \<Rightarrow> int \<Rightarrow> istream \<Rightarrow> string \<Rightarrow> CurvePoint list \<Rightarrow> (istream \<times> string \<times> CurvePoint list) option"
where
  "read_points rd numPoints i s line ps =
     (if i < numPoints then
        (case getline s line of
           (s', line') \<Rightarrow> read_points rd numPoints (i + 1) s' line' (ps @ [read_point rd line']))
      else Some (s, line, ps))"

text \<open>
  \<open>Curve::readFromFile\<close>: \<open>clear()\<close>, the key line, the count (\<open>std::stoi\<close>, which
  throws on a bad count), then the points. Every exception is caught and returns
  \<open>false\<close>, the curve staying cleared.
\<close>

definition curve_readFromFile :: "float_rd \<Rightarrow> Curve \<Rightarrow> istream \<Rightarrow> (istream \<times> Curve \<times> bool) option" where
  "curve_readFromFile rd c s =
     (let c = clear c in
      case getline s [] of (s, line) \<Rightarrow>
      if line \<noteq> key_curve then Some (s, c, False)
      else (case getline s line of (s, line) \<Rightarrow>
            case stoi line of
              None \<Rightarrow> Some (s, c, False)
            | Some numPoints \<Rightarrow>
                map_option (\<lambda>(s, _, ps). (s, c\<lparr>curvePoints := ps\<rparr>, True))
                  (read_points rd numPoints 0 s line [])))"

section \<open>Contour\<close>

definition contour_writeToFile :: "float_fmt \<Rightarrow> Contour \<Rightarrow> string" where
  "contour_writeToFile fmt ct =
     key_contour @ nl # put_int (int (length (curves ct))) @ nl # concat (map (curve_writeToFile fmt) (curves ct))"

text \<open>
  The loop of \<open>Contour::readFromFile\<close>: \<open>addCurve()\<close>, then \<open>readFromFile\<close> through the
  \<open>Curve*\<close> that \<open>curve(curveID)\<close> returns, its result ignored. The value \<open>None\<close> is
  the null dereference, which cannot happen on a contour with a valid id counter
  (\<open>addCurve_lookup\<close>).
\<close>

partial_function (option) read_curves ::
  "float_rd \<Rightarrow> int \<Rightarrow> int \<Rightarrow> Contour \<Rightarrow> istream \<Rightarrow> (Contour \<times> istream) option"
where
  "read_curves rd numCurves i ct s =
     (if i < numCurves then
        (case addCurve ct of
           (ct, curveID) \<Rightarrow>
             (case curve ct curveID of
                None \<Rightarrow> None
              | Some c \<Rightarrow>
                  (case curve_readFromFile rd c s of
                     None \<Rightarrow> None
                   | Some (s, c', _) \<Rightarrow> read_curves rd numCurves (i + 1) (update_curve ct curveID (\<lambda>_. c')) s)))
      else Some (ct, s))"

definition contour_readFromFile :: "float_rd \<Rightarrow> Contour \<Rightarrow> istream \<Rightarrow> (Contour \<times> istream \<times> bool) option" where
  "contour_readFromFile rd ct s =
     (let ct = contour_clear ct in
      case getline s [] of (s, line) \<Rightarrow>
      if line \<noteq> key_contour then Some (ct, s, False)
      else (case getline s line of (s, line) \<Rightarrow>
            case stoi line of
              None \<Rightarrow> Some (ct, s, False)
            | Some numCurves \<Rightarrow> map_option (\<lambda>(ct, s). (ct, s, True)) (read_curves rd numCurves 0 ct s)))"

section \<open>Image\<close>

text \<open>
  The statistics \<open>Image::Stats\<close> and the image object: the pixel data that the filters
  read (\<open>Image\<close> of the theory ImageFilterer) with its statistics beside it.
\<close>

record ImageStats =
  st_valid :: bool
  st_min :: real
  st_max :: real

record ImageObj =
  io_image :: Image
  io_stats :: ImageStats

definition ImageObj_new :: ImageObj where
  "ImageObj_new = \<lparr>io_image = \<lparr>img_width = 0, img_height = 0, img_format = UChar, img_data = None\<rparr>,
                   io_stats = \<lparr>st_valid = False, st_min = 0, st_max = 0\<rparr>\<rparr>"

text \<open>
  \<open>Image::Image(width, height, format, data)\<close>: the buffer holds a copy of the first
  \<open>numBytesPerPixel * width * height\<close> bytes of \<open>data\<close>.
\<close>

definition Image_create :: "int \<Rightarrow> int \<Rightarrow> DataFormat \<Rightarrow> string \<Rightarrow> ImageObj" where
  "Image_create w h f d =
     (let numBytesPerPixel = (if f = UChar then 1 else 2) :: int
      in \<lparr>io_image = \<lparr>img_width = w, img_height = h, img_format = f,
                      img_data = Some (take (nat (numBytesPerPixel * w * h)) d)\<rparr>,
          io_stats = \<lparr>st_valid = False, st_min = 0, st_max = 0\<rparr>\<rparr>)"

text \<open>
  \<open>Image::clear\<close>. (It frees the buffer with \<open>delete\<close> rather than \<open>delete[]\<close>, which
  the model cannot show.)
\<close>

definition image_clear :: "ImageObj \<Rightarrow> ImageObj" where
  "image_clear obj =
     obj\<lparr>io_image := \<lparr>img_width = 0, img_height = 0, img_format = UChar, img_data = None\<rparr>,
         io_stats := (io_stats obj)\<lparr>st_valid := False\<rparr>\<rparr>"

text \<open>
  \<open>Image::computeStats\<close>: minimum and maximum over the \<open>width * height\<close> pixels, starting
  from \<open>(float) INT_MAX\<close> (which is \<open>2^31\<close>) and 0, scaled by the largest value of
  the format; the switch has no branch for an unsupported format.
\<close>

definition computeStats :: "Image \<Rightarrow> ImageStats" where
  "computeStats i =
     (let numVals = img_width i * img_height i;
          vals = map (\<lambda>k. pixel i (int k)) [0..<nat numVals];
          (mn, mx) = foldl (\<lambda>(mn, mx) v. (if v < mn then v else mn, if v > mx then v else mx)) (2 ^ 31, 0) vals
      in case img_format i of
           UShort \<Rightarrow> \<lparr>st_valid = True, st_min = mn / 65535, st_max = mx / 65535\<rparr>
         | UChar \<Rightarrow> \<lparr>st_valid = True, st_min = mn / 255, st_max = mx / 255\<rparr>
         | FormatNotSupported \<Rightarrow> \<lparr>st_valid = True, st_min = mn, st_max = mx\<rparr>)"

text \<open>\<open>Image::normalizedMinValue\<close> and \<open>normalizedMaxValue\<close> compute the statistics on first use.\<close>

definition normalizedMinValue :: "ImageObj \<Rightarrow> real \<times> ImageObj" where
  "normalizedMinValue obj =
     (let obj = (if \<not> st_valid (io_stats obj) then obj\<lparr>io_stats := computeStats (io_image obj)\<rparr> else obj)
      in (st_min (io_stats obj), obj))"

definition normalizedMaxValue :: "ImageObj \<Rightarrow> real \<times> ImageObj" where
  "normalizedMaxValue obj =
     (let obj = (if \<not> st_valid (io_stats obj) then obj\<lparr>io_stats := computeStats (io_image obj)\<rparr> else obj)
      in (st_max (io_stats obj), obj))"

text \<open>
  \<open>Image::writeToFile\<close>: nothing is written for an unsupported format; otherwise the key,
  the width, height and format code, one per line, then the raw bytes. \<open>size\<close> is the
  \<open>int\<close> product \<open>numBytesPerPixel * m_width * m_height\<close>, wrapped at 32 bits.
\<close>

definition image_writeToFile :: "Image \<Rightarrow> string option" where
  "image_writeToFile i =
     (if \<not> (img_format i = UChar \<or> img_format i = UShort) then None
      else (let format = (if img_format i = UChar then 1 else if img_format i = UShort then 2 else 0) :: int;
                numBytesPerPixel = (if img_format i = UChar then 1 else 2) :: int;
                size = int32 (int32 (numBytesPerPixel * img_width i) * img_height i)
            in Some (key_image @ nl # put_int (img_width i) @ nl # put_int (img_height i) @ nl #
                     put_int format @ nl # take (nat size) (the (img_data i)))))"

text \<open>
  \<open>Image::readFromFile\<close>. The members are assigned as the header is read, so a later
  failure leaves them set. \<open>size\<close> is the \<open>int\<close> product
  \<open>numBytesPerPixel * m_width * m_height\<close>, wrapped at 32 bits (\<open>int32\<close>). A negative
  \<open>size\<close> makes \<open>new[]\<close> throw \<open>bad_array_new_length\<close>, a \<open>bad_alloc\<close>, whose
  handler clears the image; a short read throws an ordinary exception whose handler does
  not, the buffer then holding the bytes read followed by uninitialised ones.
  \<open>image_read_data\<close> is the part after the header, on the image object the header
  reading left.
\<close>

definition set_image :: "ImageObj \<Rightarrow> (Image \<Rightarrow> Image) \<Rightarrow> ImageObj" where
  "set_image obj f = obj\<lparr>io_image := f (io_image obj)\<rparr>"

definition image_read_data :: "ImageObj \<Rightarrow> istream \<Rightarrow> ImageObj \<times> istream \<times> bool" where
  "image_read_data obj s =
     (let i = io_image obj;
          numBytesPerPixel = (if img_format i = UChar then 1 else 2) :: int;
          size = int32 (int32 (numBytesPerPixel * img_width i) * img_height i)
      in if size < 0 then (image_clear obj, s, False)
         else (case read_bytes s (nat size) of (s, bytes) \<Rightarrow>
               let obj = set_image obj (\<lambda>i. i\<lparr>img_data := Some (bytes @ replicate (nat size - length bytes) undefined)\<rparr>)
               in if is_fail s then (obj, s, False)
                  else (obj\<lparr>io_stats := computeStats (io_image obj)\<rparr>, s, True)))"

definition image_readFromFile :: "ImageObj \<Rightarrow> istream \<Rightarrow> ImageObj \<times> istream \<times> bool" where
  "image_readFromFile obj s =
     (let obj = image_clear obj in
      case getline s [] of (s, line) \<Rightarrow>
      if line \<noteq> key_image then (obj, s, False) else
      case getline s line of (s, line) \<Rightarrow>
      case stoi line of None \<Rightarrow> (obj, s, False) | Some w \<Rightarrow>
      let obj = set_image obj (\<lambda>i. i\<lparr>img_width := w\<rparr>) in
      case getline s line of (s, line) \<Rightarrow>
      case stoi line of None \<Rightarrow> (obj, s, False) | Some h \<Rightarrow>
      let obj = set_image obj (\<lambda>i. i\<lparr>img_height := h\<rparr>) in
      case getline s line of (s, line) \<Rightarrow>
      case stoi line of None \<Rightarrow> (obj, s, False) | Some format \<Rightarrow>
      if format \<noteq> 1 \<and> format \<noteq> 2 then (obj, s, False) else
      let f = (if format = 1 then UChar else UShort)
      in image_read_data (set_image obj (\<lambda>i. i\<lparr>img_format := f\<rparr>)) s)"

section \<open>Model\<close>

definition m_version :: string where
  "m_version = ''VSCL0001''"

text \<open>
  \<open>Model::save\<close>: nothing is written without a valid image or an open file; then the
  version line, the image and the contour. A failed image write stops after the version
  line.
\<close>

definition model_save :: "float_fmt \<Rightarrow> bool \<Rightarrow> Model \<Rightarrow> ImageObj \<Rightarrow> string" where
  "model_save fmt is_open m obj =
     (if \<not> isValid (io_image obj) then []
      else if \<not> is_open then []
      else m_version @ nl # (case image_writeToFile (io_image obj) of
                               None \<Rightarrow> []
                             | Some t \<Rightarrow> t @ contour_writeToFile fmt (m_contour m)))"

text \<open>
  \<open>Model::load\<close>: the version line, the image, the contour; each failure throws and is
  caught, leaving what was read so far. The model's \<open>imageValid\<close> is \<open>m_image.isValid()\<close>.
\<close>

definition model_load :: "float_rd \<Rightarrow> bool \<Rightarrow> Model \<Rightarrow> ImageObj \<Rightarrow> istream \<Rightarrow> (Model \<times> ImageObj) option" where
  "model_load rd is_open m obj s =
     (if \<not> is_open then Some (m, obj) else
      case getline s [] of (s, line) \<Rightarrow>
      if line \<noteq> m_version then Some (m, obj) else
      case image_readFromFile obj s of (obj, s, ok) \<Rightarrow>
      let m = m\<lparr>imageValid := isValid (io_image obj)\<rparr> in
      if \<not> ok then Some (m, obj)
      else map_option (\<lambda>(ct, _, _). (m\<lparr>m_contour := ct\<rparr>, obj)) (contour_readFromFile rd (m_contour m) s))"

section \<open>The readers return\<close>

lemma read_points_some: "\<exists>r. read_points rd n i s line ps = Some r"
proof (induction "nat (n - i)" arbitrary: i s line ps)
  case 0
  then show ?case by (subst read_points.simps) simp
next
  case (Suc k)
  then have "k = nat (n - (i + 1))" "i < n" by simp_all
  with Suc(1) show ?case by (subst read_points.simps) (simp split: prod.split)
qed

lemma curve_readFromFile_some: "\<exists>r. curve_readFromFile rd c s = Some r"
  using read_points_some by (simp add: curve_readFromFile_def Let_def split: prod.split option.split) blast

lemma contour_inv_ids:
  assumes "map c_id (curves ct') = map c_id (curves ct)" "idNextCurve ct' = idNextCurve ct"
    "idActiveCurve ct' = idActiveCurve ct"
  shows "contour_inv ct' = contour_inv ct"
proof -
  have "list_all (\<lambda>c. 0 \<le> c_id c \<and> c_id c < n) cs = list_all (\<lambda>k. 0 \<le> k \<and> k < n) (map c_id cs)" for n cs
    by (simp add: list.pred_map comp_def)
  note l = this
  show ?thesis by (simp only: contour_inv_def l assms)
qed

lemma map_curve_id_last:
  "i \<notin> c_id ` set cs \<Longrightarrow> c_id c = i \<Longrightarrow> map_curve_id i f (cs @ [c]) = cs @ [f c]"
  by (induction cs) auto

text \<open>One pass of the loop of \<open>Contour::readFromFile\<close>: the new curve holds what was read.\<close>

lemma read_curve_step:
  assumes inv: "contour_inv ct" and add: "addCurve ct = (ct1, i)" and c': "c_id c' = i"
  shows "curve ct1 i = Some (Curve_new i) \<and> curves (update_curve ct1 i (\<lambda>_. c')) = curves ct @ [c'] \<and>
         contour_inv (update_curve ct1 i (\<lambda>_. c'))"
proof -
  have l: "curve ct1 i = Some (Curve_new i)" "contour_inv ct1" "0 \<le> i"
    using addCurve_lookup [OF inv add] by simp_all
  have i: "i = idNextCurve ct" and cs: "curves ct1 = curves ct @ [Curve_new i]"
    using add by (auto simp: addCurve_def Let_def)
  have fresh: "i \<notin> c_id ` set (curves ct)" using contour_inv_fresh [OF inv] i by simp
  have u: "curves (update_curve ct1 i (\<lambda>_. c')) = curves ct @ [c']"
    using l(3) cs map_curve_id_last [OF fresh, of "Curve_new i" "\<lambda>_. c'"]
    by (simp add: update_curve_def Curve_new_def)
  have "contour_inv (update_curve ct1 i (\<lambda>_. c')) = contour_inv ct1"
  proof (rule contour_inv_ids)
    show "map c_id (curves (update_curve ct1 i (\<lambda>_. c'))) = map c_id (curves ct1)"
      unfolding u cs by (simp add: c' Curve_new_def)
  qed (simp_all add: update_curve_def)
  with l u show ?thesis by simp
qed

lemma curve_readFromFile_id: "curve_readFromFile rd c s = Some (s', c', ok) \<Longrightarrow> c_id c' = c_id c"
  by (auto simp: curve_readFromFile_def clear_def Let_def split: prod.splits option.splits if_splits)

lemma read_curves_some:
  "contour_inv ct \<Longrightarrow> \<exists>ct' s'. read_curves rd n i ct s = Some (ct', s') \<and> contour_inv ct'"
proof (induction "nat (n - i)" arbitrary: i ct s)
  case 0
  then show ?case by (subst read_curves.simps) simp
next
  case (Suc k)
  then have k: "k = nat (n - (i + 1))" "i < n" by simp_all
  obtain ct1 j where add: "addCurve ct = (ct1, j)" by fastforce
  obtain s' c' ok where rd: "curve_readFromFile rd (Curve_new j) s = Some (s', c', ok)"
    using curve_readFromFile_some by (metis prod_cases3)
  have "c_id c' = j" using curve_readFromFile_id [OF rd] by (simp add: Curve_new_def)
  note st = read_curve_step [OF Suc(3) add this]
  obtain ct' s'' where "read_curves rd n (i + 1) (update_curve ct1 j (\<lambda>_. c')) s' = Some (ct', s'') \<and> contour_inv ct'"
    using Suc(1) [OF k(1)] st by blast
  then show ?case using k(2) add st rd by (subst read_curves.simps) simp
qed

section \<open>Round trip of the text format\<close>

text \<open>
  The contract of the float format, and the value \<open>q\<close> it gives back: the writer emits
  no newline, the reader skips leading blanks, and reads back what was written when a
  blank or the end of the line follows.
\<close>

definition float_io :: "float_fmt \<Rightarrow> float_rd \<Rightarrow> (real \<Rightarrow> real) \<Rightarrow> bool" where
  "float_io fmt rd q \<longleftrightarrow>
     (\<forall>x. nl \<notin> set (fmt x)) \<and> (\<forall>t. rd (CHR '' '' # t) = rd t) \<and>
     (\<forall>x rest. rest = [] \<or> hd rest = CHR '' '' \<longrightarrow> rd (fmt x @ rest) = Some (q x, rest))"

definition quant :: "(real \<Rightarrow> real) \<Rightarrow> CurvePoint \<Rightarrow> CurvePoint" where
  "quant q p = \<lparr>pos = Vec2D (q (vx (pos p))) (q (vy (pos p))), radius = q (radius p)\<rparr>"

lemma keys_no_nl [simp]: "nl \<notin> set key_curve" "nl \<notin> set key_contour" "nl \<notin> set key_image"
  "nl \<notin> set m_version"
  by (simp_all add: key_curve_def key_contour_def key_image_def m_version_def nl_def)

lemma point_line_read:
  assumes io: "float_io fmt rd q"
  shows "\<exists>l. point_line fmt p = l @ [nl] \<and> nl \<notin> set l \<and> read_point rd l = quant q p"
proof -
  let ?x = "vx (pos p)" and ?y = "vy (pos p)" and ?r = "radius p"
  let ?l = "fmt ?x @ CHR '' '' # fmt ?y @ CHR '' '' # fmt ?r"
  have io': "(\<forall>x. nl \<notin> set (fmt x)) \<and> (\<forall>t. rd (CHR '' '' # t) = rd t) \<and>
     (\<forall>x rest. rest = [] \<or> hd rest = CHR '' '' \<longrightarrow> rd (fmt x @ rest) = Some (q x, rest))"
    using io unfolding float_io_def .
  then have nl: "\<forall>x. nl \<notin> set (fmt x)" and sp: "\<forall>t. rd (CHR '' '' # t) = rd t"
    and rt: "\<And>x rest. rest = [] \<or> hd rest = CHR '' '' \<Longrightarrow> rd (fmt x @ rest) = Some (q x, rest)"
    by blast+
  have "rd ?l = Some (q ?x, CHR '' '' # fmt ?y @ CHR '' '' # fmt ?r)" by (rule rt) simp
  moreover have "rd (CHR '' '' # fmt ?y @ CHR '' '' # fmt ?r) = Some (q ?y, CHR '' '' # fmt ?r)"
    using sp rt [of "CHR '' '' # fmt ?r" ?y] by simp
  moreover have "rd (CHR '' '' # fmt ?r) = Some (q ?r, [])"
    using sp rt [of "[]" ?r] by simp
  ultimately have "read_point rd ?l = quant q p" by (simp add: read_point_def quant_def)
  moreover have "point_line fmt p = ?l @ [nl]" by (simp add: point_line_def)
  moreover have "nl \<notin> set ?l" using nl by simp
  ultimately show ?thesis by blast
qed

lemma read_points_text:
  assumes io: "float_io fmt rd q" and g: "good s"
  shows "n - i = int (length ps) \<Longrightarrow>
         \<exists>line'. read_points rd n i (s\<lparr>is_rest := concat (map (point_line fmt) ps) @ r\<rparr>) line acc =
                  Some (s\<lparr>is_rest := r\<rparr>, line', acc @ map (quant q) ps)"
proof (induction ps arbitrary: i line acc)
  case Nil
  then show ?case by (subst read_points.simps) simp
next
  case (Cons p ps)
  obtain l where l: "point_line fmt p = l @ [nl]" "nl \<notin> set l" "read_point rd l = quant q p"
    using point_line_read [OF io] by blast
  have gl: "getline (s\<lparr>is_rest := l @ nl # (concat (map (point_line fmt) ps) @ r)\<rparr>) line =
            (s\<lparr>is_rest := concat (map (point_line fmt) ps) @ r\<rparr>, l)"
    by (rule getline_line [OF g l(2)])
  obtain line' where "read_points rd n (i + 1) (s\<lparr>is_rest := concat (map (point_line fmt) ps) @ r\<rparr>) l
      (acc @ [quant q p]) = Some (s\<lparr>is_rest := r\<rparr>, line', (acc @ [quant q p]) @ map (quant q) ps)"
    using Cons.IH [of "i + 1"] Cons.prems by fastforce
  moreover have "i < n" using Cons.prems by simp
  ultimately show ?case using l gl by (subst read_points.simps) auto
qed

lemma curve_read_write:
  assumes io: "float_io fmt rd q" and g: "good s" and len: "int (length (curvePoints c')) < 2 ^ 31"
  shows "curve_readFromFile rd c (s\<lparr>is_rest := curve_writeToFile fmt c' @ r\<rparr>) =
         Some (s\<lparr>is_rest := r\<rparr>, (clear c)\<lparr>curvePoints := map (quant q) (curvePoints c')\<rparr>, True)"
proof -
  let ?n = "int (length (curvePoints c'))"
  let ?X = "concat (map (point_line fmt) (curvePoints c')) @ r"
  have w: "curve_writeToFile fmt c' @ r = key_curve @ nl # (put_int ?n @ nl # ?X)"
    by (simp add: curve_writeToFile_def)
  have g1: "getline (s\<lparr>is_rest := key_curve @ nl # (put_int ?n @ nl # ?X)\<rparr>) [] = (s\<lparr>is_rest := put_int ?n @ nl # ?X\<rparr>, key_curve)"
    by (rule getline_line [OF g]) simp
  have g2: "getline (s\<lparr>is_rest := put_int ?n @ nl # ?X\<rparr>) key_curve = (s\<lparr>is_rest := ?X\<rparr>, put_int ?n)"
    by (rule getline_line [OF g put_int_no_nl])
  have st: "stoi (put_int ?n) = Some ?n" using len by (intro stoi_put_int) simp_all
  obtain line' where rp: "read_points rd ?n 0 (s\<lparr>is_rest := ?X\<rparr>) (put_int ?n) [] =
                          Some (s\<lparr>is_rest := r\<rparr>, line', map (quant q) (curvePoints c'))"
    using read_points_text [OF io g, of ?n 0 "curvePoints c'" r "put_int ?n" "[]"] by auto
  show ?thesis unfolding curve_readFromFile_def Let_def w g1 by (simp add: g2 st rp)
qed

lemma read_curves_text:
  assumes io: "float_io fmt rd q" and g: "good s"
  shows "contour_inv ct \<Longrightarrow> n - i = int (length cs) \<Longrightarrow>
         list_all (\<lambda>c. int (length (curvePoints c)) < 2 ^ 31) cs \<Longrightarrow>
         \<exists>ct'. read_curves rd n i ct (s\<lparr>is_rest := concat (map (curve_writeToFile fmt) cs) @ r\<rparr>) =
                Some (ct', s\<lparr>is_rest := r\<rparr>) \<and> contour_inv ct' \<and>
                map curvePoints (curves ct') = map curvePoints (curves ct) @ map (map (quant q) \<circ> curvePoints) cs"
proof (induction cs arbitrary: i ct)
  case Nil
  then show ?case by (subst read_curves.simps) simp
next
  case (Cons c cs)
  obtain ct1 j where add: "addCurve ct = (ct1, j)" by fastforce
  let ?c' = "(clear (Curve_new j))\<lparr>curvePoints := map (quant q) (curvePoints c)\<rparr>"
  let ?X = "concat (map (curve_writeToFile fmt) cs) @ r"
  have rc: "curve_readFromFile rd (Curve_new j) (s\<lparr>is_rest := curve_writeToFile fmt c @ ?X\<rparr>) =
            Some (s\<lparr>is_rest := ?X\<rparr>, ?c', True)"
    using Cons.prems(3) by (intro curve_read_write [OF io g]) simp
  have "c_id ?c' = j" by (simp add: clear_def Curve_new_def)
  note st = read_curve_step [OF Cons.prems(1) add this]
  obtain ct' where "read_curves rd n (i + 1) (update_curve ct1 j (\<lambda>_. ?c')) (s\<lparr>is_rest := ?X\<rparr>) =
      Some (ct', s\<lparr>is_rest := r\<rparr>) \<and> contour_inv ct' \<and>
      map curvePoints (curves ct') = map curvePoints (curves ct @ [?c']) @ map (map (quant q) \<circ> curvePoints) cs"
    using Cons.IH [of "update_curve ct1 j (\<lambda>_. ?c')" "i + 1"] Cons.prems st by auto
  moreover have "i < n" using Cons.prems by simp
  ultimately show ?case using add st rc by (subst read_curves.simps) auto
qed

lemma contour_read_write:
  assumes io: "float_io fmt rd q" and g: "good s" and inv: "contour_inv ct"
    and n: "int (length (curves ct')) < 2 ^ 31"
    and lens: "list_all (\<lambda>c. int (length (curvePoints c)) < 2 ^ 31) (curves ct')"
  shows "\<exists>ct''. contour_readFromFile rd ct (s\<lparr>is_rest := contour_writeToFile fmt ct' @ r\<rparr>) =
                 Some (ct'', s\<lparr>is_rest := r\<rparr>, True) \<and> contour_inv ct'' \<and>
                 map curvePoints (curves ct'') = map (map (quant q) \<circ> curvePoints) (curves ct')"
proof -
  let ?n = "int (length (curves ct'))"
  let ?X = "concat (map (curve_writeToFile fmt) (curves ct')) @ r"
  have w: "contour_writeToFile fmt ct' @ r = key_contour @ nl # (put_int ?n @ nl # ?X)"
    by (simp add: contour_writeToFile_def)
  have g1: "getline (s\<lparr>is_rest := key_contour @ nl # (put_int ?n @ nl # ?X)\<rparr>) [] = (s\<lparr>is_rest := put_int ?n @ nl # ?X\<rparr>, key_contour)"
    by (rule getline_line [OF g]) simp
  have g2: "getline (s\<lparr>is_rest := put_int ?n @ nl # ?X\<rparr>) key_contour = (s\<lparr>is_rest := ?X\<rparr>, put_int ?n)"
    by (rule getline_line [OF g put_int_no_nl])
  have st: "stoi (put_int ?n) = Some ?n" using n by (intro stoi_put_int) simp_all
  have cl: "contour_inv (contour_clear ct)" "curves (contour_clear ct) = []"
    using contour_clear_inv [OF inv] by (simp_all add: contour_clear_def deselectCurve_def)
  obtain ct'' where rc: "read_curves rd ?n 0 (contour_clear ct) (s\<lparr>is_rest := ?X\<rparr>) = Some (ct'', s\<lparr>is_rest := r\<rparr>)"
      "contour_inv ct''" "map curvePoints (curves ct'') = map (map (quant q) \<circ> curvePoints) (curves ct')"
    using read_curves_text [OF io g cl(1), of ?n 0 "curves ct'" r] lens cl(2) by auto
  show ?thesis unfolding contour_readFromFile_def Let_def w g1 using rc by (simp add: g2 st)
qed

text \<open>
  The images that \<open>Image::writeToFile\<close> writes and \<open>readFromFile\<close> can read back: a
  supported format, dimensions that \<open>std::stoi\<close> accepts, and a buffer of exactly
  \<open>numBytesPerPixel * width * height\<close> bytes.
\<close>

abbreviation image_size :: "Image \<Rightarrow> int" where
  "image_size i \<equiv> (if img_format i = UChar then 1 else 2) * img_width i * img_height i"

definition image_ok :: "Image \<Rightarrow> bool" where
  "image_ok i \<longleftrightarrow> (img_format i = UChar \<or> img_format i = UShort) \<and>
     - (2 ^ 31) \<le> img_width i \<and> img_width i < 2 ^ 31 \<and> - (2 ^ 31) \<le> img_height i \<and> img_height i < 2 ^ 31 \<and>
     0 \<le> image_size i \<and> image_size i < 2 ^ 31 \<and> img_data i \<noteq> None \<and>
     int (length (the (img_data i))) = image_size i"

lemma image_read_header:
  assumes g: "good s" and fc: "fc = 1 \<or> fc = 2"
    and w: "- (2 ^ 31) \<le> w" "w < 2 ^ 31" and h: "- (2 ^ 31) \<le> h" "h < 2 ^ 31"
  shows "image_readFromFile obj (s\<lparr>is_rest := key_image @ nl # put_int w @ nl # put_int h @ nl # put_int fc @ nl # R\<rparr>) =
         image_read_data (set_image (image_clear obj) (\<lambda>i. i\<lparr>img_width := w, img_height := h,
                                                            img_format := (if fc = 1 then UChar else UShort)\<rparr>))
           (s\<lparr>is_rest := R\<rparr>)"
proof -
  have g1: "getline (s\<lparr>is_rest := key_image @ nl # (put_int w @ nl # put_int h @ nl # put_int fc @ nl # R)\<rparr>) [] =
            (s\<lparr>is_rest := put_int w @ nl # put_int h @ nl # put_int fc @ nl # R\<rparr>, key_image)"
    by (rule getline_line [OF g]) simp
  have g2: "getline (s\<lparr>is_rest := put_int w @ nl # (put_int h @ nl # put_int fc @ nl # R)\<rparr>) x =
            (s\<lparr>is_rest := put_int h @ nl # put_int fc @ nl # R\<rparr>, put_int w)"
       "getline (s\<lparr>is_rest := put_int h @ nl # (put_int fc @ nl # R)\<rparr>) x =
            (s\<lparr>is_rest := put_int fc @ nl # R\<rparr>, put_int h)"
       "getline (s\<lparr>is_rest := put_int fc @ nl # R\<rparr>) x = (s\<lparr>is_rest := R\<rparr>, put_int fc)" for x
    by (rule getline_line [OF g put_int_no_nl])+
  have st: "stoi (put_int w) = Some w" "stoi (put_int h) = Some h" "stoi (put_int fc) = Some fc"
    using w h fc by (auto intro!: stoi_put_int)
  show ?thesis using fc
    by (auto simp: image_readFromFile_def set_image_def image_clear_def Let_def g1 g2 st)
qed

text \<open>The data part reads exactly the announced bytes when the size is below \<open>2 ^ 31\<close>.\<close>

lemma int32_image_size:
  "0 \<le> image_size i \<Longrightarrow> image_size i < 2 ^ 31 \<Longrightarrow>
   int32 (int32 ((if img_format i = UChar then 1 else 2) * img_width i) * img_height i) = image_size i"
  by (simp add: int32_mult)

lemma image_read_write:
  assumes ok: "image_ok i" and g: "good s"
  shows "\<exists>t. image_writeToFile i = Some t \<and>
         image_readFromFile obj (s\<lparr>is_rest := t @ r\<rparr>) =
           (obj\<lparr>io_image := i, io_stats := computeStats i\<rparr>, s\<lparr>is_rest := r\<rparr>, True)"
proof -
  let ?w = "img_width i" and ?h = "img_height i" and ?d = "the (img_data i)"
  obtain fc :: int where fc: "fc = (if img_format i = UChar then 1 else 2)" by blast
  have f: "img_format i = UChar \<or> img_format i = UShort" and d: "img_data i = Some ?d"
    and len: "nat (image_size i) = length ?d" and sz: "0 \<le> image_size i" "image_size i < 2 ^ 31"
    and w: "- (2 ^ 31) \<le> ?w" "?w < 2 ^ 31" and h: "- (2 ^ 31) \<le> ?h" "?h < 2 ^ 31"
    using ok by (auto simp: image_ok_def)
  have fc12: "fc = 1 \<or> fc = 2" and fmt: "(if fc = 1 then UChar else UShort) = img_format i"
    using f fc by auto
  have size: "int32 (int32 ((if img_format i = UChar then 1 else 2) * ?w) * ?h) = image_size i"
    using int32_image_size [OF sz] .
  have t: "image_writeToFile i = Some (key_image @ nl # put_int ?w @ nl # put_int ?h @ nl # put_int fc @ nl # ?d)"
    using f len fc size by (auto simp: image_writeToFile_def)
  have hd: "image_readFromFile obj (s\<lparr>is_rest := key_image @ nl # put_int ?w @ nl # put_int ?h @ nl # put_int fc @ nl # (?d @ r)\<rparr>) =
         image_read_data (set_image (image_clear obj) (\<lambda>j. j\<lparr>img_width := ?w, img_height := ?h, img_format := img_format i\<rparr>))
           (s\<lparr>is_rest := ?d @ r\<rparr>)"
    using image_read_header [OF g fc12 w h, of obj "?d @ r"] fmt by simp
  have rb: "read_bytes (s\<lparr>is_rest := ?d @ r\<rparr>) (length ?d) = (s\<lparr>is_rest := r\<rparr>, ?d)"
    using read_bytes_exact [OF g, of ?d r] by simp
  have fail: "\<not> is_fail (s\<lparr>is_rest := r\<rparr>)" using g by (simp add: good_def)
  have img: "\<lparr>img_width = ?w, img_height = ?h, img_format = img_format i, img_data = Some ?d\<rparr> = i"
    using d by simp
  show ?thesis
    using t hd size sz len
    by (simp add: image_read_data_def image_clear_def set_image_def Let_def rb fail img)
qed

lemma read_points_step [simp]:
  "i < n \<Longrightarrow> read_points rd n i s line ps =
     (case getline s line of (s', line') \<Rightarrow> read_points rd n (i + 1) s' line' (ps @ [read_point rd line']))"
  by (subst read_points.simps) simp

lemma read_points_stop [simp]: "\<not> i < n \<Longrightarrow> read_points rd n i s line ps = Some (s, line, ps)"
  by (subst read_points.simps) simp

lemma read_bytes_length: "read_bytes s n = (s', bytes) \<Longrightarrow> length bytes \<le> n"
  by (auto simp: read_bytes_def split: if_splits)

lemma istream_of_rest: "istream_of t = (istream_of [])\<lparr>is_rest := t @ []\<rparr>"
  by (simp add: istream_of_def)

lemma good_istream_of [simp]: "good (istream_of t)"
  by (simp add: istream_of_def good_def)

text \<open>A format for the instances: floats written as integers (truncated) and read back.\<close>

definition fmt_int :: float_fmt where
  "fmt_int x = put_int (c_trunc x)"

definition rd_int :: float_rd where
  "rd_int t = map_option (\<lambda>(v, r). (real_of_int v, r)) (parse_int t)"

lemma float_io_int: "float_io fmt_int rd_int (\<lambda>x. real_of_int (c_trunc x))"
proof -
  have "rd_int (CHR '' '' # t) = rd_int t" for t by (simp add: rd_int_def parse_int_def)
  moreover have "rd_int (fmt_int x @ rest) = Some (real_of_int (c_trunc x), rest)"
    if "rest = [] \<or> hd rest = CHR '' ''" for x rest
    using that parse_put_int [of rest "c_trunc x"] by (auto simp: rd_int_def fmt_int_def)
  ultimately show ?thesis using put_int_no_nl by (simp add: float_io_def fmt_int_def)
qed

section \<open>Claims on saving and loading\<close>

text \<open>
  C35: what \<open>Model::save\<close> writes, \<open>Model::load\<close> reads back into any model with a
  valid contour: the same image, valid, and one curve per saved curve with the same
  number of points, each coordinate and radius as the float format rounds it.
\<close>

theorem save_load_roundtrip:
  assumes io: "float_io fmt rd q" and inv: "contour_inv (m_contour m2)" and img: "image_ok (io_image obj)"
    and n: "int (length (curves (m_contour m))) < 2 ^ 31"
    and lens: "list_all (\<lambda>c. int (length (curvePoints c)) < 2 ^ 31) (curves (m_contour m))"
  shows "\<exists>m' obj'. model_load rd True m2 obj2 (istream_of (model_save fmt True m obj)) = Some (m', obj') \<and>
           io_image obj' = io_image obj \<and> imageValid m' \<and> contour_inv (m_contour m') \<and>
           map curvePoints (curves (m_contour m')) = map (map (quant q) \<circ> curvePoints) (curves (m_contour m))"
proof -
  let ?s = "istream_of []" and ?C = "contour_writeToFile fmt (m_contour m)"
  obtain t where t: "image_writeToFile (io_image obj) = Some t"
    and ri: "image_readFromFile obj2 (?s\<lparr>is_rest := t @ ?C\<rparr>) =
             (obj2\<lparr>io_image := io_image obj, io_stats := computeStats (io_image obj)\<rparr>, ?s\<lparr>is_rest := ?C\<rparr>, True)"
    using image_read_write [OF img good_istream_of] by blast
  have valid: "isValid (io_image obj)" using img by (simp add: image_ok_def isValid_def)
  have save: "istream_of (model_save fmt True m obj) = ?s\<lparr>is_rest := m_version @ nl # (t @ ?C)\<rparr>"
    using valid t by (simp add: model_save_def istream_of_def)
  have g1: "getline (?s\<lparr>is_rest := m_version @ nl # (t @ ?C)\<rparr>) [] = (?s\<lparr>is_rest := t @ ?C\<rparr>, m_version)"
    by (rule getline_line) simp_all
  obtain ct'' where rc: "contour_readFromFile rd (m_contour m2) (?s\<lparr>is_rest := ?C @ []\<rparr>) =
      Some (ct'', ?s\<lparr>is_rest := []\<rparr>, True)" "contour_inv ct''"
      "map curvePoints (curves ct'') = map (map (quant q) \<circ> curvePoints) (curves (m_contour m))"
    using contour_read_write [OF io good_istream_of inv n lens] by blast
  show ?thesis unfolding model_load_def save g1 using ri rc valid by simp
qed

theorem save_load_roundtrip_witness:
  "float_io fmt_int rd_int (\<lambda>x. real_of_int (c_trunc x)) \<and> contour_inv (m_contour (Model_new 1)) \<and>
   image_ok (io_image (Image_create 1 1 UChar ''A'')) \<and>
   int (length (curves (m_contour one_point_model))) < 2 ^ 31 \<and>
   list_all (\<lambda>c. int (length (curvePoints c)) < 2 ^ 31) (curves (m_contour one_point_model)) \<and>
   (\<exists>m' obj'. model_load rd_int True (Model_new 1) ImageObj_new
        (istream_of (model_save fmt_int True one_point_model (Image_create 1 1 UChar ''A''))) = Some (m', obj') \<and>
      io_image obj' = io_image (Image_create 1 1 UChar ''A'') \<and> imageValid m' \<and> contour_inv (m_contour m') \<and>
      map curvePoints (curves (m_contour m')) =
        map (map (quant (\<lambda>x. real_of_int (c_trunc x))) \<circ> curvePoints) (curves (m_contour one_point_model)))"
proof -
  have h: "contour_inv (m_contour (Model_new 1))" by (simp add: Model_new_def Contour_new_inv)
  have i: "image_ok (io_image (Image_create 1 1 UChar ''A''))" by (simp add: Image_create_def image_ok_def)
  have l: "int (length (curves (m_contour one_point_model))) < 2 ^ 31"
    "list_all (\<lambda>c. int (length (curvePoints c)) < 2 ^ 31) (curves (m_contour one_point_model))"
    by (simp_all add: one_point_model_def)
  show ?thesis using save_load_roundtrip [OF float_io_int h i l] float_io_int h i l by blast
qed

text \<open>
  C36: \<open>Contour::readFromFile\<close> returns on every input stream, whatever counts the file
  holds: both counted loops end and no null curve is dereferenced, and the contour it
  leaves satisfies the contour invariant.
\<close>

theorem contour_readFromFile_returns:
  assumes inv: "contour_inv ct"
  shows "\<exists>ct' s' ok. contour_readFromFile rd ct s = Some (ct', s', ok) \<and> contour_inv ct'"
proof -
  have cl: "contour_inv (contour_clear ct)" by (rule contour_clear_inv [OF inv])
  show ?thesis
    using cl read_curves_some [OF cl]
    by (simp add: contour_readFromFile_def Let_def split: prod.split option.split) blast
qed

theorem contour_readFromFile_returns_witness:
  "contour_inv Contour_new \<and>
   (\<exists>ct' s' ok. contour_readFromFile rd_int Contour_new (istream_of (key_contour @ nl # ''2'' @ [nl])) =
      Some (ct', s', ok) \<and> contour_inv ct')"
  using contour_readFromFile_returns [OF Contour_new_inv] Contour_new_inv by blast

text \<open>
  Well-formed image data: a valid image has a supported format and a buffer of exactly
  \<open>numBytesPerPixel * width * height\<close> bytes, which is what the pixel reads of the filters
  and of \<open>computeStats\<close> index into.
\<close>

definition image_wf :: "Image \<Rightarrow> bool" where
  "image_wf i \<longleftrightarrow> (isValid i \<longrightarrow>
     (img_format i = UChar \<or> img_format i = UShort) \<and> int (length (the (img_data i))) = image_size i)"

lemma image_read_data_valid:
  assumes "isValid (io_image (fst (image_read_data obj s)))"
  shows "\<exists>D. io_image (fst (image_read_data obj s)) = (io_image obj)\<lparr>img_data := Some D\<rparr> \<and>
             int (length D) = int32 (image_size (io_image obj))"
proof -
  let ?n = "int32 (int32 ((if img_format (io_image obj) = UChar then 1 else 2) * img_width (io_image obj)) *
                   img_height (io_image obj))"
  have n: "0 \<le> ?n"
  proof (rule ccontr)
    assume "\<not> 0 \<le> ?n"
    then have "fst (image_read_data obj s) = image_clear obj"
      unfolding image_read_data_def Let_def by simp
    then show False using assms by (simp add: image_clear_def isValid_def)
  qed
  obtain s1 bytes where rb: "read_bytes s (nat ?n) = (s1, bytes)" by fastforce
  have "length bytes \<le> nat ?n" using read_bytes_length [OF rb] .
  then have "int (length (bytes @ replicate (nat ?n - length bytes) undefined)) = int32 (image_size (io_image obj))"
    using n by (simp add: int32_mult)
  then show ?thesis
    using n rb by (auto simp: image_read_data_def set_image_def Let_def)
qed

lemma image_readFromFile_data:
  assumes "isValid (io_image (fst (image_readFromFile obj s)))"
  obtains obj0 s0 where "fst (image_readFromFile obj s) = fst (image_read_data obj0 s0)"
    "img_format (io_image obj0) = UChar \<or> img_format (io_image obj0) = UShort"
  using assms
  by (auto simp: image_readFromFile_def image_clear_def set_image_def isValid_def Let_def
           split: prod.splits option.splits if_splits)

text \<open>
  C37: \<open>Image::readFromFile\<close> leaves a well-formed image (a supported format and a
  buffer of exactly \<open>numBytesPerPixel * width * height\<close> bytes) on every input exactly
  when, if the image is valid, that size fits in an \<open>int\<close>: every failure clears the
  image or comes after the buffer was allocated, and a header whose size overflows gives
  a valid image whose buffer has the wrapped size.
\<close>

theorem image_readFromFile_wf:
  "image_wf (io_image (fst (image_readFromFile obj s))) \<longleftrightarrow>
   (isValid (io_image (fst (image_readFromFile obj s))) \<longrightarrow>
    int32 (image_size (io_image (fst (image_readFromFile obj s)))) = image_size (io_image (fst (image_readFromFile obj s))))"
proof (cases "isValid (io_image (fst (image_readFromFile obj s)))")
  case True
  obtain obj0 s0 where e: "fst (image_readFromFile obj s) = fst (image_read_data obj0 s0)"
    and f: "img_format (io_image obj0) = UChar \<or> img_format (io_image obj0) = UShort"
    using image_readFromFile_data [OF True] by blast
  obtain D where d: "io_image (fst (image_read_data obj0 s0)) = (io_image obj0)\<lparr>img_data := Some D\<rparr>"
    "int (length D) = int32 (image_size (io_image obj0))"
    using image_read_data_valid [of obj0 s0] True e by auto
  show ?thesis using f d by (auto simp: e image_wf_def isValid_def)
qed (simp add: image_wf_def)

theorem image_readFromFile_wf_witness:
  "isValid (io_image (fst (image_readFromFile ImageObj_new ((istream_of [])\<lparr>is_rest :=
      key_image @ nl # put_int 65536 @ nl # put_int 65536 @ nl # put_int 1 @ nl # []\<rparr>)))) \<and>
   \<not> image_wf (io_image (fst (image_readFromFile ImageObj_new ((istream_of [])\<lparr>is_rest :=
      key_image @ nl # put_int 65536 @ nl # put_int 65536 @ nl # put_int 1 @ nl # []\<rparr>))))"
proof -
  let ?s = "(istream_of [])\<lparr>is_rest := key_image @ nl # put_int 65536 @ nl # put_int 65536 @ nl # put_int 1 @ nl # []\<rparr>"
  have hd: "image_readFromFile ImageObj_new ?s =
      image_read_data (set_image (image_clear ImageObj_new) (\<lambda>i. i\<lparr>img_width := 65536, img_height := 65536,
                                                                 img_format := UChar\<rparr>)) ((istream_of [])\<lparr>is_rest := []\<rparr>)"
    using image_read_header [OF good_istream_of, of 1 65536 65536 ImageObj_new "[]"] by simp
  have z: "int32 (int32 (1 * 65536) * 65536) = 0" "int32 (1 * 65536 * 65536) \<noteq> 1 * 65536 * 65536"
    by (simp_all add: int32_def)
  have v: "isValid (io_image (fst (image_readFromFile ImageObj_new ?s)))"
    unfolding hd using z
    by (simp add: image_read_data_def set_image_def image_clear_def ImageObj_new_def read_bytes_def
                  istream_of_def good_def isValid_def Let_def)
  have i: "image_size (io_image (fst (image_readFromFile ImageObj_new ?s))) = 1 * 65536 * 65536"
    unfolding hd using z
    by (simp add: image_read_data_def set_image_def image_clear_def ImageObj_new_def read_bytes_def
                  istream_of_def good_def Let_def)
  show ?thesis using image_readFromFile_wf [of ImageObj_new ?s] v i z(2) by simp
qed

text \<open>
  C38: a read that fails in the pixel data leaves a partial image behind: on any stream
  with a supported header whose size fits in an \<open>int\<close> and fewer data bytes than that
  size, \<open>Image::readFromFile\<close> returns \<open>false\<close> with a failed stream, but the image is
  valid with the announced width and height, against the specification's "no partial
  state".
\<close>

theorem image_read_truncated_partial:
  assumes g: "good s" and fc: "fc = 1 \<or> fc = 2"
    and w: "0 \<le> w" "w < 2 ^ 31" and h: "0 \<le> h" "h < 2 ^ 31"
    and sz: "(if fc = 1 then 1 else 2) * w * h < 2 ^ 31"
    and short: "int (length d) < (if fc = 1 then 1 else 2) * w * h"
  shows "case image_readFromFile obj (s\<lparr>is_rest := key_image @ nl # put_int w @ nl # put_int h @ nl # put_int fc @ nl # d\<rparr>) of
           (obj', s', ok) \<Rightarrow> \<not> ok \<and> is_fail s' \<and> isValid (io_image obj') \<and>
                            img_width (io_image obj') = w \<and> img_height (io_image obj') = h"
proof -
  let ?f = "if fc = 1 then UChar else UShort"
  have size: "int32 (int32 ((if ?f = UChar then 1 else 2) * w) * h) = (if fc = 1 then 1 else 2) * w * h"
  proof -
    have "0 \<le> (if fc = 1 then 1 else 2) * w * h" using w h by simp
    then have "int32 ((if fc = 1 then 1 else 2) * w * h) = (if fc = 1 then 1 else 2) * w * h"
      using sz by (intro int32_id) simp_all
    then show ?thesis using fc by (auto simp: int32_mult)
  qed
  have n: "length d < nat ((if fc = 1 then 1 else 2) * w * h)" using short by linarith
  have hd: "image_readFromFile obj (s\<lparr>is_rest := key_image @ nl # put_int w @ nl # put_int h @ nl # put_int fc @ nl # d\<rparr>) =
      image_read_data (set_image (image_clear obj) (\<lambda>i. i\<lparr>img_width := w, img_height := h, img_format := ?f\<rparr>))
        (s\<lparr>is_rest := d\<rparr>)"
    using image_read_header [OF g fc, of w h obj d] w h by simp
  show ?thesis
    unfolding hd using size n g short
    by (simp add: image_read_data_def set_image_def image_clear_def read_bytes_def isValid_def Let_def)
qed

theorem image_read_truncated_partial_witness:
  "good (istream_of []) \<and>
   (case image_readFromFile ImageObj_new ((istream_of [])\<lparr>is_rest := key_image @ nl # put_int 2 @ nl # put_int 2 @ nl #
            put_int 1 @ nl # ''AB''\<rparr>) of
      (obj', s', ok) \<Rightarrow> \<not> ok \<and> is_fail s' \<and> isValid (io_image obj') \<and>
                       img_width (io_image obj') = 2 \<and> img_height (io_image obj') = 2)"
  using image_read_truncated_partial [OF good_istream_of, of 1 2 2 "''AB''" ImageObj_new] by simp

lemma read_points_length:
  "read_points rd n i s line ps = Some (s', l', ps') \<Longrightarrow> length ps' = length ps + nat (n - i)"
proof (induction "nat (n - i)" arbitrary: i s line ps)
  case 0
  then show ?case by (simp split: if_splits)
next
  case (Suc k)
  then have lt: "i < n" by simp
  obtain s1 l1 where gl: "getline s line = (s1, l1)" by fastforce
  have "read_points rd n (i + 1) s1 l1 (ps @ [read_point rd l1]) = Some (s', l', ps')"
    using Suc.prems lt gl by simp
  from Suc.hyps(1) [OF _ this] Suc.hyps(2) show ?case by simp
qed

text \<open>
  C39: \<open>Curve::readFromFile\<close> never checks the stream after the count: for any count
  that fits in an \<open>int\<close> and whatever follows it, even nothing, it returns \<open>true\<close> with a
  curve of exactly that many points, for every float reader, against the specification's
  format error for truncated data.
\<close>

theorem curve_read_truncated_accepted:
  assumes g: "good s" and n: "0 \<le> n" "n < 2 ^ 31"
  shows "\<exists>s' c'. curve_readFromFile rd c (s\<lparr>is_rest := key_curve @ nl # put_int n @ nl # t\<rparr>) = Some (s', c', True) \<and>
                length (curvePoints c') = nat n"
proof -
  have g1: "getline (s\<lparr>is_rest := key_curve @ nl # (put_int n @ nl # t)\<rparr>) [] = (s\<lparr>is_rest := put_int n @ nl # t\<rparr>, key_curve)"
    by (rule getline_line [OF g]) (simp add: key_curve_def nl_def)
  have g2: "getline (s\<lparr>is_rest := put_int n @ nl # t\<rparr>) key_curve = (s\<lparr>is_rest := t\<rparr>, put_int n)"
    by (rule getline_line [OF g put_int_no_nl])
  have st: "stoi (put_int n) = Some n" using n by (simp add: stoi_put_int)
  obtain s' l' ps where r: "read_points rd n 0 (s\<lparr>is_rest := t\<rparr>) (put_int n) [] = Some (s', l', ps)"
    using read_points_some by (metis prod_cases3)
  have "length ps = nat n" using read_points_length [OF r] by simp
  then show ?thesis by (simp add: curve_readFromFile_def Let_def g1 g2 st r)
qed

theorem curve_read_truncated_accepted_witness:
  "good (istream_of []) \<and>
   (\<exists>s' c'. curve_readFromFile rd_int (Curve_new 0) ((istream_of [])\<lparr>is_rest := key_curve @ nl # put_int 2 @ nl # []\<rparr>) =
              Some (s', c', True) \<and> length (curvePoints c') = 2)"
  using curve_read_truncated_accepted [OF good_istream_of, of 2 rd_int "Curve_new 0" "[]"] by simp

end
