(* ===== verification/Transforms.thy ===== *)
theory Transforms
  imports Vec
begin

text \<open>
  The \<open>QMatrix4x4\<close> transforms of the view (src/Source/Controller/RenderState.cpp). Every
  matrix the program builds is made from the identity by \<open>scale\<close>, \<open>translate\<close> and
  \<open>ortho\<close>, products and inverses, so it scales each axis and translates: the record
  \<open>QMatrix\<close> holds the three diagonal entries and the translation column, and the
  operations are Qt's on such matrices (each of \<open>scale\<close>, \<open>translate\<close>, \<open>ortho\<close>
  multiplies on the right, \<open>ortho\<close> leaves the matrix unchanged for an empty range;
  \<open>inverted\<close> gives the identity for a singular matrix).
\<close>

record QMatrix =
  q_sx :: real
  q_sy :: real
  q_sz :: real
  q_tx :: real
  q_ty :: real
  q_tz :: real

definition mat_id :: QMatrix where
  "mat_id = \<lparr>q_sx = 1, q_sy = 1, q_sz = 1, q_tx = 0, q_ty = 0, q_tz = 0\<rparr>"

definition mat_mul :: "QMatrix \<Rightarrow> QMatrix \<Rightarrow> QMatrix" where
  "mat_mul a b =
     \<lparr>q_sx = q_sx a * q_sx b, q_sy = q_sy a * q_sy b, q_sz = q_sz a * q_sz b,
      q_tx = q_sx a * q_tx b + q_tx a, q_ty = q_sy a * q_ty b + q_ty a, q_tz = q_sz a * q_tz b + q_tz a\<rparr>"

definition mat_scale :: "QMatrix \<Rightarrow> real \<Rightarrow> real \<Rightarrow> real \<Rightarrow> QMatrix" where
  "mat_scale m x y z = mat_mul m \<lparr>q_sx = x, q_sy = y, q_sz = z, q_tx = 0, q_ty = 0, q_tz = 0\<rparr>"

definition mat_translate :: "QMatrix \<Rightarrow> real \<Rightarrow> real \<Rightarrow> real \<Rightarrow> QMatrix" where
  "mat_translate m x y z = mat_mul m \<lparr>q_sx = 1, q_sy = 1, q_sz = 1, q_tx = x, q_ty = y, q_tz = z\<rparr>"

definition mat_ortho :: "QMatrix \<Rightarrow> real \<Rightarrow> real \<Rightarrow> real \<Rightarrow> real \<Rightarrow> real \<Rightarrow> real \<Rightarrow> QMatrix" where
  "mat_ortho m l r b t n f =
     (if l = r \<or> b = t \<or> n = f then m
      else mat_mul m \<lparr>q_sx = 2 / (r - l), q_sy = 2 / (t - b), q_sz = -2 / (f - n),
                      q_tx = - (r + l) / (r - l), q_ty = - (t + b) / (t - b),
                      q_tz = - (f + n) / (f - n)\<rparr>)"

definition mat_det :: "QMatrix \<Rightarrow> real" where
  "mat_det m = q_sx m * q_sy m * q_sz m"

definition mat_inverted :: "QMatrix \<Rightarrow> QMatrix" where
  "mat_inverted m =
     (if mat_det m = 0 then mat_id
      else \<lparr>q_sx = 1 / q_sx m, q_sy = 1 / q_sy m, q_sz = 1 / q_sz m,
            q_tx = - q_tx m / q_sx m, q_ty = - q_ty m / q_sy m, q_tz = - q_tz m / q_sz m\<rparr>)"

text \<open>A matrix applied to a point \<open>(x, y, z)\<close> (\<open>QMatrix4x4 * QVector3D\<close>, with \<open>w = 1\<close>).\<close>

definition mat_map :: "QMatrix \<Rightarrow> real \<times> real \<times> real \<Rightarrow> real \<times> real \<times> real" where
  "mat_map m p = (case p of (x, y, z) \<Rightarrow> (q_sx m * x + q_tx m, q_sy m * y + q_ty m, q_sz m * z + q_tz m))"

text \<open>\<open>RenderState::getScale\<close>: the square root of the absolute determinant.\<close>

definition getScale :: "QMatrix \<Rightarrow> real" where
  "getScale m = sqrt \<bar>mat_det m\<bar>"

section \<open>Matrix lemmas\<close>

lemma mat_map_mul [simp]: "mat_map (mat_mul a b) p = mat_map a (mat_map b p)"
  by (cases p) (simp add: mat_map_def mat_mul_def algebra_simps)

lemma mat_mul_assoc: "mat_mul (mat_mul a b) c = mat_mul a (mat_mul b c)"
  by (simp add: mat_mul_def algebra_simps)

lemma mat_mul_id [simp]: "mat_mul mat_id m = m" "mat_mul m mat_id = m"
  by (simp_all add: mat_mul_def mat_id_def)

lemma mat_map_inverted:
  "mat_det m \<noteq> 0 \<Longrightarrow> mat_map (mat_inverted m) (mat_map m p) = p"
  by (cases p) (simp add: mat_map_def mat_inverted_def mat_det_def field_simps)

lemma mat_det_mul [simp]: "mat_det (mat_mul a b) = mat_det a * mat_det b"
  by (simp add: mat_det_def mat_mul_def)

lemma mat_map_inverted_right:
  "mat_det m \<noteq> 0 \<Longrightarrow> mat_map m (mat_map (mat_inverted m) p) = p"
  by (cases p) (simp add: mat_map_def mat_inverted_def mat_det_def field_simps)

text \<open>Applying \<open>b\<close> after the inverse of \<open>a b\<close> undoes \<open>a\<close> alone.\<close>

lemma mat_map_inverted_mul:
  assumes "mat_det a \<noteq> 0" "mat_det b \<noteq> 0"
  shows "mat_map b (mat_map (mat_inverted (mat_mul a b)) p) = mat_map (mat_inverted a) p"
proof -
  have "mat_det (mat_mul a b) \<noteq> 0" using assms by simp
  then have "mat_map a (mat_map b (mat_map (mat_inverted (mat_mul a b)) p)) = p"
    using mat_map_inverted_right by (metis mat_map_mul)
  then show ?thesis using mat_map_inverted assms(1) by metis
qed

end
