(* ===== verification/RenderState.thy ===== *)
theory RenderState
  imports Transforms
begin

text \<open>
  The image windowing of \<open>RenderState\<close> (src/Source/Controller/RenderState.cpp): the
  normalised intensity range of the loaded image, and the window (level and width) that
  the image shader maps to the display range; the windowing drag of
  \<open>GL_View::mouseMoveEvent\<close> (src/Source/View/GL_View.cpp) and the reset on loading in
  \<open>Controller\<close>; and the view transforms between image, world, view, viewport and window
  coordinates (\<open>QMatrix4x4\<close> values, theory Transforms) with the scales read off them. The
  render flags, the scalar members and the transforms are fields of the record; the
  colours are Qt values and not modelled.
\<close>

record RenderState =
  imageRendererNeedsUpdate :: bool
  contourRendererNeedsUpdate :: bool
  activeCurveRendererNeedsUpdate :: bool
  allNeedUpdate :: bool
  isContourVisible :: bool
  maxPointSpacingInWindowPixels :: real
  imageMinValue :: real
  imageMaxValue :: real
  windowingWidth :: real
  windowingLevel :: real
  interpolateImage :: bool
  winWidth :: int
  winHeight :: int
  viewToViewport :: QMatrix
  worldToView :: QMatrix
  worldToViewport :: QMatrix
  imageToWorld :: QMatrix
  imageToView :: QMatrix
  imageToViewport :: QMatrix
  viewportToWindow :: QMatrix
  windowToWorld :: QMatrix
  viewportToWindowScale :: real
  windowToWorldScale :: real
  windowToImageScale :: real

definition RenderState_new :: RenderState where
  "RenderState_new =
     \<lparr>imageRendererNeedsUpdate = False, contourRendererNeedsUpdate = False,
      activeCurveRendererNeedsUpdate = False, allNeedUpdate = True, isContourVisible = True,
      maxPointSpacingInWindowPixels = 1, imageMinValue = 0, imageMaxValue = 1,
      windowingWidth = 1, windowingLevel = 0.5, interpolateImage = False, winWidth = 1, winHeight = 1,
      viewToViewport = mat_id, worldToView = mat_id, worldToViewport = mat_id, imageToWorld = mat_id,
      imageToView = mat_id, imageToViewport = mat_id, viewportToWindow = mat_id, windowToWorld = mat_id,
      viewportToWindowScale = 1, windowToWorldScale = 1, windowToImageScale = 1\<rparr>"

text \<open>\<open>setWindowingRange\<close>: order the two values, then clamp them to \<open>[0, 1]\<close>.\<close>

definition setWindowingRange :: "RenderState \<Rightarrow> real \<Rightarrow> real \<Rightarrow> RenderState" where
  "setWindowingRange rs normalizedMinValue normalizedMaxValue =
     (let (lo, hi) = (if normalizedMinValue > normalizedMaxValue then (normalizedMaxValue, normalizedMinValue)
                      else (normalizedMinValue, normalizedMaxValue))
      in rs\<lparr>imageMinValue := max 0 lo, imageMaxValue := min 1 hi\<rparr>)"

definition setWindowing :: "RenderState \<Rightarrow> real \<Rightarrow> real \<Rightarrow> RenderState" where
  "setWindowing rs level width = rs\<lparr>windowingLevel := level, windowingWidth := width\<rparr>"

definition setDefaultWindowing :: "RenderState \<Rightarrow> RenderState" where
  "setDefaultWindowing rs =
     rs\<lparr>windowingLevel := 0.5 * (imageMinValue rs + imageMaxValue rs),
        windowingWidth := imageMaxValue rs - imageMinValue rs\<rparr>"

text \<open>
  The two corrections of \<open>incrementWindowing\<close> on (width, level): a window that reaches below
  the minimum is cut at the minimum, then one that reaches above the maximum is cut there.
\<close>

definition clamp_low :: "real \<Rightarrow> real \<times> real \<Rightarrow> real \<times> real" where
  "clamp_low mn wl =
     (case wl of (width, level) \<Rightarrow>
        if level - 0.5 * width < mn then (let w = level + 0.5 * width - mn in (w, mn + 0.5 * w))
        else (width, level))"

definition clamp_high :: "real \<Rightarrow> real \<times> real \<Rightarrow> real \<times> real" where
  "clamp_high mx wl =
     (case wl of (width, level) \<Rightarrow>
        if level + 0.5 * width > mx then (let w = mx - (level - 0.5 * width) in (w, mx - 0.5 * w))
        else (width, level))"

text \<open>
  \<open>incrementWindowing\<close>: shift the level and shrink the width by the increments scaled
  by half the image range, clip the width at 0, then apply the two corrections.
\<close>

definition incrementWindowing :: "RenderState \<Rightarrow> real \<Rightarrow> real \<Rightarrow> RenderState" where
  "incrementWindowing rs brightnessIncr contrastIncr =
     (let mn = imageMinValue rs; mx = imageMaxValue rs;
          levelIncr = 0.5 * (mx - mn);
          level = windowingLevel rs + levelIncr * brightnessIncr;
          width = windowingWidth rs - levelIncr * contrastIncr;
          width = max 0 width
      in case clamp_high mx (clamp_low mn (width, level)) of
           (width, level) \<Rightarrow> rs\<lparr>windowingLevel := level, windowingWidth := width\<rparr>)"

text \<open>
  The windowing drag of \<open>GL_View\<close>: the press stores the level and width, each move
  restores them and applies the increments of the mouse offset scaled by the window size.
\<close>

definition windowing_drag :: "RenderState \<Rightarrow> real \<times> real \<Rightarrow> int \<Rightarrow> int \<Rightarrow> int \<Rightarrow> int \<Rightarrow> RenderState" where
  "windowing_drag rs mouseDown dx dy w h =
     (let contrastIncr = real_of_int dx / real_of_int (max 1 w);
          brightnessIncr = real_of_int dy / real_of_int (max 1 h);
          rs = setWindowing rs (fst mouseDown) (snd mouseDown);
          rs = incrementWindowing rs brightnessIncr contrastIncr
      in rs\<lparr>imageRendererNeedsUpdate := True\<rparr>)"

text \<open>\<open>Controller::updateForLoaded\<close>: the range from the image statistics, then the default window.\<close>

definition windowing_for_loaded :: "RenderState \<Rightarrow> real \<Rightarrow> real \<Rightarrow> RenderState" where
  "windowing_for_loaded rs minValue maxValue =
     (setDefaultWindowing (setWindowingRange rs minValue maxValue))\<lparr>isContourVisible := True\<rparr>"

section \<open>View transforms\<close>

text \<open>
  \<open>setWorldToViewport\<close>: the window-to-world transform is the inverse of viewport-to-window
  after world-to-viewport, the model-view-projection matrix is world-to-viewport after
  image-to-world, and the two scales are read off the matrices with \<open>getScale\<close>.
\<close>

definition setWorldToViewport :: "RenderState \<Rightarrow> QMatrix \<Rightarrow> RenderState" where
  "setWorldToViewport rs transform =
     (let rs = rs\<lparr>worldToViewport := transform,
                  windowToWorld := mat_inverted (mat_mul (viewportToWindow rs) transform)\<rparr>;
          rs = rs\<lparr>windowToWorldScale := getScale (windowToWorld rs),
                  imageToViewport := mat_mul transform (imageToWorld rs)\<rparr>;
          imageToViewportScale = getScale (imageToViewport rs);
          imageToWindowScale = viewportToWindowScale rs * imageToViewportScale
      in rs\<lparr>windowToImageScale := 1 / max flt_epsilon imageToWindowScale\<rparr>)"

definition setWorldToView :: "RenderState \<Rightarrow> QMatrix \<Rightarrow> RenderState" where
  "setWorldToView rs m =
     (let rs = rs\<lparr>worldToView := m, imageToView := mat_mul m (imageToWorld rs)\<rparr>
      in setWorldToViewport rs (mat_mul (viewToViewport rs) m))"

definition resetWorldToView :: "RenderState \<Rightarrow> RenderState" where
  "resetWorldToView rs = setWorldToView rs mat_id"

text \<open>\<open>centerImageInViewport\<close>: the image's longer side spans the world square \<open>[-1, 1]\<close>.\<close>

definition centerImageInViewport :: "RenderState \<Rightarrow> int \<Rightarrow> int \<Rightarrow> RenderState" where
  "centerImageInViewport rs w h =
     (let maxD = max 1 (real_of_int (if w > h then w else h));
          m = mat_translate (mat_scale mat_id (2 / maxD) (-2 / maxD) 1) (-0.5 * real_of_int w) (-0.5 * real_of_int h) 0
      in resetWorldToView (rs\<lparr>imageToWorld := m\<rparr>))"

text \<open>
  \<open>resetProjectionMatrix\<close>: the window size, an orthographic projection of the view
  rectangle \<open>[-W, W] \<times> [-H, H]\<close> (the window's sides over the longer one), and the map
  to window pixels, a translation to the centre and a scale by half the longer side.
\<close>

definition resetProjectionMatrix :: "RenderState \<Rightarrow> int \<Rightarrow> int \<Rightarrow> RenderState" where
  "resetProjectionMatrix rs w h =
     (let maxD = max 1 (real_of_int (if w > h then w else h));
          W = real_of_int w / maxD; H = real_of_int h / maxD;
          s = 0.5 * maxD;
          rs = rs\<lparr>winWidth := w, winHeight := h, viewToViewport := mat_ortho mat_id (-W) W (-H) H (-1) 1,
                  viewportToWindow := mat_scale (mat_translate mat_id (0.5 * real_of_int w) (0.5 * real_of_int h) 0) s (-s) 1,
                  viewportToWindowScale := s\<rparr>
      in setWorldToViewport rs (mat_mul (viewToViewport rs) (worldToView rs)))"

definition convertWindowToWorld :: "RenderState \<Rightarrow> real \<times> real \<times> real \<Rightarrow> real \<times> real \<times> real" where
  "convertWindowToWorld rs p = mat_map (windowToWorld rs) p"

text \<open>
  \<open>convertWindowToImage\<close>: \<open>QVector3D::unproject\<close> with the image-to-view and projection
  matrices and the window rectangle: the point in normalised device coordinates mapped
  back through the inverse of their product.
\<close>

definition convertWindowToImage :: "RenderState \<Rightarrow> real \<times> real \<times> real \<Rightarrow> real \<times> real \<times> real" where
  "convertWindowToImage rs p =
     (case p of (x, y, z) \<Rightarrow>
        mat_map (mat_inverted (mat_mul (viewToViewport rs) (imageToView rs)))
          (2 * (x / real_of_int (winWidth rs)) - 1, 2 * (y / real_of_int (winHeight rs)) - 1, 2 * z - 1))"

definition mvpMatrix :: "RenderState \<Rightarrow> QMatrix" where
  "mvpMatrix rs = imageToViewport rs"

text \<open>
  The window pixel OpenGL draws a viewport point at: \<open>glViewport(0, 0, w, h)\<close> maps the
  normalised device square \<open>[-1, 1]\<^sup>2\<close> onto the \<open>w\<close> by \<open>h\<close> window, and Qt counts window
  rows from the top.
\<close>

definition viewport_pixel :: "int \<Rightarrow> int \<Rightarrow> real \<times> real \<times> real \<Rightarrow> real \<times> real" where
  "viewport_pixel w h p =
     (case p of (x, y, z) \<Rightarrow> ((x + 1) * real_of_int w / 2, (1 - y) * real_of_int h / 2))"


section \<open>The view transforms\<close>

lemma transform_ops_flags [simp]:
  "allNeedUpdate (setWorldToViewport rs t) = allNeedUpdate rs"
  "imageRendererNeedsUpdate (setWorldToViewport rs t) = imageRendererNeedsUpdate rs"
  "isContourVisible (setWorldToViewport rs t) = isContourVisible rs"
  "interpolateImage (setWorldToViewport rs t) = interpolateImage rs"
  "maxPointSpacingInWindowPixels (setWorldToViewport rs t) = maxPointSpacingInWindowPixels rs"
  "windowingLevel (setWorldToViewport rs t) = windowingLevel rs"
  "windowingWidth (setWorldToViewport rs t) = windowingWidth rs"
  "imageMinValue (setWorldToViewport rs t) = imageMinValue rs"
  "imageMaxValue (setWorldToViewport rs t) = imageMaxValue rs"
  by (simp_all add: setWorldToViewport_def Let_def)

lemma resetProjectionMatrix_transforms:
  assumes "0 < w" "0 < h"
  defines "d \<equiv> real_of_int (max w h)"
  shows "viewportToWindow (resetProjectionMatrix rs w h) =
           \<lparr>q_sx = d / 2, q_sy = - (d / 2), q_sz = 1, q_tx = real_of_int w / 2, q_ty = real_of_int h / 2, q_tz = 0\<rparr>"
    "viewToViewport (resetProjectionMatrix rs w h) =
           \<lparr>q_sx = d / real_of_int w, q_sy = d / real_of_int h, q_sz = -1, q_tx = 0, q_ty = 0, q_tz = 0\<rparr>"
    "worldToViewport (resetProjectionMatrix rs w h) = mat_mul (viewToViewport (resetProjectionMatrix rs w h)) (worldToView rs)"
    "windowToWorld (resetProjectionMatrix rs w h) =
       mat_inverted (mat_mul (viewportToWindow (resetProjectionMatrix rs w h)) (worldToViewport (resetProjectionMatrix rs w h)))"
proof -
  have m: "max 1 (real_of_int (if w > h then w else h)) = d" using assms by (simp add: d_def max_def)
  show "viewportToWindow (resetProjectionMatrix rs w h) =
           \<lparr>q_sx = d / 2, q_sy = - (d / 2), q_sz = 1, q_tx = real_of_int w / 2, q_ty = real_of_int h / 2, q_tz = 0\<rparr>"
    by (simp add: resetProjectionMatrix_def setWorldToViewport_def Let_def m mat_scale_def mat_translate_def mat_mul_def mat_id_def)
  show "viewToViewport (resetProjectionMatrix rs w h) =
           \<lparr>q_sx = d / real_of_int w, q_sy = d / real_of_int h, q_sz = -1, q_tx = 0, q_ty = 0, q_tz = 0\<rparr>"
    using assms by (simp add: resetProjectionMatrix_def setWorldToViewport_def Let_def m mat_ortho_def mat_mul_def mat_id_def field_simps)
qed (simp_all add: resetProjectionMatrix_def setWorldToViewport_def Let_def)


lemma window_to_world_pixel:
  assumes "0 < w" "0 < h" "mat_det (worldToView rs) \<noteq> 0"
  defines "d \<equiv> real_of_int (max w h)"
  shows "viewport_pixel w h (mat_map (worldToViewport (resetProjectionMatrix rs w h))
            (convertWindowToWorld (resetProjectionMatrix rs w h) (x, y, 0))) =
         (((x - real_of_int w / 2) / (d / 2) + 1) * real_of_int w / 2, (1 + (y - real_of_int h / 2) / (d / 2)) * real_of_int h / 2)"
proof -
  let ?r = "resetProjectionMatrix rs w h"
  have d: "0 < d" using assms by (simp add: d_def)
  have dv: "mat_det (viewportToWindow ?r) \<noteq> 0" "mat_det (worldToViewport ?r) \<noteq> 0"
    using assms d by (simp_all add: resetProjectionMatrix_transforms(1-3) [OF assms(1,2)] d_def)
                     (simp_all add: mat_det_def)
  have "mat_map (worldToViewport ?r) (convertWindowToWorld ?r (x, y, 0)) = mat_map (mat_inverted (viewportToWindow ?r)) (x, y, 0)"
    unfolding convertWindowToWorld_def resetProjectionMatrix_transforms(4) [OF assms(1,2)]
    by (rule mat_map_inverted_mul [OF dv])
  then show ?thesis using d
    by (simp add: resetProjectionMatrix_transforms(1) [OF assms(1,2)] d_def mat_inverted_def mat_det_def mat_map_def
                  viewport_pixel_def field_simps)
qed

text \<open>
  C9: \<open>convertWindowToWorld\<close> inverts the map OpenGL draws with only in a square window.
  \<open>resetProjectionMatrix\<close> scales both axes of the viewport-to-window transform by half
  the longer side, while the viewport fills the window, so the world point found under a
  window pixel is drawn back at that pixel, for every pixel, exactly when the window is
  square (whatever zoom or pan the world-to-view transform holds).
\<close>

theorem convertWindowToWorld_square:
  assumes "0 < w" "0 < h" "mat_det (worldToView rs) \<noteq> 0"
  shows "(\<forall>x y. viewport_pixel w h (mat_map (worldToViewport (resetProjectionMatrix rs w h))
            (convertWindowToWorld (resetProjectionMatrix rs w h) (x, y, 0))) = (x, y)) \<longleftrightarrow> w = h"
proof
  assume all: "\<forall>x y. viewport_pixel w h (mat_map (worldToViewport (resetProjectionMatrix rs w h))
            (convertWindowToWorld (resetProjectionMatrix rs w h) (x, y, 0))) = (x, y)"
  have "viewport_pixel w h (mat_map (worldToViewport (resetProjectionMatrix rs w h))
            (convertWindowToWorld (resetProjectionMatrix rs w h) (0, 0, 0))) = (0, 0)"
    using all by blast
  then have "(((0 - real_of_int w / 2) / (real_of_int (max w h) / 2) + 1) * real_of_int w / 2,
              (1 + (0 - real_of_int h / 2) / (real_of_int (max w h) / 2)) * real_of_int h / 2) = (0, 0)"
    by (simp only: window_to_world_pixel [OF assms])
  then show "w = h" using assms(1,2) by (auto simp: field_simps max_def split: if_splits)
next
  assume "w = h"
  then show "\<forall>x y. viewport_pixel w h (mat_map (worldToViewport (resetProjectionMatrix rs w h))
            (convertWindowToWorld (resetProjectionMatrix rs w h) (x, y, 0))) = (x, y)"
    using window_to_world_pixel [OF assms] assms(1) by (simp add: field_simps)
qed

theorem convertWindowToWorld_square_witness:
  "0 < (200::int) \<and> 0 < (100::int) \<and> mat_det (worldToView RenderState_new) \<noteq> 0 \<and>
   \<not> (\<forall>x y. viewport_pixel 200 100 (mat_map (worldToViewport (resetProjectionMatrix RenderState_new 200 100))
            (convertWindowToWorld (resetProjectionMatrix RenderState_new 200 100) (x, y, 0))) = (x, y))"
  using convertWindowToWorld_square [of 200 100 RenderState_new]
  by (simp add: RenderState_new_def mat_det_def mat_id_def)

text \<open>
  In a window of 200 by 100 pixels the top left corner is converted to the world point
  \<open>(-1, 1/4)\<close>, where the view shows \<open>(-1, 1/2)\<close> there: the zoom of \<open>GL_View\<close> is anchored
  at the converted point, not at the one under the mouse.
\<close>

lemma window_corner_world:
  "convertWindowToWorld (resetProjectionMatrix RenderState_new 200 100) (0, 0, 0) = (-1, 1 / 4, 0)"
  by (simp add: convertWindowToWorld_def resetProjectionMatrix_def setWorldToViewport_def RenderState_new_def
                Let_def mat_ortho_def mat_scale_def mat_translate_def mat_mul_def mat_id_def mat_inverted_def
                mat_det_def mat_map_def)

lemma centered_transforms:
  fixes rs :: RenderState
  assumes "0 < w" "0 < h" "0 < iw" "0 < ih"
  defines "r \<equiv> centerImageInViewport (resetProjectionMatrix rs w h) iw ih"
    and "d \<equiv> real_of_int (max w h)" and "mi \<equiv> real_of_int (max iw ih)"
  shows "imageToView r = \<lparr>q_sx = 2 / mi, q_sy = - (2 / mi), q_sz = 1,
                          q_tx = - (real_of_int iw / mi), q_ty = real_of_int ih / mi, q_tz = 0\<rparr>"
    "viewToViewport r = viewToViewport (resetProjectionMatrix rs w h)"
    "imageToViewport r = mat_mul (viewToViewport r) (imageToView r)"
    "viewportToWindowScale r = d / 2"
    "winWidth r = w" "winHeight r = h"
    "windowToImageScale r = 1 / max flt_epsilon (d / 2 * getScale (imageToViewport r))"
proof -
  have m: "max 1 (real_of_int (if iw > ih then iw else ih)) = mi" using assms by (simp add: mi_def max_def)
  have m2: "max 1 (real_of_int (if w > h then w else h)) = d" using assms by (simp add: d_def max_def)
  show "imageToView r = \<lparr>q_sx = 2 / mi, q_sy = - (2 / mi), q_sz = 1,
                          q_tx = - (real_of_int iw / mi), q_ty = real_of_int ih / mi, q_tz = 0\<rparr>"
    by (simp add: r_def centerImageInViewport_def resetWorldToView_def setWorldToView_def setWorldToViewport_def
                  Let_def m mat_scale_def mat_translate_def mat_mul_def mat_id_def)
  have s: "viewportToWindowScale r = d / 2"
    by (simp add: r_def centerImageInViewport_def resetWorldToView_def setWorldToView_def setWorldToViewport_def
                  resetProjectionMatrix_def Let_def m2)
  then show "viewportToWindowScale r = d / 2" .
  show "windowToImageScale r = 1 / max flt_epsilon (d / 2 * getScale (imageToViewport r))"
  proof -
    have "windowToImageScale r = 1 / max flt_epsilon (viewportToWindowScale r * getScale (imageToViewport r))"
      by (simp add: r_def centerImageInViewport_def resetWorldToView_def setWorldToView_def setWorldToViewport_def Let_def)
    then show ?thesis by (simp only: s)
  qed
qed (simp_all add: r_def centerImageInViewport_def resetWorldToView_def setWorldToView_def setWorldToViewport_def
                   resetProjectionMatrix_def Let_def)


lemma sqrt_mul_le_max:
  assumes "0 < w" "0 < h"
  shows "sqrt (real_of_int w * real_of_int h) \<le> real_of_int (max w h)"
proof -
  have "real_of_int w * real_of_int h \<le> real_of_int (max w h) * real_of_int (max w h)"
    using assms by (intro mult_mono) auto
  then have "sqrt (real_of_int w * real_of_int h) \<le> sqrt (real_of_int (max w h) * real_of_int (max w h))"
    by (rule real_sqrt_le_mono)
  then show ?thesis using assms by simp
qed

lemma centered_windowToImageScale:
  fixes rs :: RenderState
  assumes "0 < w" "0 < h" "0 < iw" "0 < ih" "iw \<le> 8388608" "ih \<le> 8388608"
  shows "windowToImageScale (centerImageInViewport (resetProjectionMatrix rs w h) iw ih) =
           real_of_int (max iw ih) * sqrt (real_of_int w * real_of_int h) / (real_of_int (max w h))\<^sup>2"
proof -
  let ?r = "centerImageInViewport (resetProjectionMatrix rs w h) iw ih"
  let ?d = "real_of_int (max w h)" and ?mi = "real_of_int (max iw ih)" and ?sw = "sqrt (real_of_int w * real_of_int h)"
  define q where "q = 2 * ?d / (?mi * ?sw)"
  have pos: "0 < ?d" "0 < ?mi" "0 < ?sw" using assms by auto
  then have q0: "0 \<le> q" by (simp add: q_def)
  have sw2: "?sw * ?sw = real_of_int w * real_of_int h" using assms by simp
  have "mat_det (imageToViewport ?r) = q * q"
    using assms pos sw2 unfolding q_def
    by (simp add: centered_transforms resetProjectionMatrix_transforms mat_det_def mat_mul_def field_simps)
  then have gs: "getScale (imageToViewport ?r) = q"
    using q0 by (simp add: getScale_def)
  have "?sw \<le> ?d" using sqrt_mul_le_max assms by blast
  then have "?d / ?mi \<le> ?d / 2 * q" using pos by (simp add: q_def field_simps power2_eq_square mult_left_mono)
  moreover have "flt_epsilon \<le> ?d / ?mi"
    using pos assms by (simp add: flt_epsilon_def field_simps max_def)
  ultimately have "flt_epsilon \<le> ?d / 2 * q" by linarith
  then have "max flt_epsilon (?d / 2 * q) = ?d / 2 * q" by (rule max_absorb2)
  then show ?thesis using centered_transforms(7) [OF assms(1-4)] gs pos
    by (simp add: q_def power2_eq_square field_simps)
qed

lemma centered_window_to_image_step:
  fixes rs :: RenderState
  assumes "0 < w" "0 < h" "0 < iw" "0 < ih"
  shows "fst (convertWindowToImage (centerImageInViewport (resetProjectionMatrix rs w h) iw ih) (x + 1, y, z)) -
         fst (convertWindowToImage (centerImageInViewport (resetProjectionMatrix rs w h) iw ih) (x, y, z)) =
         real_of_int (max iw ih) / real_of_int (max w h)"
proof -
  have "max w h \<noteq> 0" "max iw ih \<noteq> 0" using assms by auto
  then show ?thesis using assms
  by (simp add: convertWindowToImage_def centered_transforms resetProjectionMatrix_transforms mat_det_def
                mat_inverted_def mat_mul_def mat_map_def field_simps)
qed

text \<open>
  C25: the window-to-contour scale that sizes the drawing brush, the selection radius
  and the point spacing is the image distance of one window pixel only in a square
  window. \<open>getScale\<close> assumes a uniform scale, but the projection scales the two axes
  by the window's sides over its longer one: with an image centred in a window of
  \<open>w\<close> by \<open>h\<close> pixels, the scale equals the step between the image points
  \<open>convertWindowToImage\<close> gives two neighbouring pixels exactly when \<open>w = h\<close>.
\<close>

theorem windowToImageScale_square:
  fixes rs :: RenderState
  assumes "0 < w" "0 < h" "0 < iw" "0 < ih" "iw \<le> 8388608" "ih \<le> 8388608"
  shows "windowToImageScale (centerImageInViewport (resetProjectionMatrix rs w h) iw ih) =
           fst (convertWindowToImage (centerImageInViewport (resetProjectionMatrix rs w h) iw ih) (x + 1, y, z)) -
           fst (convertWindowToImage (centerImageInViewport (resetProjectionMatrix rs w h) iw ih) (x, y, z))
         \<longleftrightarrow> w = h"
proof -
  let ?d = "real_of_int (max w h)" and ?mi = "real_of_int (max iw ih)" and ?sw = "sqrt (real_of_int w * real_of_int h)"
  have pos: "0 < ?d" "0 < ?mi" using assms by auto
  have "(?mi * ?sw / ?d\<^sup>2 = ?mi / ?d) \<longleftrightarrow> ?sw = ?d"
    using pos by (auto simp: power2_eq_square field_simps)
  also have "\<dots> \<longleftrightarrow> ?sw = sqrt (?d * ?d)" using pos by simp
  also have "\<dots> \<longleftrightarrow> real_of_int w * real_of_int h = ?d * ?d" by (rule real_sqrt_eq_iff)
  also have "\<dots> \<longleftrightarrow> w = h"
  proof
    assume e: "real_of_int w * real_of_int h = ?d * ?d"
    show "w = h"
    proof (cases "w \<le> h")
      case True
      then show ?thesis using e assms by (simp add: max_def)
    next
      case False
      then show ?thesis using e assms by (simp add: max_def)
    qed
  qed (simp add: max_def)
  finally show ?thesis
    by (simp only: centered_windowToImageScale [OF assms] centered_window_to_image_step [OF assms(1-4)])
qed

theorem windowToImageScale_square_witness:
  "0 < (200::int) \<and> 0 < (100::int) \<and> 0 < (100::int) \<and> 0 < (100::int) \<and> (100::int) \<le> 8388608 \<and>
   \<not> (windowToImageScale (centerImageInViewport (resetProjectionMatrix RenderState_new 200 100) 100 100) =
         fst (convertWindowToImage (centerImageInViewport (resetProjectionMatrix RenderState_new 200 100) 100 100) (0 + 1, 0, 0)) -
         fst (convertWindowToImage (centerImageInViewport (resetProjectionMatrix RenderState_new 200 100) 100 100) (0, 0, 0)))"
  using windowToImageScale_square [of 200 100 100 100 RenderState_new 0 0 0] by simp

text \<open>
  The same window of 200 by 100 pixels over an image of 100 by 100: one window pixel is
  half an image pixel, and the scale is \<open>sqrt 2 / 4\<close>, so a brush of radius \<open>r\<close> window
  pixels draws a curve of radius \<open>r / sqrt 2\<close> window pixels.
\<close>

lemma window_scale_nonsquare:
  "windowToImageScale (centerImageInViewport (resetProjectionMatrix RenderState_new 200 100) 100 100) = sqrt 2 / 4"
proof -
  have "sqrt (200 * 100 :: real) = sqrt (100 * 100) * sqrt 2"
    unfolding real_sqrt_mult [symmetric] by simp
  also have "\<dots> = 100 * sqrt 2" using real_sqrt_mult_self [of "100::real"] by simp
  finally have "sqrt (200 * 100 :: real) = 100 * sqrt 2" .
  then show ?thesis
    using centered_windowToImageScale [of 200 100 100 100 RenderState_new] by simp
qed

section \<open>The window stays in the image range\<close>

text \<open>The window \<open>[level - width/2, level + width/2]\<close> lies in the image range.\<close>

definition window_in_range :: "RenderState \<Rightarrow> bool" where
  "window_in_range rs \<longleftrightarrow> 0 \<le> windowingWidth rs \<and>
     imageMinValue rs \<le> windowingLevel rs - windowingWidth rs / 2 \<and>
     windowingLevel rs + windowingWidth rs / 2 \<le> imageMaxValue rs"

lemma setWindowingRange_range:
  "0 \<le> imageMinValue (setWindowingRange rs a b) \<and> imageMinValue (setWindowingRange rs a b) \<le> imageMaxValue (setWindowingRange rs a b) \<and>
   imageMaxValue (setWindowingRange rs a b) \<le> 1"
  if "0 \<le> a" "a \<le> 1" "0 \<le> b" "b \<le> 1"
  using that by (auto simp: setWindowingRange_def)

lemma default_in_range:
  "imageMinValue rs \<le> imageMaxValue rs \<Longrightarrow> window_in_range (setDefaultWindowing rs)"
  by (simp add: window_in_range_def setDefaultWindowing_def field_simps)

lemma window_clamp:
  fixes mn mx W L :: real
  assumes "mn \<le> mx" "0 \<le> W"
  shows "case clamp_high mx (clamp_low mn (W, L)) of (W2, L2) \<Rightarrow>
           (0 \<le> W2 \<longleftrightarrow> mn \<le> L + W / 2 \<and> L - W / 2 \<le> mx) \<and>
           (0 \<le> W2 \<longrightarrow> mn \<le> L2 - W2 / 2 \<and> L2 + W2 / 2 \<le> mx)"
  using assms by (auto simp: clamp_low_def clamp_high_def Let_def)

text \<open>
  C16: \<open>RenderState::incrementWindowing\<close> ends with a window of non-negative width exactly
  when the shifted and resized window still meets the image range, and the window then
  lies in the range; otherwise the clamping leaves a negative width.
\<close>

theorem incrementWindowing_window:
  assumes "imageMinValue rs \<le> imageMaxValue rs"
  shows "let mn = imageMinValue rs; mx = imageMaxValue rs;
             level = windowingLevel rs + 0.5 * (mx - mn) * b;
             width = max 0 (windowingWidth rs - 0.5 * (mx - mn) * c);
             rs' = incrementWindowing rs b c
         in (0 \<le> windowingWidth rs' \<longleftrightarrow> mn \<le> level + width / 2 \<and> level - width / 2 \<le> mx) \<and>
            (0 \<le> windowingWidth rs' \<longrightarrow> window_in_range rs')"
proof -
  let ?mn = "imageMinValue rs" and ?mx = "imageMaxValue rs"
  let ?L = "windowingLevel rs + 0.5 * (?mx - ?mn) * b"
  let ?W = "max 0 (windowingWidth rs - 0.5 * (?mx - ?mn) * c)"
  obtain W2 L2 where c: "clamp_high ?mx (clamp_low ?mn (?W, ?L)) = (W2, L2)" by fastforce
  have r: "incrementWindowing rs b c = rs\<lparr>windowingLevel := L2, windowingWidth := W2\<rparr>"
    using c by (simp add: incrementWindowing_def Let_def)
  have "(0 \<le> W2 \<longleftrightarrow> ?mn \<le> ?L + ?W / 2 \<and> ?L - ?W / 2 \<le> ?mx) \<and>
        (0 \<le> W2 \<longrightarrow> ?mn \<le> L2 - W2 / 2 \<and> L2 + W2 / 2 \<le> ?mx)"
    using window_clamp [OF assms, of ?W ?L] c by simp
  then show ?thesis by (simp add: r window_in_range_def Let_def)
qed

theorem incrementWindowing_window_witness:
  "imageMinValue (setDefaultWindowing RenderState_new) \<le> imageMaxValue (setDefaultWindowing RenderState_new) \<and>
   0 \<le> windowingWidth (incrementWindowing (setDefaultWindowing RenderState_new) (1 / 5) (1 / 10)) \<and>
   window_in_range (incrementWindowing (setDefaultWindowing RenderState_new) (1 / 5) (1 / 10))"
proof -
  have h: "imageMinValue (setDefaultWindowing RenderState_new) \<le> imageMaxValue (setDefaultWindowing RenderState_new)"
    by (simp add: setDefaultWindowing_def RenderState_new_def)
  have w: "0 \<le> windowingWidth (incrementWindowing (setDefaultWindowing RenderState_new) (1 / 5) (1 / 10))"
    by (simp add: incrementWindowing_def clamp_low_def clamp_high_def setDefaultWindowing_def RenderState_new_def Let_def)
  show ?thesis using incrementWindowing_window [OF h, of "1 / 5" "1 / 10"] h w by (simp add: Let_def)
qed

text \<open>
  A windowing drag inside a 100 by 100 window that makes the width negative: pressed with the
  window at the bottom of the range, moved up and right by the whole window size.
\<close>

lemma windowing_drag_negative_width:
  "windowingWidth (windowing_drag RenderState_new (1 / 20, 1 / 10) 100 (-100) 100 100) < 0"
  by (simp add: windowing_drag_def setWindowing_def incrementWindowing_def clamp_low_def clamp_high_def RenderState_new_def Let_def)

end
