(* ===== verification/ContourRenderer.thy ===== *)
theory ContourRenderer
  imports Vec
begin

text \<open>
  The contour renderer (src/Source/View/GL_ContourRenderer.cpp): the choice of shaders by
  renderer type, the shader parameters, and the geometry that \<open>setVertexBuffer\<close> builds
  for a list of sampled curves. A stroke is a set of cells of two triangles (six
  vertices): one cell per segment between consecutive points and one square cell around
  each point. A vertex is five floats (position, offset to the centreline, radius). The
  loops write the floats through a moving pointer into an array of
  \<open>maxNumCells * numFloatsPerCell\<close> floats; here the floats are a list, and a write past
  the end of the array is the error \<open>BufferOverflow\<close>; a use of the framebuffer pointer
  while it is \<open>nullptr\<close> is \<open>NullFbo\<close>. OpenGL calls (framebuffers, buffer upload,
  drawing) are state changes of the record or are not modelled.
\<close>

datatype render_error = BufferOverflow | NullFbo

datatype RendererType = Default | Antialiased | Centerline | Binary | DistToContour | DistToCenterline

text \<open>The shader sources of \<open>GL_ContourRenderer.h\<close>, by name.\<close>

datatype ShaderPair = Shaders_contourCenterline | Shaders_binaryContour | Shaders_distToContour
  | Shaders_distToCenterline | Shaders_antialiasedContour

record GL_ContourRenderer =
  cr_type :: RendererType
  antialiasingFilterWidth :: real
  centerlineRadius :: real
  maxDistFieldDistance :: real
  fboWidth :: int
  fboHeight :: int
  hasFbo :: bool
  shaderProgram :: "ShaderPair option"
  vertexBuffer :: "real list"
  numVertices :: int

definition shaders_of :: "RendererType \<Rightarrow> ShaderPair" where
  "shaders_of t =
     (case t of
        Centerline \<Rightarrow> Shaders_contourCenterline
      | Binary \<Rightarrow> Shaders_binaryContour
      | DistToContour \<Rightarrow> Shaders_distToContour
      | DistToCenterline \<Rightarrow> Shaders_distToCenterline
      | _ \<Rightarrow> Shaders_antialiasedContour)"

text \<open>
  The constructor: the program is kept only when it links (\<open>linked\<close>, an outcome of the
  OpenGL driver); otherwise it is deleted and \<open>m_shaderProgram\<close> is \<open>nullptr\<close>.
\<close>

definition GL_ContourRenderer_new :: "RendererType \<Rightarrow> bool \<Rightarrow> GL_ContourRenderer" where
  "GL_ContourRenderer_new t linked =
     \<lparr>cr_type = t, antialiasingFilterWidth = 0.8, centerlineRadius = 2, maxDistFieldDistance = 10,
      fboWidth = 0, fboHeight = 0, hasFbo = False,
      shaderProgram = (if linked then Some (shaders_of t) else None),
      vertexBuffer = [], numVertices = 0\<rparr>"

text \<open>\<open>setShaderData\<close>: the uniforms set for each type (the colour is a Qt value).\<close>

datatype Uniform = U_color | U_filterWidth real | U_radius real | U_maxDist real

definition setShaderData :: "GL_ContourRenderer \<Rightarrow> real \<Rightarrow> Uniform list" where
  "setShaderData r windowToContourScale =
     (let filterWidth = antialiasingFilterWidth r * windowToContourScale in
      case cr_type r of
        Centerline \<Rightarrow> [U_color, U_filterWidth filterWidth, U_radius (centerlineRadius r * windowToContourScale)]
      | Binary \<Rightarrow> [U_color]
      | DistToContour \<Rightarrow> [U_color, U_maxDist (maxDistFieldDistance r)]
      | DistToCenterline \<Rightarrow> [U_color, U_maxDist (maxDistFieldDistance r)]
      | _ \<Rightarrow> [U_color, U_filterWidth filterWidth])"

section \<open>Stroke geometry\<close>

text \<open>The widening of every cell beyond the stroke radius, by renderer type.\<close>

definition radiusOffset :: "GL_ContourRenderer \<Rightarrow> real \<Rightarrow> real" where
  "radiusOffset r windowToContourScale =
     (case cr_type r of
        Binary \<Rightarrow> 0
      | DistToContour \<Rightarrow> maxDistFieldDistance r
      | DistToCenterline \<Rightarrow> maxDistFieldDistance r
      | _ \<Rightarrow> antialiasingFilterWidth r * windowToContourScale)"

text \<open>
  The six vertices of a cell from its corner data: positions, unit offsets and radii,
  each vertex written as \<open>x + dX * (r + off), y + dY * (r + off), -dX * (r + off),
  -dY * (r + off), r\<close>.
\<close>

definition cell_floats :: "real \<Rightarrow> (real \<times> real \<times> real \<times> real \<times> real) list \<Rightarrow> real list" where
  "cell_floats off vs =
     concat (map (\<lambda>(x, y, r, dX, dY). [x + dX * (r + off), y + dY * (r + off), - dX * (r + off), - dY * (r + off), r]) vs)"

text \<open>
  The line cell between two points, or \<open>None\<close> when the squared length of the segment is
  at most the float epsilon (the \<open>continue\<close> of the loop).
\<close>

definition line_cell :: "real \<Rightarrow> CurvePoint \<Rightarrow> CurvePoint \<Rightarrow> real list option" where
  "line_cell off p0 p1 =
     (let x0 = vx (pos p0); y0 = vy (pos p0); r0 = radius p0;
          x1 = vx (pos p1); y1 = vy (pos p1); r1 = radius p1;
          dx = x1 - x0; dy = y1 - y0;
          len = dx * dx + dy * dy
      in if len \<le> flt_epsilon then None
         else (let len = sqrt len; px = - dy / len; py = dx / len
               in Some (cell_floats off
                    [(x0, y0, r0, - px, - py), (x1, y1, r1, - px, - py), (x1, y1, r1, px, py),
                     (x0, y0, r0, - px, - py), (x1, y1, r1, px, py), (x0, y0, r0, px, py)])))"

text \<open>
  The loop over the segments. A skipped segment does not advance the start point
  (\<open>x0, y0, r0\<close> are updated after the \<open>continue\<close>), so the next segment starts from
  the last point that produced a cell.
\<close>

fun line_cells :: "real \<Rightarrow> CurvePoint \<Rightarrow> CurvePoint list \<Rightarrow> real list list" where
  "line_cells off p0 [] = []"
| "line_cells off p0 (p1 # ps) =
     (case line_cell off p0 p1 of
        None \<Rightarrow> line_cells off p0 ps
      | Some c \<Rightarrow> c # line_cells off p1 ps)"

definition point_cell :: "real \<Rightarrow> CurvePoint \<Rightarrow> real list" where
  "point_cell off p =
     (let x = vx (pos p); y = vy (pos p); r = radius p
      in cell_floats off [(x, y, r, -1, -1), (x, y, r, 1, -1), (x, y, r, 1, 1),
                          (x, y, r, -1, -1), (x, y, r, 1, 1), (x, y, r, -1, 1)])"

text \<open>The cells of one curve: its line cells, then its point cells; none for an empty curve.\<close>

definition curve_cells :: "real \<Rightarrow> CurvePoint list \<Rightarrow> real list list" where
  "curve_cells off pts =
     (case pts of [] \<Rightarrow> [] | p0 # ps \<Rightarrow> line_cells off p0 ps @ map (point_cell off) pts)"

text \<open>
  \<open>setVertexBuffer\<close>: nothing for an empty list; otherwise the array is sized for
  \<open>2 * numPoints\<close> cells of 30 floats, the cells are written in order, and the buffer
  and the vertex count are set.
\<close>

definition numFloatsPerCell :: nat where
  "numFloatsPerCell = 5 * 6"

definition setVertexBuffer :: "GL_ContourRenderer \<Rightarrow> CurvePoint list list \<Rightarrow> real \<Rightarrow> render_error + GL_ContourRenderer" where
  "setVertexBuffer r curvePoints windowToContourScale =
     (let r = r\<lparr>numVertices := 0\<rparr> in
      if curvePoints = [] then Inr r
      else (let off = radiusOffset r windowToContourScale;
                numPoints = sum_list (map length curvePoints);
                maxNumCells = 2 * numPoints;
                cells = concat (map (curve_cells off) curvePoints);
                vertices = concat cells
            in if length vertices > maxNumCells * numFloatsPerCell then Inl BufferOverflow
               else Inr (r\<lparr>vertexBuffer := vertices, numVertices := int (length cells * 6)\<rparr>)))"

text \<open>
  \<open>update\<close>: a framebuffer of the window size (recreated when the size changed) is bound
  and cleared, then, when the shader program exists, the geometry is built. Drawing does
  not change the renderer. The framebuffer is only created on a change of size, so a first
  update at size 0 by 0 binds \<open>nullptr\<close>.
\<close>

definition cr_update :: "GL_ContourRenderer \<Rightarrow> CurvePoint list list \<Rightarrow> int \<Rightarrow> int \<Rightarrow> real \<Rightarrow> render_error + GL_ContourRenderer" where
  "cr_update r curvePoints winWidth winHeight windowToContourScale =
     (let r = (if winWidth \<noteq> fboWidth r \<or> winHeight \<noteq> fboHeight r
               then r\<lparr>fboWidth := winWidth, fboHeight := winHeight, hasFbo := True\<rparr> else r)
      in if \<not> hasFbo r then Inl NullFbo
         else if shaderProgram r = None then Inr r
         else setVertexBuffer r curvePoints windowToContourScale)"

text \<open>\<open>textureID\<close> succeeds exactly when a framebuffer exists.\<close>

definition textureID :: "GL_ContourRenderer \<Rightarrow> bool" where
  "textureID r = hasFbo r"

section \<open>The vertex array is never overrun\<close>

lemma cell_floats_length [simp]: "length (cell_floats off vs) = 5 * length vs"
  by (induction vs) (auto simp: cell_floats_def)

lemma line_cell_length: "line_cell off p0 p1 = Some c \<Longrightarrow> length c = numFloatsPerCell"
  by (auto simp: line_cell_def Let_def numFloatsPerCell_def split: if_splits)

lemma point_cell_length [simp]: "length (point_cell off p) = numFloatsPerCell"
  by (simp add: point_cell_def Let_def numFloatsPerCell_def)

lemma line_cells_bound:
  "length (line_cells off p0 ps) \<le> length ps \<and> list_all (\<lambda>c. length c = numFloatsPerCell) (line_cells off p0 ps)"
  by (induction off p0 ps rule: line_cells.induct) (auto simp: line_cell_length split: option.split)

lemma curve_cells_bound:
  "length (curve_cells off pts) \<le> 2 * length pts \<and> list_all (\<lambda>c. length c = numFloatsPerCell) (curve_cells off pts)"
proof (cases pts)
  case (Cons p0 ps)
  then show ?thesis using line_cells_bound [of off p0 ps] by (auto simp: curve_cells_def list_all_iff)
qed (simp add: curve_cells_def)

lemma concat_cells_length:
  "list_all (\<lambda>c. length c = k) cs \<Longrightarrow> length (concat cs) = k * length cs"
  by (induction cs) simp_all

lemma cells_bound:
  "length (concat (map (curve_cells off) cps)) \<le> 2 * sum_list (map length cps) \<and>
   list_all (\<lambda>c. length c = numFloatsPerCell) (concat (map (curve_cells off) cps))"
proof (induction cps)
  case (Cons pts cps)
  then show ?case using curve_cells_bound [of off pts] by simp
qed simp

text \<open>
  \<open>setVertexBuffer\<close> always succeeds: the cells it writes fit the array it allocates.
\<close>

lemma radiusOffset_numVertices [simp]: "radiusOffset (r\<lparr>numVertices := n\<rparr>) s = radiusOffset r s"
  by (simp add: radiusOffset_def split: RendererType.split)

lemma setVertexBuffer_eq:
  "setVertexBuffer r cps s =
     Inr (if cps = [] then r\<lparr>numVertices := 0\<rparr>
          else r\<lparr>vertexBuffer := concat (concat (map (curve_cells (radiusOffset r s)) cps)),
                 numVertices := int (length (concat (map (curve_cells (radiusOffset r s)) cps)) * 6)\<rparr>)"
proof (cases "cps = []")
  case False
  let ?cells = "concat (map (curve_cells (radiusOffset r s)) cps)"
  have b: "length ?cells \<le> 2 * sum_list (map length cps)"
    and l: "list_all (\<lambda>c. length c = numFloatsPerCell) ?cells"
    using cells_bound by blast+
  have len: "length (concat ?cells) = numFloatsPerCell * length ?cells"
    by (rule concat_cells_length [OF l])
  have "\<not> length (concat ?cells) > 2 * sum_list (map length cps) * numFloatsPerCell"
    using b unfolding len by simp
  with False show ?thesis by (simp add: setVertexBuffer_def Let_def)
qed (simp add: setVertexBuffer_def)

text \<open>
  C21: \<open>GL_ContourRenderer::setVertexBuffer\<close> never writes past the end of its vertex
  array, for every renderer type and every list of curves: a curve of \<open>n\<close> points makes
  at most \<open>2 * n\<close> cells, which is what the array is sized for. The vertex count it
  stores is six per cell, so at most 12 per point, and the buffer it uploads holds the
  five floats of every vertex that will be drawn.
\<close>

theorem setVertexBuffer_in_bounds:
  "\<exists>r'. setVertexBuffer r cps s = Inr r' \<and> numVertices r' \<le> 12 * int (sum_list (map length cps)) \<and>
        5 * numVertices r' \<le> int (length (vertexBuffer r'))"
proof (cases "cps = []")
  case True
  then show ?thesis by (simp add: setVertexBuffer_eq)
next
  case False
  let ?cells = "concat (map (curve_cells (radiusOffset r s)) cps)"
  have b: "length ?cells \<le> 2 * sum_list (map length cps)"
    and l: "list_all (\<lambda>c. length c = numFloatsPerCell) ?cells"
    using cells_bound by blast+
  have "length (concat ?cells) = numFloatsPerCell * length ?cells"
    by (rule concat_cells_length [OF l])
  with False b show ?thesis by (simp add: setVertexBuffer_eq numFloatsPerCell_def)
qed

section \<open>The framebuffer of \<open>update\<close>\<close>

text \<open>A successful update leaves a framebuffer of the window size bound.\<close>

lemma cr_update_fbo:
  "cr_update r cps w h s = Inr r' \<Longrightarrow> hasFbo r' \<and> fboWidth r' = w \<and> fboHeight r' = h"
  by (auto simp: cr_update_def setVertexBuffer_def Let_def split: if_splits)

text \<open>
  A first update of a new renderer with a window of size 0 by 0 finds the size unchanged,
  creates no framebuffer, and binds \<open>nullptr\<close>.
\<close>

text \<open>
  A renderer whose framebuffer exists, or which still has the initial size 0 by 0, updates
  without error at any window of non-zero width, and then has a framebuffer.
\<close>

definition fbo_ok :: "GL_ContourRenderer \<Rightarrow> bool" where
  "fbo_ok r \<longleftrightarrow> hasFbo r \<or> (fboWidth r = 0 \<and> fboHeight r = 0)"

lemma cr_update_ok: "fbo_ok r \<Longrightarrow> w \<noteq> 0 \<Longrightarrow> \<exists>r'. cr_update r cps w h s = Inr r' \<and> hasFbo r'"
  by (auto simp: cr_update_def fbo_ok_def setVertexBuffer_eq Let_def)

lemma cr_update_first_zero_size:
  "cr_update (GL_ContourRenderer_new t linked) cps 0 0 s = Inl NullFbo"
  by (simp add: cr_update_def GL_ContourRenderer_new_def)

end
