(* ===== verification/GLView.thy ===== *)
theory GLView
  imports Persistence RenderState ContourRenderer "HOL-Library.Multiset"
begin

text \<open>
  The OpenGL view (src/Source/View/GL_View.cpp) beyond the mouse gestures of the theory
  Model: the brush cursor (src/Source/View/Cursor.cpp) with its pixmap, the wheel and
  zoom handlers that resize it, the image renderer (src/Source/View/GL_ImageRenderer.cpp),
  and \<open>paintGL\<close>, which updates the three renderers from the render flags and blits their
  textures, with the view transforms that the press, the pan and zoom drags and
  \<open>resizeGL\<close> set in the render state (theory RenderState). Colours are RGB triples of
  \<open>0 .. 255\<close>; the GLSL shaders are the theory Shaders, and the blit renderer's drawing is not modelled.
\<close>

section \<open>The cursor\<close>

text \<open>
  \<open>Cursor\<close>: the colour, the radius in window pixels, the pixmap size, and the
  \<open>QCursor\<close> built by \<open>update\<close>: its pixmap as rows of RGBA values and its hot spot.
\<close>

type_synonym rgb = "nat \<times> nat \<times> nat"
type_synonym rgba = "nat \<times> nat \<times> nat \<times> nat"

record Cursor =
  cur_color :: rgb
  cur_radius :: real
  pixmapSize :: real
  cur_pixmap :: "rgba list"
  cur_hotspot :: "int \<times> int"

definition lightGray :: rgb where
  "lightGray = (160, 160, 164)"

text \<open>
  The density of pixel \<open>(i, j)\<close> in \<open>Cursor::update\<close>: a ring of half-width
  \<open>lineRadius + filterWidth\<close> around the radius (cut at half the pixmap), fading linearly.
\<close>

definition cursor_density :: "real \<Rightarrow> int \<Rightarrow> int \<Rightarrow> int \<Rightarrow> real" where
  "cursor_density r psize i j =
     (let centerX = psize div 2; centerY = psize div 2;
          lineRadius = 1.5; filterWidth = 0.8; filteredLineRadius = lineRadius + filterWidth;
          rad = (if r > real_of_int (psize div 2) then real_of_int (psize div 2) else r);
          minRad = (if rad > filteredLineRadius then rad - filteredLineRadius else 0);
          minRadSqr = minRad * minRad;
          maxRadSqr = (rad + filteredLineRadius) * (rad + filteredLineRadius);
          distSqr = real_of_int ((centerX - i) * (centerX - i) + (centerY - j) * (centerY - j))
      in if distSqr \<ge> minRadSqr \<and> distSqr < maxRadSqr
         then min 1 (max 0 (1 - \<bar>sqrt distSqr - rad\<bar> / filteredLineRadius)) else 0)"

text \<open>The \<open>uchar\<close> casts of one pixel: the colour and 255 scaled by the density, truncated.\<close>

definition cursor_rgba :: "rgb \<Rightarrow> real \<Rightarrow> rgba" where
  "cursor_rgba col fDensity =
     (case col of (red, green, blue) \<Rightarrow>
        (nat (c_trunc (real red * fDensity)), nat (c_trunc (real green * fDensity)),
         nat (c_trunc (real blue * fDensity)), nat (c_trunc (255 * fDensity))))"

definition cursor_update :: "Cursor \<Rightarrow> Cursor" where
  "cursor_update c =
     (let psize = c_trunc (pixmapSize c)
      in c\<lparr>cur_pixmap := concat (map (\<lambda>j. map (\<lambda>i. cursor_rgba (cur_color c)
                                  (cursor_density (cur_radius c) psize (int i) (int j))) [0..<nat psize]) [0..<nat psize]),
           cur_hotspot := (psize div 2, psize div 2)\<rparr>)"

definition cursor_init :: "Cursor \<Rightarrow> Cursor" where
  "cursor_init c = cursor_update (c\<lparr>cur_color := lightGray, cur_radius := 4\<rparr>)"

definition Cursor_new :: Cursor where
  "Cursor_new = cursor_update (cursor_init
     \<lparr>cur_color = lightGray, cur_radius = 4, pixmapSize = 32, cur_pixmap = [], cur_hotspot = (0, 0)\<rparr>)"

definition setColor :: "Cursor \<Rightarrow> rgb \<Rightarrow> Cursor" where
  "setColor c color = cursor_update (c\<lparr>cur_color := color\<rparr>)"

text \<open>\<open>Cursor::setRadius\<close>: clamped to \<open>[0.25, pixmapSize / 2 - 1]\<close>.\<close>

definition setRadius :: "Cursor \<Rightarrow> real \<Rightarrow> Cursor" where
  "setRadius c rad =
     (let minRadius = 0.25; maxRadius = 0.5 * pixmapSize c - 1
      in cursor_update (c\<lparr>cur_radius := (if rad < minRadius then minRadius
                                          else if rad > maxRadius then maxRadius else rad)\<rparr>))"

section \<open>Wheel and zoom\<close>

text \<open>
  Qt's \<open>qRound\<close> (half away from zero), used by \<open>QPoint::operator/\<close>.
\<close>

definition qRound :: "real \<Rightarrow> int" where
  "qRound d = (if 0 \<le> d then c_trunc (d + 0.5) else c_trunc (d - 0.5))"

text \<open>
  \<open>GL_View::wheelEvent\<close>: the pixel delta if there is one, else the angle delta in
  eighths of a degree, divided by 8 and rounded, then by 15 with C's integer division;
  a non-zero step count changes the cursor radius by that many pixels.
\<close>

definition wheel_steps :: "int \<times> int \<Rightarrow> int \<times> int \<Rightarrow> int" where
  "wheel_steps numPixels angleDelta =
     (let numDegrees = (qRound (real_of_int (fst angleDelta) / 8), qRound (real_of_int (snd angleDelta) / 8))
      in if numPixels \<noteq> (0, 0) then snd numPixels
         else if numDegrees \<noteq> (0, 0) then c_trunc (real_of_int (snd numDegrees) / 15)
         else 0)"

definition wheelEvent :: "Cursor \<Rightarrow> int \<times> int \<Rightarrow> int \<times> int \<Rightarrow> Cursor" where
  "wheelEvent c numPixels angleDelta =
     (let numSteps = wheel_steps numPixels angleDelta
      in if numSteps = 0 then c else setRadius c (cur_radius c + real_of_int numSteps))"

text \<open>
  The view part of \<open>GL_View::mousePressEvent\<close> with a modifier: the world point under
  the press, as \<open>convertWindowToWorld\<close> gives it, and the world-to-view transform at the
  press, which the pan and zoom drags start from.
\<close>

definition press_transform :: "RenderState \<Rightarrow> real \<times> real \<Rightarrow> (real \<times> real) \<times> QMatrix" where
  "press_transform rs mouseDownPos =
     (let worldPoint = convertWindowToWorld rs (fst mouseDownPos, snd mouseDownPos, 0)
      in ((fst worldPoint, fst (snd worldPoint)), worldToView rs))"

text \<open>
  The zoom drag of \<open>GL_View::mouseMoveEvent\<close>: the scale from the vertical offset,
  clamped to \<open>[0.1, 100]\<close>, scales the view at the press about the world point of the
  press, requests a full update, and resizes the cursor from its size at the press.
\<close>

definition zoom_scale :: "real \<Rightarrow> int \<Rightarrow> real" where
  "zoom_scale dy height =
     (let scale = 1 - dy / real_of_int (max 1 height);
          scale = (if scale < 0.1 then 0.1 else scale)
      in if scale > 100 then 100 else scale)"

definition zoom_drag :: "RenderState \<Rightarrow> Cursor \<Rightarrow> real \<Rightarrow> real \<times> real \<Rightarrow> QMatrix \<Rightarrow> real \<Rightarrow> int \<Rightarrow>
                          RenderState \<times> Cursor" where
  "zoom_drag rs c mouseDownCursorSize mouseDownWorld mouseDownWorldToView dy height =
     (let scale = zoom_scale dy height;
          worldToView = mat_translate mouseDownWorldToView (fst mouseDownWorld) (snd mouseDownWorld) 0;
          worldToView = mat_scale worldToView scale scale 1;
          worldToView = mat_translate worldToView (- fst mouseDownWorld) (- snd mouseDownWorld) 0;
          rs = setWorldToView rs worldToView
      in (rs\<lparr>allNeedUpdate := True\<rparr>, setRadius c (mouseDownCursorSize * scale)))"

text \<open>
  The pan drag: the mouse offset from the press (window rows counted upwards), scaled by
  the window-to-world scale, translates the view at the press; a full update is requested.
\<close>

definition pan_drag :: "RenderState \<Rightarrow> QMatrix \<Rightarrow> int \<Rightarrow> int \<Rightarrow> RenderState" where
  "pan_drag rs mouseDownWorldToView dx dy =
     (let x = real_of_int dx * windowToWorldScale rs;
          y = real_of_int dy * windowToWorldScale rs;
          rs = setWorldToView rs (mat_translate mouseDownWorldToView x y 0)
      in rs\<lparr>allNeedUpdate := True\<rparr>)"

section \<open>The image renderer\<close>

text \<open>
  \<open>GL_ImageRenderer\<close>: the image it was given (the data pointer as the bytes it points
  to), the texture made from it (format, size and whether it is magnified linearly),
  the framebuffer (size, interpolation mode, whether it exists), whether the shader
  program linked, the vertex buffer, and what the framebuffer shows after a draw: the
  windowing level and width of the shader and the texture's filter.
\<close>

datatype Texture = Texture (tex_format: DataFormat) (tex_width: int) (tex_height: int) (tex_linear: bool)

record GL_ImageRenderer =
  ir_imageData :: "char list option"
  ir_imageWidth :: int
  ir_imageHeight :: int
  ir_imageDataFormat :: DataFormat
  ir_imageTexture :: "Texture option"
  ir_fboWidth :: int
  ir_fboHeight :: int
  fboDoInterpolate :: bool
  ir_hasFbo :: bool
  ir_hasShader :: bool
  ir_vertexBuffer :: "real list option"
  ir_drawn :: "(real \<times> real \<times> bool) option"

definition GL_ImageRenderer_new :: "bool \<Rightarrow> GL_ImageRenderer" where
  "GL_ImageRenderer_new linked =
     \<lparr>ir_imageData = None, ir_imageWidth = 0, ir_imageHeight = 0, ir_imageDataFormat = FormatNotSupported,
      ir_imageTexture = None, ir_fboWidth = 0, ir_fboHeight = 0, fboDoInterpolate = False,
      ir_hasFbo = False, ir_hasShader = linked, ir_vertexBuffer = None, ir_drawn = None\<rparr>"

text \<open>\<open>setVertexBuffer\<close>: a quad over the image, position and texture coordinates per corner.\<close>

definition ir_setVertexBuffer :: "GL_ImageRenderer \<Rightarrow> GL_ImageRenderer" where
  "ir_setVertexBuffer r =
     (if ir_imageData r = None then r
      else (let w = real_of_int (ir_imageWidth r); h = real_of_int (ir_imageHeight r)
            in r\<lparr>ir_vertexBuffer := Some [0, 0, 0, 0, 0,  w, 0, 0, 1, 0,  w, h, 0, 1, 1,  0, h, 0, 0, 1]\<rparr>))"

text \<open>
  \<open>setImage\<close>: nothing for an invalid image; otherwise the image is taken, the old
  texture deleted, and for a supported format a new texture made, magnified with
  \<open>Nearest\<close>.
\<close>

definition ir_setImage :: "GL_ImageRenderer \<Rightarrow> Image \<Rightarrow> GL_ImageRenderer" where
  "ir_setImage r img =
     (if \<not> isValid img then r
      else (let r = r\<lparr>ir_imageWidth := img_width img, ir_imageHeight := img_height img,
                      ir_imageDataFormat := img_format img, ir_imageData := img_data img\<rparr>;
                r = ir_setVertexBuffer r;
                r = r\<lparr>ir_imageTexture := None\<rparr>
            in case img_format img of
                 FormatNotSupported \<Rightarrow> r
               | f \<Rightarrow> r\<lparr>ir_imageTexture := Some (Texture f (ir_imageWidth r) (ir_imageHeight r) False)\<rparr>))"

text \<open>
  \<open>update\<close>: without a shader, data or texture nothing happens; otherwise the framebuffer
  is recreated on a change of size, the texture filter follows the render state's
  interpolation when that differs from the last one seen, and the image is drawn with
  the current windowing. Binding a framebuffer that was never created is \<open>NullFbo\<close>.
\<close>

definition ir_update :: "GL_ImageRenderer \<Rightarrow> int \<Rightarrow> int \<Rightarrow> RenderState \<Rightarrow> render_error + GL_ImageRenderer" where
  "ir_update r winW winH rs =
     (if \<not> ir_hasShader r then Inr r
      else if ir_imageData r = None \<or> ir_imageTexture r = None then Inr r
      else (let r = (if winW \<noteq> ir_fboWidth r \<or> winH \<noteq> ir_fboHeight r
                     then r\<lparr>ir_fboWidth := winW, ir_fboHeight := winH, ir_hasFbo := True\<rparr> else r);
                r = (if interpolateImage rs \<noteq> fboDoInterpolate r
                     then r\<lparr>fboDoInterpolate := interpolateImage rs,
                            ir_imageTexture := map_option (\<lambda>t. case t of Texture f w h _ \<Rightarrow> Texture f w h (interpolateImage rs))
                                                 (ir_imageTexture r)\<rparr>
                     else r)
            in if \<not> ir_hasFbo r then Inl NullFbo
               else Inr (r\<lparr>ir_drawn := map_option (\<lambda>t. (windowingLevel rs, windowingWidth rs, tex_linear t)) (ir_imageTexture r)\<rparr>)))"

definition ir_textureID :: "GL_ImageRenderer \<Rightarrow> bool" where
  "ir_textureID r = ir_hasFbo r"

section \<open>The view: set-up and painting\<close>

text \<open>
  The state of \<open>GL_View\<close> that painting uses: the render state, the cursor and the three
  renderers (created in \<open>initializeGL\<close>); the blit renderer only draws. The two
  contour flags of the render state are the fields \<open>contourNeedsUpdate\<close> and
  \<open>activeCurveNeedsUpdate\<close> of the model record, where the model's operations set them.
\<close>

record GLView =
  gv_rs :: RenderState
  gv_cursor :: Cursor
  gv_image :: GL_ImageRenderer
  gv_contour :: GL_ContourRenderer
  gv_active :: GL_ContourRenderer

datatype Layer = ImageLayer | ContourLayer | ActiveCurveLayer

text \<open>\<open>resizeGL\<close>: the projection for the new window size, and a full update.\<close>

definition resizeGL_rs :: "RenderState \<Rightarrow> int \<Rightarrow> int \<Rightarrow> RenderState" where
  "resizeGL_rs rs w h = (resetProjectionMatrix rs w h)\<lparr>allNeedUpdate := True\<rparr>"

definition resizeGL :: "GLView \<Rightarrow> int \<Rightarrow> int \<Rightarrow> GLView" where
  "resizeGL v w h = v\<lparr>gv_rs := resizeGL_rs (gv_rs v) w h\<rparr>"

text \<open>
  \<open>initializeGL\<close> for a window of \<open>w\<close> by \<open>h\<close>: \<open>resizeGL\<close>, the renderers created
  (antialiased contours; whether each shader program links is a parameter), the reset of
  the world-to-view transform with a full update, and the cursor initialised.
\<close>

definition initializeGL :: "RenderState \<Rightarrow> Cursor \<Rightarrow> int \<Rightarrow> int \<Rightarrow> bool \<Rightarrow> bool \<Rightarrow> GLView" where
  "initializeGL rs c w h imageLinked contourLinked =
     (let rs = resizeGL_rs rs w h
      in \<lparr>gv_rs = (resetWorldToView rs)\<lparr>allNeedUpdate := True\<rparr>, gv_cursor = cursor_init c,
          gv_image = GL_ImageRenderer_new imageLinked,
          gv_contour = GL_ContourRenderer_new Antialiased contourLinked,
          gv_active = GL_ContourRenderer_new Antialiased contourLinked\<rparr>)"

definition gv_setImage :: "GLView \<Rightarrow> Image \<Rightarrow> GLView" where
  "gv_setImage v img = v\<lparr>gv_image := ir_setImage (gv_image v) img\<rparr>"

text \<open>
  The two curve lists of \<open>paintGL\<close>: the sampled points of every curve but the active one,
  in order, and those of the first curve with the active id (the loop breaks there).
\<close>

definition contour_curve_points :: "Contour \<Rightarrow> real \<Rightarrow> CurvePoint list list" where
  "contour_curve_points ct maxPointSpacing =
     map (\<lambda>c. getSampledCurvePoints (curvePoints c) maxPointSpacing)
         (filter (\<lambda>c. c_id c \<noteq> idActiveCurve ct) (curves ct))"

definition active_curve_points :: "Contour \<Rightarrow> real \<Rightarrow> CurvePoint list list" where
  "active_curve_points ct maxPointSpacing =
     (case find (\<lambda>c. c_id c = idActiveCurve ct) (curves ct) of
        None \<Rightarrow> []
      | Some c \<Rightarrow> [getSampledCurvePoints (curvePoints c) maxPointSpacing])"

text \<open>
  The contour half of \<open>paintGL\<close> (when the contour is visible): the contour renderer is
  updated on its flag or a full update, the active-curve renderer also on its own flag;
  each renderer with a framebuffer is blitted, and the two flags are cleared.
\<close>

definition paint_contours :: "Model \<Rightarrow> RenderState \<Rightarrow> GL_ContourRenderer \<Rightarrow> GL_ContourRenderer \<Rightarrow> int \<Rightarrow> int \<Rightarrow>
                               render_error + Model \<times> GL_ContourRenderer \<times> GL_ContourRenderer \<times> Layer list" where
  "paint_contours m rs cr ar w h =
     (let ct = m_contour m; scale = windowToContourScale m;
          spacing = maxPointSpacingInWindowPixels rs * scale; full = allNeedUpdate rs;
          cr' = (if contourNeedsUpdate m \<or> full
                 then cr_update cr (contour_curve_points ct spacing) w h scale else Inr cr)
      in case cr' of Inl e \<Rightarrow> Inl e | Inr cr \<Rightarrow>
      let ar' = (if activeCurveNeedsUpdate m \<or> contourNeedsUpdate m \<or> full
                 then cr_update ar (active_curve_points ct spacing) w h scale else Inr ar)
      in case ar' of Inl e \<Rightarrow> Inl e | Inr ar \<Rightarrow>
      Inr (m\<lparr>activeCurveNeedsUpdate := False, contourNeedsUpdate := False\<rparr>, cr, ar,
           (if textureID cr then [ContourLayer] else []) @ (if textureID ar then [ActiveCurveLayer] else [])))"

text \<open>
  \<open>paintGL\<close> at a viewport of \<open>w\<close> by \<open>h\<close> device pixels: the image renderer is updated on
  its flag or a full update and blitted if it has a framebuffer, then the contours are
  painted when visible, and the full-update flag is cleared.
\<close>

definition paintGL :: "Model \<Rightarrow> GLView \<Rightarrow> int \<Rightarrow> int \<Rightarrow> render_error + Model \<times> GLView \<times> Layer list" where
  "paintGL m v w h =
     (let rs = gv_rs v; upd = imageRendererNeedsUpdate rs \<or> allNeedUpdate rs;
          img = (if upd then ir_update (gv_image v) w h rs else Inr (gv_image v));
          rs = (if upd then rs\<lparr>imageRendererNeedsUpdate := False\<rparr> else rs)
      in case img of Inl e \<Rightarrow> Inl e | Inr ir \<Rightarrow>
      let blits = (if ir_textureID ir then [ImageLayer] else [])
      in if \<not> isContourVisible rs then Inr (m, v\<lparr>gv_rs := rs\<lparr>allNeedUpdate := False\<rparr>, gv_image := ir\<rparr>, blits)
         else (case paint_contours m rs (gv_contour v) (gv_active v) w h of
                 Inl e \<Rightarrow> Inl e
               | Inr (m', cr, ar, bl) \<Rightarrow>
                   Inr (m', v\<lparr>gv_rs := rs\<lparr>allNeedUpdate := False\<rparr>, gv_image := ir, gv_contour := cr,
                              gv_active := ar\<rparr>, blits @ bl)))"

section \<open>The cursor stays well formed\<close>

definition rgb_ok :: "rgb \<Rightarrow> bool" where
  "rgb_ok col \<longleftrightarrow> (case col of (r, g, b) \<Rightarrow> r \<le> 255 \<and> g \<le> 255 \<and> b \<le> 255)"

definition rgba_ok :: "rgba \<Rightarrow> bool" where
  "rgba_ok p \<longleftrightarrow> (case p of (r, g, b, a) \<Rightarrow> r \<le> 255 \<and> g \<le> 255 \<and> b \<le> 255 \<and> a \<le> 255)"

text \<open>
  The cursor invariant: the pixmap size is the constructor's 32, the radius lies in the
  range \<open>setRadius\<close> clamps to, the colour is a colour, and the \<open>QCursor\<close> is the 32 by
  32 pixmap of bytes that \<open>update\<close> built, with its hot spot at the centre.
\<close>

definition cursor_ok :: "Cursor \<Rightarrow> bool" where
  "cursor_ok c \<longleftrightarrow> pixmapSize c = 32 \<and> 0.25 \<le> cur_radius c \<and> cur_radius c \<le> 15 \<and> rgb_ok (cur_color c) \<and>
     length (cur_pixmap c) = 32 * 32 \<and> list_all rgba_ok (cur_pixmap c) \<and> cur_hotspot c = (16, 16)"

lemma cursor_density_range: "0 \<le> cursor_density r s i j \<and> cursor_density r s i j \<le> 1"
  by (simp add: cursor_density_def Let_def)

lemma trunc_scaled_le:
  assumes "0 \<le> d" "d \<le> 1" shows "nat \<lfloor>real n * d\<rfloor> \<le> n"
proof -
  have "real n * d \<le> real n" using assms by (simp add: mult_left_le)
  then have "\<lfloor>real n * d\<rfloor> \<le> int n" by linarith
  then show ?thesis by simp
qed

lemma cursor_rgba_ok: "rgb_ok col \<Longrightarrow> 0 \<le> d \<Longrightarrow> d \<le> 1 \<Longrightarrow> rgba_ok (cursor_rgba col d)"
  using le_trans [OF trunc_scaled_le [of d]] trunc_scaled_le [of d 255]
  by (auto simp: rgb_ok_def rgba_ok_def cursor_rgba_def)

lemma cursor_update_ok:
  assumes "pixmapSize c = 32" "0.25 \<le> cur_radius c" "cur_radius c \<le> 15" "rgb_ok (cur_color c)"
  shows "cursor_ok (cursor_update c)"
proof -
  have "list_all rgba_ok (cur_pixmap (cursor_update c))"
    using assms(1,4) cursor_rgba_ok cursor_density_range
    by (simp add: cursor_update_def Let_def list_all_iff)
  moreover have "length (cur_pixmap (cursor_update c)) = 32 * 32"
    using assms(1) by (simp add: cursor_update_def Let_def length_concat comp_def sum_list_triv)
  ultimately show ?thesis using assms by (simp add: cursor_ok_def cursor_update_def Let_def)
qed

lemma cursor_update_fields [simp]:
  "cur_radius (cursor_update c) = cur_radius c" "pixmapSize (cursor_update c) = pixmapSize c"
  "cur_color (cursor_update c) = cur_color c"
  by (simp_all add: cursor_update_def Let_def)

lemma lightGray_ok [simp]: "rgb_ok lightGray"
  by (simp add: rgb_ok_def lightGray_def)

lemma Cursor_new_ok: "cursor_ok Cursor_new"
  unfolding Cursor_new_def cursor_init_def by (rule cursor_update_ok) simp_all

lemma setRadius_ok: "cursor_ok c \<Longrightarrow> cursor_ok (setRadius c r)"
  unfolding setRadius_def Let_def by (rule cursor_update_ok) (auto simp: cursor_ok_def)

lemma setColor_ok: "cursor_ok c \<Longrightarrow> rgb_ok col \<Longrightarrow> cursor_ok (setColor c col)"
  unfolding setColor_def by (rule cursor_update_ok) (auto simp: cursor_ok_def)

lemma cursor_init_ok: "cursor_ok c \<Longrightarrow> cursor_ok (cursor_init c)"
  unfolding cursor_init_def by (rule cursor_update_ok) (auto simp: cursor_ok_def)

lemma wheelEvent_ok: "cursor_ok c \<Longrightarrow> cursor_ok (wheelEvent c px ang)"
  by (simp add: wheelEvent_def Let_def setRadius_ok)

lemma zoom_drag_ok: "cursor_ok c \<Longrightarrow> cursor_ok (snd (zoom_drag rs c s a m dy h))"
  by (simp add: zoom_drag_def Let_def setRadius_ok)

section \<open>Pan and zoom\<close>

text \<open>
  The zoom keeps the world point of the press where the view showed it at the press,
  and scales the view about it: every world point moves away from it by the zoom scale.
\<close>

lemma zoom_drag_anchor:
  "mat_map (worldToView (fst (zoom_drag rs c s (ax, ay) m dy h))) (ax, ay, 0) = mat_map m (ax, ay, 0)"
  by (simp add: zoom_drag_def setWorldToView_def setWorldToViewport_def Let_def mat_map_def
                mat_translate_def mat_scale_def mat_mul_def)

lemma zoom_drag_scales:
  "mat_map (worldToView (fst (zoom_drag rs c s (ax, ay) m dy h))) (px, py, pz) =
     mat_map m (ax + zoom_scale dy h * (px - ax), ay + zoom_scale dy h * (py - ay), pz)"
  by (simp add: zoom_drag_def setWorldToView_def setWorldToViewport_def Let_def mat_map_def
                mat_translate_def mat_scale_def mat_mul_def algebra_simps)

text \<open>The pan moves every world point by the same offset, the scaled mouse offset.\<close>

lemma pan_drag_translates:
  "mat_map (worldToView (pan_drag rs m dx dy)) (px, py, pz) =
     mat_map m (px + real_of_int dx * windowToWorldScale rs, py + real_of_int dy * windowToWorldScale rs, pz)"
  by (simp add: pan_drag_def setWorldToView_def setWorldToViewport_def Let_def mat_map_def
                mat_translate_def mat_mul_def algebra_simps)

section \<open>Wheel steps\<close>

text \<open>
  An event with an angle delta of less than 116 eighths of a degree and no pixel delta
  rounds to fewer than 15 degrees, so it makes no step and is dropped; the remainder is
  not carried over to the next event.
\<close>

lemma wheel_small_angle:
  assumes "\<bar>a\<bar> < 116" shows "wheel_steps (0, 0) (x, a) = 0"
proof -
  have "-14 \<le> qRound (real_of_int a / 8) \<and> qRound (real_of_int a / 8) \<le> 14"
    using assms by (auto simp: qRound_def floor_le_iff le_floor_iff ceiling_le_iff le_ceiling_iff)
  then have "c_trunc (real_of_int (qRound (real_of_int a / 8)) / 15) = 0"
    by (simp add: c_trunc_def floor_eq_iff ceiling_eq_iff)
  then show ?thesis by (simp add: wheel_steps_def Let_def)
qed

lemma wheel_notch: "wheel_steps (0, 0) (0, 120) = 1"
  by (simp add: wheel_steps_def qRound_def)

lemma wheelEvent_small_angle: "\<bar>a\<bar> < 116 \<Longrightarrow> wheelEvent c (0, 0) (x, a) = c"
  by (simp add: wheelEvent_def wheel_small_angle)

section \<open>A reloaded image loses its interpolation\<close>

lemma ir_setImage_supported:
  assumes "isValid img" "img_format img \<noteq> FormatNotSupported"
  shows "ir_imageData (ir_setImage r img) = img_data img \<and>
         ir_imageTexture (ir_setImage r img) = Some (Texture (img_format img) (img_width img) (img_height img) False) \<and>
         ir_hasShader (ir_setImage r img) = ir_hasShader r \<and> ir_hasFbo (ir_setImage r img) = ir_hasFbo r \<and>
         ir_fboWidth (ir_setImage r img) = ir_fboWidth r \<and> ir_fboHeight (ir_setImage r img) = ir_fboHeight r \<and>
         fboDoInterpolate (ir_setImage r img) = fboDoInterpolate r"
  using assms by (cases "img_format img") (simp_all add: ir_setImage_def ir_setVertexBuffer_def Let_def isValid_def)

text \<open>
  C14: \<open>GL_ImageRenderer::setImage\<close> always makes the new texture with the \<open>Nearest\<close>
  filter, and \<open>update\<close> only sets the filter when the render state's interpolation differs
  from the last one it saw. So once an image has been drawn with interpolation on, every
  image loaded after it is drawn without interpolation although interpolation is still on.
\<close>

theorem setImage_drops_interpolation:
  assumes "ir_hasShader r" "fboDoInterpolate r" "interpolateImage rs"
    and "isValid img" "img_format img \<noteq> FormatNotSupported"
    and "ir_hasFbo r \<or> w \<noteq> ir_fboWidth r \<or> h \<noteq> ir_fboHeight r"
  shows "\<exists>r'. ir_update (ir_setImage r img) w h rs = Inr r' \<and>
              ir_drawn r' = Some (windowingLevel rs, windowingWidth rs, False)"
proof -
  note s = ir_setImage_supported [OF assms(4,5), of r]
  have "img_data img \<noteq> None" using assms(4) by (simp add: isValid_def)
  then show ?thesis using assms(1-3,6) s by (auto simp: ir_update_def Let_def)
qed

theorem setImage_drops_interpolation_witness:
  "\<exists>r2. ir_update (ir_setImage (GL_ImageRenderer_new True)
                     \<lparr>img_width = 1, img_height = 1, img_format = UChar, img_data = Some ''a''\<rparr>)
                   100 100 (RenderState_new\<lparr>interpolateImage := True\<rparr>) = Inr r2 \<and>
        ir_hasShader r2 \<and> fboDoInterpolate r2 \<and> ir_hasFbo r2 \<and> ir_drawn r2 = Some (1 / 2, 1, True) \<and>
        (\<exists>r'. ir_update (ir_setImage r2 \<lparr>img_width = 2, img_height = 1, img_format = UShort, img_data = Some ''abcd''\<rparr>)
                100 100 (RenderState_new\<lparr>interpolateImage := True\<rparr>) = Inr r' \<and>
              ir_drawn r' = Some (1 / 2, 1, False))"
proof -
  let ?rs = "RenderState_new\<lparr>interpolateImage := True\<rparr>"
  let ?i1 = "\<lparr>img_width = 1, img_height = 1, img_format = UChar, img_data = Some ''a''\<rparr>"
  let ?i2 = "\<lparr>img_width = 2, img_height = 1, img_format = UShort, img_data = Some ''abcd''\<rparr>"
  obtain r2 where r2: "ir_update (ir_setImage (GL_ImageRenderer_new True) ?i1) 100 100 ?rs = Inr r2"
    "ir_hasShader r2" "fboDoInterpolate r2" "ir_hasFbo r2" "ir_drawn r2 = Some (1 / 2, 1, True)"
    by (simp add: ir_update_def ir_setImage_def ir_setVertexBuffer_def GL_ImageRenderer_new_def
        RenderState_new_def isValid_def Let_def)
  have "\<exists>r'. ir_update (ir_setImage r2 ?i2) 100 100 ?rs = Inr r' \<and> ir_drawn r' = Some (1 / 2, 1, False)"
    using setImage_drops_interpolation [of r2 ?rs ?i2 100 100] r2(2-4)
    by (simp add: isValid_def RenderState_new_def)
  with r2 show ?thesis by blast
qed

section \<open>Every curve is drawn once\<close>

lemma filter_eq_find:
  "distinct (map f xs) \<Longrightarrow>
   filter (\<lambda>x. f x = i) xs = (case find (\<lambda>x. f x = i) xs of None \<Rightarrow> [] | Some x \<Rightarrow> [x])"
  by (induction xs) (auto simp: filter_empty_conv find_Some_iff split: option.split)

text \<open>
  C15: in a contour with its invariant, the curves that \<open>paintGL\<close> hands to the contour
  renderer and to the active-curve renderer are together the sampled points of every
  curve, each once, and the active-curve renderer gets at most one curve.
\<close>

theorem paint_curves_partition:
  assumes "contour_inv ct"
  shows "mset (contour_curve_points ct s @ active_curve_points ct s) =
           mset (map (\<lambda>c. getSampledCurvePoints (curvePoints c) s) (curves ct)) \<and>
         length (active_curve_points ct s) \<le> 1"
proof -
  let ?g = "\<lambda>c. getSampledCurvePoints (curvePoints c) s" and ?P = "\<lambda>c. c_id c = idActiveCurve ct"
  have d: "distinct (map c_id (curves ct))" using assms by (simp add: contour_inv_def)
  have a: "active_curve_points ct s = map ?g (filter ?P (curves ct))"
    using filter_eq_find [OF d, of "idActiveCurve ct"]
    by (simp add: active_curve_points_def split: option.split)
  have p: "filter_mset (\<lambda>c. \<not> ?P c) (mset (curves ct)) + filter_mset ?P (mset (curves ct)) = mset (curves ct)"
    by (metis add.commute multiset_partition)
  have "mset (contour_curve_points ct s @ active_curve_points ct s) =
        image_mset ?g (filter_mset (\<lambda>c. \<not> ?P c) (mset (curves ct))) + image_mset ?g (filter_mset ?P (mset (curves ct)))"
    unfolding a contour_curve_points_def by (simp add: mset_filter)
  also have "\<dots> = image_mset ?g (mset (curves ct))" by (simp only: p image_mset_union [symmetric])
  finally have "mset (contour_curve_points ct s @ active_curve_points ct s) = mset (map ?g (curves ct))"
    by simp
  moreover have "length (active_curve_points ct s) \<le> 1"
    by (simp add: active_curve_points_def split: option.split)
  ultimately show ?thesis by blast
qed

theorem paint_curves_partition_witness:
  "contour_inv \<lparr>idNextCurve = 2, idActiveCurve = 1, curves = [Curve_new 0, Curve_new 1]\<rparr> \<and>
   mset (contour_curve_points \<lparr>idNextCurve = 2, idActiveCurve = 1, curves = [Curve_new 0, Curve_new 1]\<rparr> 1 @
         active_curve_points \<lparr>idNextCurve = 2, idActiveCurve = 1, curves = [Curve_new 0, Curve_new 1]\<rparr> 1) =
     mset (map (\<lambda>c. getSampledCurvePoints (curvePoints c) 1) [Curve_new 0, Curve_new 1]) \<and>
   length (active_curve_points \<lparr>idNextCurve = 2, idActiveCurve = 1, curves = [Curve_new 0, Curve_new 1]\<rparr> 1) \<le> 1"
proof -
  have i: "contour_inv \<lparr>idNextCurve = 2, idActiveCurve = 1, curves = [Curve_new 0, Curve_new 1]\<rparr>"
    by (simp add: contour_inv_def Curve_new_def)
  show ?thesis using paint_curves_partition [OF i, of 1] i by simp
qed

section \<open>Painting always succeeds after set-up\<close>

text \<open>
  The framebuffer invariant of the three renderers: each has its framebuffer or still
  the initial size 0 by 0, so an update at a non-zero width never binds \<open>nullptr\<close>.
\<close>

definition ir_fbo_ok :: "GL_ImageRenderer \<Rightarrow> bool" where
  "ir_fbo_ok r \<longleftrightarrow> ir_hasFbo r \<or> (ir_fboWidth r = 0 \<and> ir_fboHeight r = 0)"

definition gl_ok :: "GLView \<Rightarrow> bool" where
  "gl_ok v \<longleftrightarrow> ir_fbo_ok (gv_image v) \<and> fbo_ok (gv_contour v) \<and> fbo_ok (gv_active v)"

lemma ir_update_ok:
  "ir_fbo_ok r \<Longrightarrow> w \<noteq> 0 \<Longrightarrow> \<exists>r'. ir_update r w h rs = Inr r' \<and> ir_fbo_ok r'"
  by (auto simp: ir_update_def ir_fbo_ok_def Let_def)

lemma cond_cr_update:
  "fbo_ok r \<Longrightarrow> w \<noteq> 0 \<Longrightarrow>
   \<exists>r'. (if b then cr_update r cps w h s else Inr r) = Inr r' \<and> fbo_ok r' \<and> (b \<longrightarrow> hasFbo r')"
  using cr_update_ok [of r w cps h s] by (cases b) (auto simp: fbo_ok_def)

lemma paint_contours_ok:
  assumes "fbo_ok cr" "fbo_ok ar" "w \<noteq> 0"
  shows "\<exists>m' cr' ar' bl. paint_contours m rs cr ar w h = Inr (m', cr', ar', bl) \<and> fbo_ok cr' \<and> fbo_ok ar' \<and>
           m_contour m' = m_contour m \<and> \<not> contourNeedsUpdate m' \<and> \<not> activeCurveNeedsUpdate m' \<and>
           (contourNeedsUpdate m \<or> allNeedUpdate rs \<longrightarrow> bl = [ContourLayer, ActiveCurveLayer])"
proof -
  let ?sp = "maxPointSpacingInWindowPixels rs * windowToContourScale m" and ?ct = "m_contour m"
  obtain cr' where c: "(if contourNeedsUpdate m \<or> allNeedUpdate rs
      then cr_update cr (contour_curve_points ?ct ?sp) w h (windowToContourScale m) else Inr cr) = Inr cr'"
    "fbo_ok cr'" "contourNeedsUpdate m \<or> allNeedUpdate rs \<longrightarrow> hasFbo cr'"
    using cond_cr_update [OF assms(1,3)] by blast
  obtain ar' where a: "(if activeCurveNeedsUpdate m \<or> contourNeedsUpdate m \<or> allNeedUpdate rs
      then cr_update ar (active_curve_points ?ct ?sp) w h (windowToContourScale m) else Inr ar) = Inr ar'"
    "fbo_ok ar'" "activeCurveNeedsUpdate m \<or> contourNeedsUpdate m \<or> allNeedUpdate rs \<longrightarrow> hasFbo ar'"
    using cond_cr_update [OF assms(2,3)] by blast
  show ?thesis
    unfolding paint_contours_def Let_def c(1) a(1) using c(2,3) a(2,3) by (auto simp: textureID_def)
qed

text \<open>
  C28: from any view state with the framebuffer invariant (the state \<open>initializeGL\<close>
  leaves, and every paint keeps), \<open>paintGL\<close> at a non-zero width succeeds, leaves the
  contour unchanged, clears every update flag it acts on, and, when the contour is
  visible and needed an update, blits both the contour and the active-curve layer.
\<close>

theorem paintGL_ok:
  assumes "gl_ok v" "w \<noteq> 0"
  shows "\<exists>m' v' blits. paintGL m v w h = Inr (m', v', blits) \<and> gl_ok v' \<and> m_contour m' = m_contour m \<and>
           \<not> allNeedUpdate (gv_rs v') \<and> \<not> imageRendererNeedsUpdate (gv_rs v') \<and>
           (isContourVisible (gv_rs v) \<longrightarrow> \<not> contourNeedsUpdate m' \<and> \<not> activeCurveNeedsUpdate m' \<and>
              (contourNeedsUpdate m \<or> allNeedUpdate (gv_rs v) \<longrightarrow>
                 ContourLayer \<in> set blits \<and> ActiveCurveLayer \<in> set blits))"
proof -
  let ?rs = "gv_rs v"
  let ?upd = "imageRendererNeedsUpdate ?rs \<or> allNeedUpdate ?rs"
  let ?rs' = "if ?upd then ?rs\<lparr>imageRendererNeedsUpdate := False\<rparr> else ?rs"
  obtain ir where i: "(if ?upd then ir_update (gv_image v) w h ?rs else Inr (gv_image v)) = Inr ir" "ir_fbo_ok ir"
    using ir_update_ok [of "gv_image v" w h ?rs] assms by (cases ?upd) (auto simp: gl_ok_def)
  obtain m' cr ar bl where p: "paint_contours m ?rs' (gv_contour v) (gv_active v) w h = Inr (m', cr, ar, bl)"
    "fbo_ok cr" "fbo_ok ar" "m_contour m' = m_contour m" "\<not> contourNeedsUpdate m'" "\<not> activeCurveNeedsUpdate m'"
    "contourNeedsUpdate m \<or> allNeedUpdate ?rs' \<longrightarrow> bl = [ContourLayer, ActiveCurveLayer]"
    using paint_contours_ok [of "gv_contour v" "gv_active v" w m ?rs' h] assms by (auto simp: gl_ok_def)
  have fl: "\<not> imageRendererNeedsUpdate ?rs'" "allNeedUpdate ?rs' = allNeedUpdate ?rs"
    "isContourVisible ?rs' = isContourVisible ?rs"
    by auto
  show ?thesis
    unfolding paintGL_def Let_def i(1) using p i(2) assms(1) fl by (auto simp: gl_ok_def)
qed

theorem paintGL_ok_witness:
  "gl_ok (initializeGL RenderState_new Cursor_new 100 100 True True) \<and> (100 :: int) \<noteq> 0 \<and>
   (\<exists>m' v' blits. paintGL (Model_new 1) (initializeGL RenderState_new Cursor_new 100 100 True True) 100 100 = Inr (m', v', blits) \<and>
      ContourLayer \<in> set blits \<and> ActiveCurveLayer \<in> set blits)"
proof -
  have g: "gl_ok (initializeGL RenderState_new Cursor_new 100 100 True True)"
    by (simp add: gl_ok_def ir_fbo_ok_def fbo_ok_def initializeGL_def GL_ImageRenderer_new_def GL_ContourRenderer_new_def Let_def)
  have f: "isContourVisible (gv_rs (initializeGL RenderState_new Cursor_new 100 100 True True)) \<and>
           allNeedUpdate (gv_rs (initializeGL RenderState_new Cursor_new 100 100 True True))"
    by (simp add: initializeGL_def resizeGL_rs_def resetWorldToView_def setWorldToView_def resetProjectionMatrix_def
                  RenderState_new_def Let_def)
  show ?thesis using paintGL_ok [OF g, of 100 "Model_new 1" 100] g f by auto
qed

end
