(* ===== verification/Exporter.thy ===== *)
theory Exporter
  imports GLView
begin

text \<open>
  \<open>GL_Exporter::exportSegmentation\<close> (src/Source/View/GL_Exporter.cpp): the export size
  from the image size and the scale, a fresh render state, then either the source image
  through an image renderer or all curves of the contour through a contour renderer of
  the export type, and the read-back of the renderer's framebuffer, whose pixels are
  flattened onto black. Whether the offscreen context can be set up and whether the
  shaders link are parameters; the render state's projection is that of the export
  size with the image centred, and gives the window-to-contour scale of the contour
  renderer. The pixels drawn by OpenGL are not modelled: the read-back
  image is the renderer state that drew it, and \<open>export_pixel\<close> is the flattening of one
  read-back pixel.
\<close>

datatype ExportType = SourceImage | ExportBinary | ExportDistToCenterline | ExportDistToVesselEdge

definition export_renderer_type :: "ExportType \<Rightarrow> RendererType" where
  "export_renderer_type t =
     (case t of ExportDistToCenterline \<Rightarrow> DistToCenterline
              | ExportDistToVesselEdge \<Rightarrow> DistToContour
              | _ \<Rightarrow> Binary)"

text \<open>\<open>(int) imageWidth * imageToExportScale\<close>: the product is a float, truncated on assignment.\<close>

definition export_size :: "int \<Rightarrow> real \<Rightarrow> int" where
  "export_size n imageToExportScale = c_trunc (real_of_int n * imageToExportScale)"

datatype RenderedImage = ImageRender GL_ImageRenderer | ContourRender GL_ContourRenderer

text \<open>\<open>renderedImage\<close>: \<open>m_fbo->toImage\<close>, a use of \<open>nullptr\<close> without a framebuffer.\<close>

definition ir_renderedImage :: "GL_ImageRenderer \<Rightarrow> render_error + RenderedImage" where
  "ir_renderedImage r = (if ir_hasFbo r then Inr (ImageRender r) else Inl NullFbo)"

definition cr_renderedImage :: "GL_ContourRenderer \<Rightarrow> render_error + RenderedImage" where
  "cr_renderedImage r = (if hasFbo r then Inr (ContourRender r) else Inl NullFbo)"

text \<open>The loop over the read-back pixels: each colour scaled by its alpha, made opaque.\<close>

definition export_pixel :: "rgba \<Rightarrow> rgba" where
  "export_pixel p =
     (case p of (red, green, blue, a) \<Rightarrow>
        (let alpha = real a / 255
         in (nat (c_trunc (real red * alpha)), nat (c_trunc (real green * alpha)),
             nat (c_trunc (real blue * alpha)), 255)))"

text \<open>
  The export: \<open>None\<close> when the offscreen context cannot be set up, otherwise the size and
  the rendered image, or the error of a renderer.
\<close>

definition exportSegmentation ::
  "Model \<Rightarrow> Image \<Rightarrow> bool \<Rightarrow> bool \<Rightarrow> real \<Rightarrow> ExportType \<Rightarrow> render_error + (int \<times> int \<times> RenderedImage) option" where
  "exportSegmentation m img setupOk linked imageToExportScale type =
     (if \<not> setupOk then Inr None else
      let imageWidth = img_width img; imageHeight = img_height img;
          exportWidth = export_size imageWidth imageToExportScale;
          exportHeight = export_size imageHeight imageToExportScale;
          rs = resetProjectionMatrix RenderState_new exportWidth exportHeight;
          rs = centerImageInViewport rs imageWidth imageHeight;
          contourScale = windowToImageScale rs;
          rendered =
            (if type = SourceImage then
               (case ir_update (ir_setImage (GL_ImageRenderer_new linked) img) exportWidth exportHeight rs of
                  Inl e \<Rightarrow> Inl e
                | Inr r \<Rightarrow> ir_renderedImage r)
             else
               (let r = GL_ContourRenderer_new (export_renderer_type type) linked;
                    maxPointSpacing = maxPointSpacingInWindowPixels rs * contourScale;
                    cps = map (\<lambda>c. getSampledCurvePoints (curvePoints c) maxPointSpacing) (curves (m_contour m))
                in case cr_update r cps exportWidth exportHeight contourScale of
                     Inl e \<Rightarrow> Inl e
                   | Inr r \<Rightarrow> cr_renderedImage r))
      in case rendered of Inl e \<Rightarrow> Inl e | Inr i \<Rightarrow> Inr (Some (exportWidth, exportHeight, i)))"

section \<open>Properties of the export\<close>

lemma export_pixel_bounds:
  assumes "rgba_ok p" shows "rgba_ok (export_pixel p) \<and> snd (snd (snd (export_pixel p))) = 255"
proof -
  obtain r g b a where p: "p = (r, g, b, a)" by (cases p) auto
  have al: "0 \<le> real a / 255" "real a / 255 \<le> 1" using assms p by (auto simp: rgba_ok_def)
  have "nat \<lfloor>real n * (real a / 255)\<rfloor> \<le> n" for n by (rule trunc_scaled_le [OF al])
  then show ?thesis using assms p by (auto simp: export_pixel_def rgba_ok_def Let_def intro: le_trans)
qed

text \<open>
  An export of a contour at a non-zero width succeeds whenever the offscreen context
  could be set up, and the renderer holds the cells of every curve of the contour.
\<close>

lemma export_contour_ok:
  assumes "setupOk" "type \<noteq> SourceImage" "export_size (img_width img) s \<noteq> 0"
  shows "\<exists>r. exportSegmentation m img setupOk linked s type =
               Inr (Some (export_size (img_width img) s, export_size (img_height img) s, ContourRender r)) \<and>
             cr_type r = export_renderer_type type \<and> hasFbo r"
proof -
  let ?rs = "centerImageInViewport (resetProjectionMatrix RenderState_new (export_size (img_width img) s)
               (export_size (img_height img) s)) (img_width img) (img_height img)"
  let ?sc = "windowToImageScale ?rs"
  let ?cps = "map (\<lambda>c. getSampledCurvePoints (curvePoints c) (maxPointSpacingInWindowPixels ?rs * ?sc))
                  (curves (m_contour m))"
  obtain r where r: "cr_update (GL_ContourRenderer_new (export_renderer_type type) linked) ?cps
                       (export_size (img_width img) s) (export_size (img_height img) s) ?sc = Inr r" "hasFbo r"
    using cr_update_ok [of "GL_ContourRenderer_new (export_renderer_type type) linked" "export_size (img_width img) s"
                           ?cps "export_size (img_height img) s" ?sc] assms(3)
    by (auto simp: fbo_ok_def GL_ContourRenderer_new_def)
  have "cr_type r = export_renderer_type type"
    using r(1) by (auto simp: cr_update_def setVertexBuffer_eq GL_ContourRenderer_new_def Let_def split: if_splits)
  then show ?thesis using assms r by (simp add: exportSegmentation_def Let_def cr_renderedImage_def)
qed

text \<open>
  An export whose size truncates to 0 by 0 (no image loaded, or a scale that makes both
  sides smaller than a pixel) creates no framebuffer, since the renderers only create
  one on a change from their initial size 0 by 0, and the read-back, or the update
  itself, uses \<open>nullptr\<close>, for every export type.
\<close>

lemma export_zero_size:
  assumes "setupOk" "export_size (img_width img) s = 0" "export_size (img_height img) s = 0"
  shows "exportSegmentation m img setupOk linked s type = Inl NullFbo"
proof (cases "type = SourceImage")
  case True
  have "ir_fboWidth (ir_setImage (GL_ImageRenderer_new linked) img) = 0 \<and>
        ir_fboHeight (ir_setImage (GL_ImageRenderer_new linked) img) = 0 \<and>
        \<not> ir_hasFbo (ir_setImage (GL_ImageRenderer_new linked) img)"
    by (simp add: ir_setImage_def ir_setVertexBuffer_def GL_ImageRenderer_new_def Let_def split: DataFormat.split)
  then show ?thesis using assms True
    by (auto simp: exportSegmentation_def Let_def ir_update_def ir_renderedImage_def)
next
  case False
  then show ?thesis using assms
    by (simp add: exportSegmentation_def Let_def cr_update_def GL_ContourRenderer_new_def)
qed

lemma export_without_image: "exportSegmentation m (io_image ImageObj_new) True linked s type = Inl NullFbo"
  by (rule export_zero_size) (simp_all add: ImageObj_new_def export_size_def)

end
