(* ===== verification/ImageConverter.thy ===== *)
theory ImageConverter
  imports Persistence
begin

text \<open>
  \<open>ImageConverter::imageFromQImage\<close> (src/Source/Model/ImageConverter.cpp): the import of
  a \<open>QImage\<close> into the \<open>Image\<close> buffer. A \<open>QImage\<close> is its format, size and samples in
  row-major order (one grey value per pixel once converted). Qt's
  \<open>QImage::convertToFormat\<close> is the parameter \<open>conv\<close>; \<open>conv_ok\<close> states what the import
  relies on: the converted image has the requested format and the size of the source,
  and its samples fit the format. A 16-bit sample is stored as two bytes, low byte first,
  as \<open>unsigned short\<close> is laid out on the little-endian targets the program is built for.
\<close>

datatype QImageFormat = Format_Grayscale8 | Format_Grayscale16 | Format_RGBX64 | Format_RGBA64
  | Format_RGBA64_Premultiplied | Format_Other | Format_Invalid

record QImage =
  q_format :: QImageFormat
  q_width :: int
  q_height :: int
  q_samples :: "nat list"

type_synonym qconv = "QImage \<Rightarrow> QImageFormat \<Rightarrow> QImage"

text \<open>The grey-scale image the import works on (the first switch).\<close>

definition grayscale_of :: "qconv \<Rightarrow> QImage \<Rightarrow> QImage" where
  "grayscale_of conv src =
     (case q_format src of
        Format_Grayscale8 \<Rightarrow> src
      | Format_Grayscale16 \<Rightarrow> src
      | Format_RGBX64 \<Rightarrow> conv src Format_Grayscale16
      | Format_RGBA64 \<Rightarrow> conv src Format_Grayscale16
      | Format_RGBA64_Premultiplied \<Rightarrow> conv src Format_Grayscale16
      | _ \<Rightarrow> conv src Format_Grayscale8)"

text \<open>The bytes one sample occupies in the buffer.\<close>

definition sample_bytes :: "nat \<Rightarrow> nat \<Rightarrow> char list" where
  "sample_bytes bytesPerPixel v =
     (if bytesPerPixel = 1 then [char_of v] else [char_of (v mod 256), char_of (v div 256)])"

text \<open>
  The copy loops: row by row, \<open>width\<close> samples of each row of the grey-scale image, written
  through a moving pointer into the new buffer.
\<close>

definition copy_rows :: "nat \<Rightarrow> QImage \<Rightarrow> char list" where
  "copy_rows bytesPerPixel g =
     concat (map (\<lambda>y. concat (map (\<lambda>x. sample_bytes bytesPerPixel (q_samples g ! (y * nat (q_width g) + x)))
                                 [0..<nat (q_width g)]))
                 [0..<nat (q_height g)])"

text \<open>
  \<open>imageFromQImage\<close>: an unsupported grey-scale format throws before \<open>dst\<close> is touched
  (the exception is caught and printed); otherwise \<open>dst\<close> is cleared, a buffer of
  \<open>src.width() * src.height() * bytesPerPixel\<close> bytes is filled, and format and size are
  set from the grey-scale image. Writing more bytes than the buffer holds is the error
  \<open>None\<close>.
\<close>

definition imageFromQImage :: "qconv \<Rightarrow> ImageObj \<Rightarrow> QImage \<Rightarrow> ImageObj option" where
  "imageFromQImage conv dst src =
     (let g = grayscale_of conv src in
      case (case q_format g of
              Format_Grayscale8 \<Rightarrow> Some (1, UChar)
            | Format_Grayscale16 \<Rightarrow> Some (2, UShort)
            | _ \<Rightarrow> None) of
        None \<Rightarrow> Some dst
      | Some (bytesPerPixel, format) \<Rightarrow>
          (let dst = image_clear dst;
               dataSize = nat (q_width src) * nat (q_height src) * bytesPerPixel;
               bytes = copy_rows bytesPerPixel g
           in if length bytes > dataSize then None
              else Some (dst\<lparr>io_image := \<lparr>img_width = q_width g, img_height = q_height g, img_format = format,
                                          img_data = Some (bytes @ replicate (dataSize - length bytes) undefined)\<rparr>\<rparr>)))"

section \<open>The imported pixels are the grey values\<close>

definition max_sample :: "QImageFormat \<Rightarrow> nat" where
  "max_sample f = (if f = Format_Grayscale16 then 65536 else 256)"

text \<open>A grey-scale image as the import needs it: its samples fill its size and fit its format.\<close>

definition gray_ok :: "QImage \<Rightarrow> bool" where
  "gray_ok g \<longleftrightarrow> 0 \<le> q_width g \<and> 0 \<le> q_height g \<and>
     length (q_samples g) = nat (q_width g) * nat (q_height g) \<and>
     list_all (\<lambda>v. v < max_sample (q_format g)) (q_samples g)"

definition conv_ok :: "qconv \<Rightarrow> bool" where
  "conv_ok conv \<longleftrightarrow> (\<forall>src f. 0 \<le> q_width src \<and> 0 \<le> q_height src \<and> (f = Format_Grayscale8 \<or> f = Format_Grayscale16) \<longrightarrow>
     q_format (conv src f) = f \<and> q_width (conv src f) = q_width src \<and> q_height (conv src f) = q_height src \<and>
     gray_ok (conv src f))"

lemma concat_rows:
  "concat (map (\<lambda>y. concat (map (\<lambda>x. f (y * w + x)) [0..<w])) [0..<h]) = concat (map f [0..<h * w])"
proof (induction h)
  case (Suc h)
  have "[0..<h * w + w] = [0..<h * w] @ [h * w..<h * w + w]" by (rule upt_add_eq_append) simp
  moreover have "[h * w..<h * w + w] = map (\<lambda>x. h * w + x) [0..<w]"
    using map_add_upt [of "h * w" w] by (simp add: add.commute)
  ultimately have "[0..<Suc h * w] = [0..<h * w] @ map (\<lambda>x. h * w + x) [0..<w]"
    by (simp add: add.commute)
  with Suc show ?case by (simp add: comp_def)
qed simp

lemma copy_rows_samples:
  assumes "length (q_samples g) = nat (q_width g) * nat (q_height g)"
  shows "copy_rows b g = concat (map (sample_bytes b) (q_samples g))"
proof -
  have "copy_rows b g = concat (map (\<lambda>k. sample_bytes b (q_samples g ! k)) [0..<nat (q_height g) * nat (q_width g)])"
    unfolding copy_rows_def by (rule concat_rows)
  also have "map (\<lambda>k. sample_bytes b (q_samples g ! k)) [0..<nat (q_height g) * nat (q_width g)] =
             map (sample_bytes b) (q_samples g)"
    using assms by (rule_tac nth_equalityI) (simp_all add: mult.commute)
  then have "concat (map (\<lambda>k. sample_bytes b (q_samples g ! k)) [0..<nat (q_height g) * nat (q_width g)]) =
             concat (map (sample_bytes b) (q_samples g))" by simp
  finally show ?thesis .
qed

lemma concat_fixed_nth:
  assumes "\<And>v. length (f v) = n" "k < length vs" "j < n"
  shows "concat (map f vs) ! (n * k + j) = f (vs ! k) ! j"
  using assms(2)
proof (induction vs arbitrary: k)
  case (Cons v vs)
  show ?case
  proof (cases k)
    case 0
    then show ?thesis using assms(1,3) by (simp add: nth_append)
  next
    case (Suc k')
    then have "n * k + j = n + (n * k' + j)" by simp
    then show ?thesis using Cons Suc assms(1) by (simp add: nth_append)
  qed
qed simp

lemma length_concat_fixed: "(\<And>v. length (f v) = n) \<Longrightarrow> length (concat (map f vs)) = n * length vs"
  by (induction vs) simp_all

lemma sample_bytes_length [simp]: "b \<in> {1, 2} \<Longrightarrow> length (sample_bytes b v) = b"
  by (auto simp: sample_bytes_def)

lemma grayscale_of_ok:
  assumes "conv_ok conv" "0 \<le> q_width src" "0 \<le> q_height src"
    "q_format src = Format_Grayscale8 \<or> q_format src = Format_Grayscale16 \<longrightarrow> gray_ok src"
  shows "gray_ok (grayscale_of conv src) \<and> q_width (grayscale_of conv src) = q_width src \<and>
         q_height (grayscale_of conv src) = q_height src \<and>
         (q_format (grayscale_of conv src) = Format_Grayscale8 \<or> q_format (grayscale_of conv src) = Format_Grayscale16)"
  using assms by (cases "q_format src") (simp_all add: grayscale_of_def conv_ok_def)

lemma real_mod_div_256: "real (v mod 256) + 256 * real (v div 256) = real (v :: nat)"
proof -
  have "v mod 256 + 256 * (v div 256) = v" by simp
  then show ?thesis by (metis of_nat_add of_nat_mult of_nat_numeral)
qed

lemma pixel_samples:
  assumes b: "(b = 1 \<and> f = UChar) \<or> (b = 2 \<and> f = UShort)"
    and vs: "list_all (\<lambda>v. v < 256 ^ b) vs" and k: "k < length vs"
  shows "pixel \<lparr>img_width = w, img_height = h, img_format = f,
                img_data = Some (concat (map (sample_bytes b) vs) @ pad)\<rparr> (int k) = real (vs ! k)"
proof -
  let ?d = "concat (map (sample_bytes b) vs) @ pad"
  have len: "\<And>v. length (sample_bytes b v) = b" using b by auto
  have at: "?d ! (b * k + j) = sample_bytes b (vs ! k) ! j" if "j < b" for j
  proof -
    have "b * k + j < length (concat (map (sample_bytes b) vs))"
    proof -
      have "b * k + j < b * (k + 1)" using that by simp
      also have "\<dots> \<le> b * length vs" using k by (intro mult_le_mono2) simp
      finally show ?thesis by (simp add: length_concat_fixed [OF len])
    qed
    then show ?thesis using concat_fixed_nth [OF len k that] by (simp add: nth_append)
  qed
  have v: "vs ! k < 256 ^ b" using vs k by (simp add: list_all_length)
  from b show ?thesis
  proof
    assume "b = 1 \<and> f = UChar"
    then show ?thesis using at [of 0] v by (simp add: pixel_def sample_bytes_def)
  next
    assume u: "b = 2 \<and> f = UShort"
    then have "?d ! (2 * k) = char_of (vs ! k mod 256)" "?d ! (2 * k + 1) = char_of (vs ! k div 256)"
      using at [of 0] at [of 1] by (simp_all add: sample_bytes_def)
    moreover have "vs ! k div 256 < 256" using u v by simp
    ultimately show ?thesis using u by (simp add: pixel_def real_mod_div_256)
  qed
qed

text \<open>
  The import of a size-keeping conversion: the bytes of the grey samples, one or two per
  sample, fill the buffer exactly.
\<close>

lemma imageFromQImage_result:
  assumes conv: "conv_ok conv" and w: "0 \<le> q_width src" and h: "0 \<le> q_height src"
    and g: "q_format src = Format_Grayscale8 \<or> q_format src = Format_Grayscale16 \<longrightarrow> gray_ok src"
  shows "\<exists>b f. ((b = 1 \<and> f = UChar) \<or> (b = 2 \<and> f = UShort)) \<and>
           list_all (\<lambda>v. v < 256 ^ b) (q_samples (grayscale_of conv src)) \<and>
           length (concat (map (sample_bytes b) (q_samples (grayscale_of conv src)))) =
             nat (q_width src) * nat (q_height src) * b \<and>
           imageFromQImage conv dst src =
             Some ((image_clear dst)\<lparr>io_image := \<lparr>img_width = q_width src, img_height = q_height src, img_format = f,
                     img_data = Some (concat (map (sample_bytes b) (q_samples (grayscale_of conv src))))\<rparr>\<rparr>)"
proof -
  let ?g = "grayscale_of conv src"
  note ok = grayscale_of_ok [OF conv w h g]
  have gl: "length (q_samples ?g) = nat (q_width ?g) * nat (q_height ?g)"
    using ok by (simp add: gray_ok_def)
  have range: "list_all (\<lambda>v. v < max_sample (q_format ?g)) (q_samples ?g)" using ok by (simp add: gray_ok_def)
  obtain b f where bf: "(b = (1 :: nat) \<and> f = UChar \<and> q_format ?g = Format_Grayscale8) \<or>
                        (b = 2 \<and> f = UShort \<and> q_format ?g = Format_Grayscale16)"
    using ok by blast
  then have vs: "list_all (\<lambda>v. v < 256 ^ b) (q_samples ?g)" using range by (auto simp: max_sample_def)
  have bytes: "copy_rows b ?g = concat (map (sample_bytes b) (q_samples ?g))" by (rule copy_rows_samples [OF gl])
  have lb: "length (concat (map (sample_bytes b) (q_samples ?g))) = nat (q_width src) * nat (q_height src) * b"
    using bf ok gl by (subst length_concat_fixed [of _ b]) auto
  have "imageFromQImage conv dst src =
           Some ((image_clear dst)\<lparr>io_image := \<lparr>img_width = q_width src, img_height = q_height src, img_format = f,
                   img_data = Some (concat (map (sample_bytes b) (q_samples ?g)))\<rparr>\<rparr>)"
    using bf ok bytes lb by (auto simp: imageFromQImage_def Let_def)
  then show ?thesis using bf vs lb by blast
qed

text \<open>
  C31: importing a \<open>QImage\<close> gives a valid, well-formed image of the source's size whose
  pixels, as the filters read them (\<open>pixel\<close>), are exactly the grey values of the
  converted image, for 8-bit and 16-bit formats, whenever Qt's conversion keeps the size.
\<close>

theorem imageFromQImage_pixels:
  assumes conv: "conv_ok conv" and w: "0 \<le> q_width src" and h: "0 \<le> q_height src"
    and g: "q_format src = Format_Grayscale8 \<or> q_format src = Format_Grayscale16 \<longrightarrow> gray_ok src"
  shows "\<exists>dst'. imageFromQImage conv dst src = Some dst' \<and> isValid (io_image dst') \<and> image_wf (io_image dst') \<and>
           img_width (io_image dst') = q_width src \<and> img_height (io_image dst') = q_height src \<and>
           (\<forall>k < length (q_samples (grayscale_of conv src)).
              pixel (io_image dst') (int k) = real (q_samples (grayscale_of conv src) ! k))"
proof -
  let ?g = "grayscale_of conv src"
  obtain b f where bf: "(b = 1 \<and> f = UChar) \<or> (b = 2 \<and> f = UShort)"
    and vs: "list_all (\<lambda>v. v < 256 ^ b) (q_samples ?g)"
    and lb: "length (concat (map (sample_bytes b) (q_samples ?g))) = nat (q_width src) * nat (q_height src) * b"
    and r: "imageFromQImage conv dst src =
             Some ((image_clear dst)\<lparr>io_image := \<lparr>img_width = q_width src, img_height = q_height src, img_format = f,
                     img_data = Some (concat (map (sample_bytes b) (q_samples ?g)))\<rparr>\<rparr>)"
    using imageFromQImage_result [OF conv w h g, of dst] by blast
  have px: "\<forall>k < length (q_samples ?g). pixel \<lparr>img_width = q_width src, img_height = q_height src, img_format = f,
                   img_data = Some (concat (map (sample_bytes b) (q_samples ?g)) @ [])\<rparr> (int k) = real (q_samples ?g ! k)"
    using pixel_samples bf vs by blast
  have "int (nat (q_width src) * nat (q_height src) * b) = (if f = UChar then 1 else 2) * q_width src * q_height src"
    using bf w h by auto
  then show ?thesis using r px bf lb by (auto simp: isValid_def image_wf_def)
qed

theorem imageFromQImage_pixels_witness:
  "conv_ok (\<lambda>src f. \<lparr>q_format = f, q_width = q_width src, q_height = q_height src,
                      q_samples = replicate (nat (q_width src) * nat (q_height src)) 0\<rparr>) \<and>
   0 \<le> q_width \<lparr>q_format = Format_Grayscale16, q_width = 2, q_height = 1, q_samples = [300, 7]\<rparr> \<and>
   0 \<le> q_height \<lparr>q_format = Format_Grayscale16, q_width = 2, q_height = 1, q_samples = [300, 7]\<rparr> \<and>
   gray_ok \<lparr>q_format = Format_Grayscale16, q_width = 2, q_height = 1, q_samples = [300, 7]\<rparr> \<and>
   (\<exists>dst'. imageFromQImage (\<lambda>src f. \<lparr>q_format = f, q_width = q_width src, q_height = q_height src,
                      q_samples = replicate (nat (q_width src) * nat (q_height src)) 0\<rparr>) ImageObj_new
              \<lparr>q_format = Format_Grayscale16, q_width = 2, q_height = 1, q_samples = [300, 7]\<rparr> = Some dst' \<and>
            isValid (io_image dst') \<and> pixel (io_image dst') 0 = 300)"
proof -
  let ?c = "\<lambda>src f. \<lparr>q_format = f, q_width = q_width src, q_height = q_height src,
                      q_samples = replicate (nat (q_width src) * nat (q_height src)) 0\<rparr>"
  let ?s = "\<lparr>q_format = Format_Grayscale16, q_width = 2, q_height = 1, q_samples = [300, 7 :: nat]\<rparr>"
  have c: "conv_ok ?c" by (simp add: conv_ok_def gray_ok_def max_sample_def list_all_iff)
  have g: "gray_ok ?s" by (simp add: gray_ok_def max_sample_def)
  have w: "0 \<le> q_width ?s" "0 \<le> q_height ?s" by simp_all
  obtain dst' where d: "imageFromQImage ?c ImageObj_new ?s = Some dst'" "isValid (io_image dst')"
    "\<forall>k < length (q_samples (grayscale_of ?c ?s)). pixel (io_image dst') (int k) = real (q_samples (grayscale_of ?c ?s) ! k)"
    using imageFromQImage_pixels [OF c w, of ImageObj_new] g by blast
  have "pixel (io_image dst') (int 0) = real (q_samples (grayscale_of ?c ?s) ! 0)"
    using d(3) by (simp del: of_nat_0 add: grayscale_of_def)
  then have "pixel (io_image dst') 0 = 300" by (simp add: grayscale_of_def)
  with c g w d show ?thesis by blast
qed

end
