(* ===== verification/Controller.thy ===== *)
theory Controller
  imports Exporter ImageConverter
begin

text \<open>
  The file and image menus of \<open>Controller\<close> (src/Source/Controller/Controller.cpp): saving
  with the deselection that finalises an edit, importing an image (\<open>onNew\<close>) and opening
  a saved file (\<open>onOpen\<close>) with the save query before and the reset after, the windowing,
  interpolation, visibility and view resets, and the close query. The application state
  is the model, its image object and the view (with the render state). The answers of the
  dialogs are parameters: the file name of a file dialog (\<open>None\<close> for a cancelled dialog,
  the empty string for an empty one), the button of the save query, whether a file
  stream opened, and the image or stream read from the chosen file. The contour menu
  slots call the model's operations with the cursor radius in contour units; the fits
  read the image through the model's \<open>ImageFilterer\<close>, whose vessel contrast is
  \<open>app_contrast\<close>.
\<close>

record App =
  app_model :: Model
  app_image :: ImageObj
  app_view :: GLView
  app_contrast :: VesselContrastType

text \<open>The buttons of the save query (\<open>QMessageBox::StandardButton\<close>).\<close>

datatype SaveAnswer = Ans_Cancel | Ans_No | Ans_Yes

text \<open>
  \<open>QFileInfo::suffix\<close>: the characters after the last dot of the file name (the part
  after the last slash), empty without a dot.
\<close>

definition file_suffix :: "string \<Rightarrow> string" where
  "file_suffix path =
     (let name = rev (takeWhile (\<lambda>c. c \<noteq> CHR ''/'') (rev path))
      in if CHR ''.'' \<in> set name then rev (takeWhile (\<lambda>c. c \<noteq> CHR ''.'') (rev name)) else [])"

definition save_filename :: "string \<Rightarrow> string" where
  "save_filename filename = (if file_suffix filename \<noteq> ''vscl'' then filename @ ''.vscl'' else filename)"

text \<open>
  \<open>onSave\<close>: deselect (which ends any drawing or editing), then, for a non-empty file name,
  write the model to the file named with the \<open>.vscl\<close> suffix. The result is the state and
  the file written (name and contents).
\<close>

definition onSave :: "float_fmt \<Rightarrow> App \<Rightarrow> string option \<Rightarrow> bool \<Rightarrow> App \<times> (string \<times> string) option" where
  "onSave fmt a dialog opened =
     (let a = a\<lparr>app_model := deselect (app_model a)\<rparr>
      in case dialog of
           None \<Rightarrow> (a, None)
         | Some filename \<Rightarrow>
             if filename = [] then (a, None)
             else (a, Some (save_filename filename, model_save fmt opened (app_model a) (app_image a))))"

text \<open>\<open>Model::clear\<close> on the application: the image and the contour are cleared.\<close>

definition app_clear :: "App \<Rightarrow> App" where
  "app_clear a = a\<lparr>app_model := model_clear (app_model a), app_image := image_clear (app_image a)\<rparr>"

text \<open>
  \<open>prepareForLoad\<close>: with a valid image, ask whether to save; \<open>Cancel\<close> returns from
  \<open>prepareForLoad\<close> at once, \<open>Yes\<close> saves first. Then the model is cleared.
\<close>

definition prepareForLoad :: "float_fmt \<Rightarrow> App \<Rightarrow> SaveAnswer \<Rightarrow> string option \<Rightarrow> bool \<Rightarrow> App \<times> (string \<times> string) option" where
  "prepareForLoad fmt a save dialog opened =
     (if isValid (io_image (app_image a)) then
        (case save of
           Ans_Cancel \<Rightarrow> (a, None)
         | Ans_Yes \<Rightarrow> (case onSave fmt a dialog opened of (a, out) \<Rightarrow> (app_clear a, out))
         | Ans_No \<Rightarrow> (app_clear a, None))
      else (app_clear a, None))"

text \<open>
  \<open>updateForLoaded\<close>: the windowing range from the image statistics and the default
  window, the contour made visible, the image centred in the viewport, the cursor reset,
  the image handed to the image renderer, and a full update. The model reads the
  window-to-contour scale of the render state, so its copy follows the new transform.
\<close>

definition updateForLoaded :: "App \<Rightarrow> App" where
  "updateForLoaded a =
     (let (minValue, obj) = normalizedMinValue (app_image a);
          (maxValue, obj) = normalizedMaxValue obj;
          v = app_view a;
          v = v\<lparr>gv_rs := windowing_for_loaded (gv_rs v) minValue maxValue\<rparr>;
          v = v\<lparr>gv_rs := centerImageInViewport (gv_rs v) (img_width (io_image obj)) (img_height (io_image obj))\<rparr>;
          v = v\<lparr>gv_cursor := cursor_init (gv_cursor v)\<rparr>;
          v = gv_setImage v (io_image obj);
          v = v\<lparr>gv_rs := (gv_rs v)\<lparr>allNeedUpdate := True\<rparr>\<rparr>
      in a\<lparr>app_image := obj, app_view := v,
           app_model := (app_model a)\<lparr>windowToContourScale := windowToImageScale (gv_rs v)\<rparr>\<rparr>)"

text \<open>
  \<open>onNew\<close>: for a chosen file, \<open>prepareForLoad\<close>, then the image converted into the
  model's image, then \<open>updateForLoaded\<close>. The model's \<open>imageValid\<close> follows the image.
  \<open>None\<close> is a copy past the end of the buffer (see ImageConverter).
\<close>

definition onNew :: "qconv \<Rightarrow> float_fmt \<Rightarrow> App \<Rightarrow> QImage option \<Rightarrow> SaveAnswer \<Rightarrow> string option \<Rightarrow> bool \<Rightarrow>
                     (App \<times> (string \<times> string) option) option" where
  "onNew conv fmt a inputImage save dialog opened =
     (case inputImage of
        None \<Rightarrow> Some (a, None)
      | Some q \<Rightarrow>
          (case prepareForLoad fmt a save dialog opened of (a, out) \<Rightarrow>
           case imageFromQImage conv (app_image a) q of
             None \<Rightarrow> None
           | Some obj \<Rightarrow>
               Some (updateForLoaded (a\<lparr>app_image := obj,
                                         app_model := (app_model a)\<lparr>imageValid := isValid (io_image obj)\<rparr>\<rparr>), out)))"

text \<open>\<open>onOpen\<close>: for a chosen file, \<open>prepareForLoad\<close>, \<open>Model::load\<close>, \<open>updateForLoaded\<close>.\<close>

definition onOpen :: "float_rd \<Rightarrow> float_fmt \<Rightarrow> App \<Rightarrow> istream option \<Rightarrow> bool \<Rightarrow> SaveAnswer \<Rightarrow> string option \<Rightarrow> bool \<Rightarrow>
                      (App \<times> (string \<times> string) option) option" where
  "onOpen rd fmt a file is_open save dialog opened =
     (case file of
        None \<Rightarrow> Some (a, None)
      | Some s \<Rightarrow>
          (case prepareForLoad fmt a save dialog opened of (a, out) \<Rightarrow>
           map_option (\<lambda>(m, obj). (updateForLoaded (a\<lparr>app_model := m, app_image := obj\<rparr>), out))
             (model_load rd is_open (app_model a) (app_image a) s)))"

section \<open>Image, contour and view menus\<close>

definition onResetWindowing :: "App \<Rightarrow> App" where
  "onResetWindowing a =
     a\<lparr>app_view := (app_view a)\<lparr>gv_rs := (setDefaultWindowing (gv_rs (app_view a)))\<lparr>imageRendererNeedsUpdate := True\<rparr>\<rparr>\<rparr>"

definition onToggleImageInterpolation :: "App \<Rightarrow> bool \<Rightarrow> App" where
  "onToggleImageInterpolation a interpolate =
     a\<lparr>app_view := (app_view a)\<lparr>gv_rs := (gv_rs (app_view a))\<lparr>interpolateImage := interpolate,
                                                                  imageRendererNeedsUpdate := True\<rparr>\<rparr>\<rparr>"

definition onToggleContourVisibility :: "App \<Rightarrow> bool \<Rightarrow> App" where
  "onToggleContourVisibility a visible =
     a\<lparr>app_view := (app_view a)\<lparr>gv_rs := (gv_rs (app_view a))\<lparr>isContourVisible := visible\<rparr>\<rparr>,
       app_model := (app_model a)\<lparr>contourNeedsUpdate := True\<rparr>\<rparr>"

text \<open>
  \<open>onToggleImageFormat\<close>: light-on-dark becomes dark-on-light and anything else
  light-on-dark (the action's label is not modelled).
\<close>

definition onToggleImageFormat :: "App \<Rightarrow> App" where
  "onToggleImageFormat a =
     a\<lparr>app_contrast := (if app_contrast a = LightOnDark then DarkOnLight else LightOnDark)\<rparr>"

text \<open>The contour menu: each slot calls the model, then flags the contour for redrawing.\<close>

definition onDeselect :: "App \<Rightarrow> App" where
  "onDeselect a = a\<lparr>app_model := (deselect (app_model a))\<lparr>contourNeedsUpdate := True\<rparr>\<rparr>"

definition onDeleteSelected :: "App \<Rightarrow> App" where
  "onDeleteSelected a = a\<lparr>app_model := (deleteSelected (app_model a))\<lparr>contourNeedsUpdate := True\<rparr>\<rparr>"

definition onClearContour :: "App \<Rightarrow> App" where
  "onClearContour a =
     a\<lparr>app_model := (app_model a)\<lparr>m_contour := contour_clear (m_contour (app_model a)),
                                  contourNeedsUpdate := True\<rparr>\<rparr>"

text \<open>
  The expected vessel radius of the fits: the cursor radius in window pixels times the
  render state's \<open>windowToContourScale\<close> (its \<open>windowToImageScale\<close>).
\<close>

definition expectedRadius :: "App \<Rightarrow> real" where
  "expectedRadius a = cur_radius (gv_cursor (app_view a)) * windowToImageScale (gv_rs (app_view a))"

text \<open>
  \<open>onFitSelectedToVessel\<close>: the model's fit with the filterer's
  \<open>getVecToClosestVessel\<close> on the image and the current contrast.
\<close>

definition onFitSelectedToVessel :: "App \<Rightarrow> App" where
  "onFitSelectedToVessel a =
     a\<lparr>app_model := (fitSelectedToNearestVessel (getVecToClosestVessel (io_image (app_image a)) (app_contrast a))
                        (app_model a) (expectedRadius a))\<lparr>activeCurveNeedsUpdate := True\<rparr>\<rparr>"

text \<open>
  \<open>onFitWidthOfSelected\<close>: the model's width fit with the filterer's width function
  \<open>widthAt\<close> (\<open>getWidthAtP\<close>, whose kernel cache the theory ImageFilterer shows to give
  the width of a fresh kernel, \<open>getWidthAtP_refines\<close>).
\<close>

definition onFitWidthOfSelected :: "(vec2 \<Rightarrow> vec2 \<Rightarrow> real \<Rightarrow> real) \<Rightarrow> App \<Rightarrow> App" where
  "onFitWidthOfSelected widthAt a =
     a\<lparr>app_model := (fitSelectedVesselWidth widthAt (app_model a) (expectedRadius a))\<lparr>activeCurveNeedsUpdate := True\<rparr>\<rparr>"

text \<open>
  \<open>onResetView\<close>: the world-to-view transform is reset, which gives a new
  window-to-contour scale; the cursor keeps its size in contour units.
\<close>

definition onResetView :: "App \<Rightarrow> App" where
  "onResetView a =
     (let v = app_view a;
          prevWindowToContourScale = windowToImageScale (gv_rs v);
          rs = resetWorldToView (gv_rs v);
          divisor = max flt_epsilon (windowToImageScale rs);
          scaleDelta = prevWindowToContourScale / divisor;
          v = v\<lparr>gv_rs := rs, gv_cursor := setRadius (gv_cursor v) (cur_radius (gv_cursor v) * scaleDelta)\<rparr>
      in a\<lparr>app_model := (app_model a)\<lparr>windowToContourScale := windowToImageScale rs\<rparr>,
           app_view := v\<lparr>gv_rs := (gv_rs v)\<lparr>allNeedUpdate := True\<rparr>\<rparr>\<rparr>)"

text \<open>\<open>closeEvent\<close>: the state, whether the window closes, and the file saved.\<close>

definition closeEvent :: "float_fmt \<Rightarrow> App \<Rightarrow> SaveAnswer \<Rightarrow> string option \<Rightarrow> bool \<Rightarrow> App \<times> bool \<times> (string \<times> string) option" where
  "closeEvent fmt a save dialog opened =
     (case save of
        Ans_Cancel \<Rightarrow> (a, False, None)
      | Ans_Yes \<Rightarrow> (case onSave fmt a dialog opened of (a, out) \<Rightarrow> (a, True, out))
      | Ans_No \<Rightarrow> (a, True, None))"

section \<open>Export\<close>

text \<open>
  \<open>ExportDialog\<close> (src/Source/Controller/ExportDialog.cpp): the image size and the three
  line edits for width, height and scale, held as the numbers their texts read back as,
  the file name and the export type (the first item of the combo box is Binary). A
  float written with \<open>QString::number\<close> reads back as \<open>num\<close> of it, a parameter (six
  significant digits in Qt); integers are written exactly. The division by a zero image
  size, a float infinity in C++, is 0 here.
\<close>

record ExportDialog =
  ed_imageWidth :: real
  ed_imageHeight :: real
  ed_width :: real
  ed_height :: real
  ed_scale :: real
  ed_filename :: string
  ed_type :: ExportType

definition ExportDialog_new :: "int \<Rightarrow> int \<Rightarrow> ExportDialog" where
  "ExportDialog_new w h =
     \<lparr>ed_imageWidth = real_of_int w, ed_imageHeight = real_of_int h, ed_width = real_of_int w,
      ed_height = real_of_int h, ed_scale = 1, ed_filename = ''output.png'', ed_type = ExportBinary\<rparr>"

definition onSetWidth :: "(real \<Rightarrow> real) \<Rightarrow> ExportDialog \<Rightarrow> real \<Rightarrow> ExportDialog" where
  "onSetWidth num d newWidth =
     (let newScale = newWidth / ed_imageWidth d
      in d\<lparr>ed_width := newWidth, ed_scale := num newScale,
           ed_height := real_of_int (c_trunc (newScale * ed_imageHeight d))\<rparr>)"

definition onSetHeight :: "(real \<Rightarrow> real) \<Rightarrow> ExportDialog \<Rightarrow> real \<Rightarrow> ExportDialog" where
  "onSetHeight num d newHeight =
     (let newScale = newHeight / ed_imageHeight d
      in d\<lparr>ed_height := newHeight, ed_scale := num newScale,
           ed_width := real_of_int (c_trunc (newScale * ed_imageWidth d))\<rparr>)"

definition onSetScale :: "ExportDialog \<Rightarrow> real \<Rightarrow> ExportDialog" where
  "onSetScale d newScale =
     d\<lparr>ed_scale := newScale, ed_width := real_of_int (c_trunc (newScale * ed_imageWidth d)),
       ed_height := real_of_int (c_trunc (newScale * ed_imageHeight d))\<rparr>"

definition imageToExportScale :: "ExportDialog \<Rightarrow> real" where
  "imageToExportScale d = ed_scale d"

text \<open>
  The parts of a path that \<open>QFileInfo\<close> gives: the file name after the last slash,
  the directory before it (\<open>.\<close> without a slash), \<open>completeSuffix\<close> after the first dot
  of the file name and \<open>completeBaseName\<close> before its last dot.
\<close>

definition qfi_fileName :: "string \<Rightarrow> string" where
  "qfi_fileName path = rev (takeWhile (\<lambda>c. c \<noteq> CHR ''/'') (rev path))"

definition qfi_path :: "string \<Rightarrow> string" where
  "qfi_path path =
     (let d = rev (dropWhile (\<lambda>c. c \<noteq> CHR ''/'') (rev path))
      in if d = [] then ''.'' else if d = ''/'' then d else butlast d)"

definition completeSuffix :: "string \<Rightarrow> string" where
  "completeSuffix path =
     (let name = qfi_fileName path
      in if CHR ''.'' \<in> set name then tl (dropWhile (\<lambda>c. c \<noteq> CHR ''.'') name) else [])"

definition completeBaseName :: "string \<Rightarrow> string" where
  "completeBaseName path =
     (let name = qfi_fileName path
      in if CHR ''.'' \<in> set name then rev (tl (dropWhile (\<lambda>c. c \<noteq> CHR ''.'') (rev name))) else name)"

text \<open>
  The file name \<open>onSetFilename\<close> computes: anything whose complete suffix is not
  \<open>.jpg\<close>, \<open>.jpeg\<close> or \<open>.png\<close> (with the dot, which \<open>completeSuffix\<close> never starts
  with after a single dot) is renamed to a \<open>.png\<close> beside it.
\<close>

definition export_filename :: "string \<Rightarrow> string" where
  "export_filename filename =
     (let ext = completeSuffix filename
      in if \<not> (ext = ''.jpg'' \<or> ext = ''.jpeg'' \<or> ext = ''.png'')
         then qfi_path filename @ ''/'' @ completeBaseName filename @ ''.png'' else filename)"

text \<open>\<open>onSetFilename\<close> keeps the computed name in a local and drops it: the dialog is unchanged.\<close>

definition onSetFilename :: "ExportDialog \<Rightarrow> ExportDialog" where
  "onSetFilename d = (let filename = export_filename (ed_filename d) in d)"

text \<open>\<open>onBrowse\<close>: the save dialog's answer (empty when cancelled) becomes the file name.\<close>

definition onBrowse :: "ExportDialog \<Rightarrow> string \<Rightarrow> ExportDialog" where
  "onBrowse d filename = d\<lparr>ed_filename := filename\<rparr>"

text \<open>
  \<open>onExport\<close>: deselect, then, when the dialog (made with the image size) is accepted,
  export with its scale and type. The dialog's state at acceptance is the parameter.
\<close>

definition onExport :: "App \<Rightarrow> ExportDialog option \<Rightarrow> bool \<Rightarrow> bool \<Rightarrow>
                        App \<times> (render_error + (int \<times> int \<times> RenderedImage) option) option" where
  "onExport a dialog setupOk linked =
     (let a = a\<lparr>app_model := deselect (app_model a)\<rparr>
      in case dialog of
           None \<Rightarrow> (a, None)
         | Some d \<Rightarrow> (a, Some (exportSegmentation (app_model a) (io_image (app_image a)) setupOk linked
                                 (imageToExportScale d) (ed_type d))))"

section \<open>Colours and construction\<close>

text \<open>
  \<open>setContourColors\<close>: the active-curve colour, a muted version for the other curves
  (\<open>QColor::setHsv\<close> with 0.8 of the value, the parameter \<open>mute\<close>; the colours of the
  render state are Qt values and not held), a contour update, and the cursor drawn in
  the muted colour.
\<close>

definition setContourColors :: "(rgb \<Rightarrow> rgb) \<Rightarrow> App \<Rightarrow> rgb \<Rightarrow> App" where
  "setContourColors mute a color =
     a\<lparr>app_model := (app_model a)\<lparr>contourNeedsUpdate := True\<rparr>,
       app_view := (app_view a)\<lparr>gv_cursor := setColor (gv_cursor (app_view a)) (mute color)\<rparr>\<rparr>"

text \<open>
  \<open>Controller::Controller\<close> with the first \<open>initializeGL\<close> of its view in a window of
  \<open>w\<close> by \<open>h\<close>: a model with no image reading the render state's scale, the view's cursor
  coloured by \<open>setContourColors\<close> with the initial colour (253, 223, 103), then the
  renderers and the transforms.
\<close>

definition Controller_new :: "(rgb \<Rightarrow> rgb) \<Rightarrow> int \<Rightarrow> int \<Rightarrow> bool \<Rightarrow> bool \<Rightarrow> App" where
  "Controller_new mute w h imageLinked contourLinked =
     (let c = setColor Cursor_new (mute (253, 223, 103));
          v = initializeGL RenderState_new c w h imageLinked contourLinked
      in \<lparr>app_model = (Model_new (windowToImageScale (gv_rs v)))\<lparr>contourNeedsUpdate := True\<rparr>,
          app_image = ImageObj_new, app_view = v, app_contrast = DarkOnLight\<rparr>)"

text \<open>\<open>GL_View::resizeGL\<close> as the window is resized; the model's scale follows the view.\<close>

definition onResize :: "App \<Rightarrow> int \<Rightarrow> int \<Rightarrow> App" where
  "onResize a w h =
     (let v = resizeGL (app_view a) w h
      in a\<lparr>app_view := v, app_model := (app_model a)\<lparr>windowToContourScale := windowToImageScale (gv_rs v)\<rparr>\<rparr>)"

section \<open>Menu actions and shortcuts\<close>

text \<open>
  \<open>createMainWindow\<close> binds keys to the menu actions and connects each action to its
  slot. A command is a slot with the answers of the dialogs it opens; \<open>controller_step\<close>
  runs it (\<open>None\<close> when a slot reaches undefined behaviour, a copy past a buffer).
  \<open>onExit\<close> and \<open>closeEvent\<close> close the window, \<open>onDisplayShortcutKeys\<close> only shows text,
  and the colour dialog and \<open>onToggleImageFormat\<close> reach no modelled state.
\<close>

datatype Key = Key_CtrlN | Key_CtrlO | Key_CtrlS | Key_Esc | Key_D | Key_Delete | Key_V | Key_F | Key_W | Key_R

datatype MenuAction = Act_New | Act_Open | Act_Save | Act_Export | Act_Exit | Act_ResetWindowing
  | Act_ToggleInterpolation | Act_ToggleImageFormat | Act_Deselect | Act_DeleteSelected | Act_ClearContour
  | Act_SetContourColor | Act_ToggleVisibility | Act_FitSelected | Act_FitWidth | Act_ResetView
  | Act_DisplayShortcuts

definition shortcut :: "Key \<Rightarrow> MenuAction" where
  "shortcut k =
     (case k of Key_CtrlN \<Rightarrow> Act_New | Key_CtrlO \<Rightarrow> Act_Open | Key_CtrlS \<Rightarrow> Act_Save | Key_Esc \<Rightarrow> Act_Exit
      | Key_D \<Rightarrow> Act_Deselect | Key_Delete \<Rightarrow> Act_DeleteSelected | Key_V \<Rightarrow> Act_ToggleVisibility
      | Key_F \<Rightarrow> Act_FitSelected | Key_W \<Rightarrow> Act_FitWidth | Key_R \<Rightarrow> Act_ResetView)"

datatype Command =
    Cmd_New "QImage option" SaveAnswer "string option" bool
  | Cmd_Open "istream option" bool SaveAnswer "string option" bool
  | Cmd_Save "string option" bool
  | Cmd_Export "ExportDialog option" bool bool
  | Cmd_ResetWindowing
  | Cmd_ToggleInterpolation bool
  | Cmd_ToggleVisibility bool
  | Cmd_ResetView
  | Cmd_Resize int int
  | Cmd_Wheel "int \<times> int" "int \<times> int"
  | Cmd_SetContourColor rgb
  | Cmd_ToggleImageFormat
  | Cmd_Deselect
  | Cmd_DeleteSelected
  | Cmd_ClearContour
  | Cmd_FitSelected
  | Cmd_FitWidth

definition controller_step :: "qconv \<Rightarrow> float_fmt \<Rightarrow> float_rd \<Rightarrow> (rgb \<Rightarrow> rgb) \<Rightarrow>
                               (vec2 \<Rightarrow> vec2 \<Rightarrow> real \<Rightarrow> real) \<Rightarrow> App \<Rightarrow> Command \<Rightarrow> App option" where
  "controller_step conv fmt rd mute widthAt a cmd =
     (case cmd of
        Cmd_New q save dialog opened \<Rightarrow> map_option fst (onNew conv fmt a q save dialog opened)
      | Cmd_Open file is_open save dialog opened \<Rightarrow> map_option fst (onOpen rd fmt a file is_open save dialog opened)
      | Cmd_Save dialog opened \<Rightarrow> Some (fst (onSave fmt a dialog opened))
      | Cmd_Export d setupOk linked \<Rightarrow> Some (fst (onExport a d setupOk linked))
      | Cmd_ResetWindowing \<Rightarrow> Some (onResetWindowing a)
      | Cmd_ToggleInterpolation b \<Rightarrow> Some (onToggleImageInterpolation a b)
      | Cmd_ToggleVisibility b \<Rightarrow> Some (onToggleContourVisibility a b)
      | Cmd_ResetView \<Rightarrow> Some (onResetView a)
      | Cmd_Resize w h \<Rightarrow> Some (onResize a w h)
      | Cmd_Wheel px ang \<Rightarrow> Some (a\<lparr>app_view := (app_view a)\<lparr>gv_cursor := wheelEvent (gv_cursor (app_view a)) px ang\<rparr>\<rparr>)
      | Cmd_SetContourColor color \<Rightarrow> Some (setContourColors mute a color)
      | Cmd_ToggleImageFormat \<Rightarrow> Some (onToggleImageFormat a)
      | Cmd_Deselect \<Rightarrow> Some (onDeselect a)
      | Cmd_DeleteSelected \<Rightarrow> Some (onDeleteSelected a)
      | Cmd_ClearContour \<Rightarrow> Some (onClearContour a)
      | Cmd_FitSelected \<Rightarrow> Some (onFitSelectedToVessel a)
      | Cmd_FitWidth \<Rightarrow> Some (onFitWidthOfSelected widthAt a))"

fun run_controller :: "qconv \<Rightarrow> float_fmt \<Rightarrow> float_rd \<Rightarrow> (rgb \<Rightarrow> rgb) \<Rightarrow>
                       (vec2 \<Rightarrow> vec2 \<Rightarrow> real \<Rightarrow> real) \<Rightarrow> App \<Rightarrow> Command list \<Rightarrow> App option" where
  "run_controller conv fmt rd mute widthAt a [] = Some a"
| "run_controller conv fmt rd mute widthAt a (c # cs) =
     (case controller_step conv fmt rd mute widthAt a c of
        None \<Rightarrow> None
      | Some a' \<Rightarrow> run_controller conv fmt rd mute widthAt a' cs)"

section \<open>Properties of the menus\<close>

lemma normalized_image [simp]:
  "io_image (snd (normalizedMinValue obj)) = io_image obj" "io_image (snd (normalizedMaxValue obj)) = io_image obj"
  by (simp_all add: normalizedMinValue_def normalizedMaxValue_def Let_def)

lemma updateForLoaded_keeps:
  "m_contour (app_model (updateForLoaded a)) = m_contour (app_model a) \<and>
   imageValid (app_model (updateForLoaded a)) = imageValid (app_model a) \<and>
   io_image (app_image (updateForLoaded a)) = io_image (app_image a)"
proof -
  obtain mn o1 where 1: "normalizedMinValue (app_image a) = (mn, o1)" by fastforce
  obtain mx o2 where 2: "normalizedMaxValue o1 = (mx, o2)" by fastforce
  have "io_image o2 = io_image (app_image a)"
    using normalized_image(1) [of "app_image a"] normalized_image(2) [of o1] 1 2 by simp
  then show ?thesis by (simp add: updateForLoaded_def 1 2 Let_def)
qed

text \<open>Saving always writes a model with no active curve: the edit in progress is ended.\<close>

lemma onSave_deselected: "idActiveCurve (m_contour (app_model (fst (onSave fmt a d opened)))) < 0"
  by (auto simp: onSave_def deselect_def set_needs_update_def deselectCurve_def Let_def split: option.split)

text \<open>The name a file is saved under always ends in \<open>.vscl\<close>.\<close>

lemma save_filename_suffix: "file_suffix (save_filename f) = ''vscl''"
  by (auto simp: save_filename_def file_suffix_def Let_def takeWhile_append)

text \<open>
  C5: answering \<open>Cancel\<close> to the save query of File, New does not cancel the import:
  \<open>prepareForLoad\<close> returns without clearing the model, and \<open>onNew\<close> goes on to convert
  the new image into the model's image. The old contour is kept and shown over the new
  image, and nothing is saved.
\<close>

theorem onNew_cancel_keeps_contour:
  assumes "isValid (io_image (app_image a))" and conv: "conv_ok conv"
    and w: "0 \<le> q_width q" and h: "0 \<le> q_height q"
    and g: "q_format q = Format_Grayscale8 \<or> q_format q = Format_Grayscale16 \<longrightarrow> gray_ok q"
  shows "\<exists>a'. onNew conv fmt a (Some q) Ans_Cancel dialog opened = Some (a', None) \<and>
              m_contour (app_model a') = m_contour (app_model a) \<and> isValid (io_image (app_image a')) \<and>
              img_width (io_image (app_image a')) = q_width q \<and> img_height (io_image (app_image a')) = q_height q"
proof -
  obtain b f where r: "imageFromQImage conv (app_image a) q =
      Some ((image_clear (app_image a))\<lparr>io_image := \<lparr>img_width = q_width q, img_height = q_height q, img_format = f,
              img_data = Some (concat (map (sample_bytes b) (q_samples (grayscale_of conv q))))\<rparr>\<rparr>)"
    using imageFromQImage_result [OF conv w h g, of "app_image a"] by blast
  have p: "prepareForLoad fmt a Ans_Cancel dialog opened = (a, None)"
    using assms(1) by (simp add: prepareForLoad_def)
  show ?thesis using updateForLoaded_keeps by (simp add: onNew_def p r isValid_def)
qed

theorem onNew_cancel_keeps_contour_witness:
  "isValid (io_image (Image_create 1 1 UChar ''a'')) \<and>
   conv_ok (\<lambda>src f. \<lparr>q_format = f, q_width = q_width src, q_height = q_height src,
                      q_samples = replicate (nat (q_width src) * nat (q_height src)) 0\<rparr>) \<and>
   gray_ok \<lparr>q_format = Format_Grayscale8, q_width = 1, q_height = 1, q_samples = [7]\<rparr> \<and>
   (\<exists>a'. onNew (\<lambda>src f. \<lparr>q_format = f, q_width = q_width src, q_height = q_height src,
                            q_samples = replicate (nat (q_width src) * nat (q_height src)) 0\<rparr>) fmt_int
           \<lparr>app_model = (Model_new 1)\<lparr>m_contour := fst (addCurve Contour_new)\<rparr>,
            app_image = Image_create 1 1 UChar ''a'',
            app_view = initializeGL RenderState_new Cursor_new 100 100 True True, app_contrast = DarkOnLight\<rparr>
           (Some \<lparr>q_format = Format_Grayscale8, q_width = 1, q_height = 1, q_samples = [7]\<rparr>) Ans_Cancel None True =
         Some (a', None) \<and>
         m_contour (app_model a') = fst (addCurve Contour_new) \<and> isValid (io_image (app_image a')))"
proof -
  let ?c = "\<lambda>src f. \<lparr>q_format = f, q_width = q_width src, q_height = q_height src,
                      q_samples = replicate (nat (q_width src) * nat (q_height src)) 0\<rparr>"
  let ?a = "\<lparr>app_model = (Model_new 1)\<lparr>m_contour := fst (addCurve Contour_new)\<rparr>,
             app_image = Image_create 1 1 UChar ''a'', app_view = initializeGL RenderState_new Cursor_new 100 100 True True,
             app_contrast = DarkOnLight\<rparr>"
  let ?q = "\<lparr>q_format = Format_Grayscale8, q_width = 1, q_height = 1, q_samples = [7 :: nat]\<rparr>"
  have v: "isValid (io_image (app_image ?a))" by (simp add: Image_create_def isValid_def)
  have c: "conv_ok ?c" by (simp add: conv_ok_def gray_ok_def max_sample_def list_all_iff)
  have g: "gray_ok ?q" by (simp add: gray_ok_def max_sample_def)
  show ?thesis using onNew_cancel_keeps_contour [OF v c, of ?q fmt_int None True] v c g by simp blast
qed

text \<open>
  Typing a width of 1 for an image 3 pixels wide sets the scale text to \<open>1/3\<close> written
  with six digits; the exporter multiplies the image size by that scale and truncates,
  so the export is 0 by 0 and its read-back uses \<open>nullptr\<close>, although the dialog shows
  a width and height of 1.
\<close>

lemma export_width_typed_crashes:
  assumes n: "num (1 / 3) = 333333 / 1000000"
    and w: "img_width (io_image (app_image a)) = 3" and h: "img_height (io_image (app_image a)) = 3"
  shows "ed_width (onSetWidth num (ExportDialog_new 3 3) 1) = 1 \<and> ed_height (onSetWidth num (ExportDialog_new 3 3) 1) = 1 \<and>
         snd (onExport a (Some (onSetWidth num (ExportDialog_new 3 3) 1)) True linked) = Some (Inl NullFbo)"
proof -
  have d: "ed_width (onSetWidth num (ExportDialog_new 3 3) 1) = 1 \<and> ed_height (onSetWidth num (ExportDialog_new 3 3) 1) = 1"
    by (simp add: onSetWidth_def ExportDialog_new_def)
  have s: "imageToExportScale (onSetWidth num (ExportDialog_new 3 3) 1) = 333333 / 1000000"
    using n by (simp add: imageToExportScale_def onSetWidth_def ExportDialog_new_def)
  have z: "export_size 3 (333333 / 1000000) = 0" by (simp add: export_size_def)
  have e: "exportSegmentation m (io_image (app_image a)) True linked (333333 / 1000000) t = Inl NullFbo" for m t
    by (rule export_zero_size) (simp_all only: w h z)
  let ?d = "onSetWidth num (ExportDialog_new 3 3) 1"
  have x: "snd (onExport a (Some ?d) True linked) =
           Some (exportSegmentation (deselect (app_model a)) (io_image (app_image a)) True linked
                   (imageToExportScale ?d) (ed_type ?d))"
    by (simp add: onExport_def Let_def)
  have y: "exportSegmentation (deselect (app_model a)) (io_image (app_image a)) True linked
             (imageToExportScale ?d) (ed_type ?d) = Inl NullFbo"
    unfolding s by (rule e)
  show ?thesis using d x y by simp
qed

text \<open>
  The export file name: a name with at most one dot is always renamed to \<open>.png\<close>, a
  JPEG name included, because the suffix test expects a leading dot; only a name such
  as \<open>vessels..jpg\<close> keeps its JPEG suffix. The result is discarded in any case.
\<close>

lemma dots_after_first_dot:
  "CHR ''.'' \<in> set xs \<Longrightarrow>
   length (filter (\<lambda>c. c = CHR ''.'') (tl (dropWhile (\<lambda>c. c \<noteq> CHR ''.'') xs))) =
   length (filter (\<lambda>c. c = CHR ''.'') xs) - 1"
  by (induction xs) auto

lemma completeSuffix_no_dot:
  assumes "length (filter (\<lambda>c. c = CHR ''.'') (qfi_fileName f)) \<le> 1"
  shows "CHR ''.'' \<notin> set (completeSuffix f)"
proof -
  have "length (filter (\<lambda>c. c = CHR ''.'') (completeSuffix f)) = 0"
    using assms dots_after_first_dot [of "qfi_fileName f"] by (simp add: completeSuffix_def Let_def)
  then show ?thesis by (simp add: filter_empty_conv) blast
qed

lemma export_filename_png:
  assumes "length (filter (\<lambda>c. c = CHR ''.'') (qfi_fileName f)) \<le> 1"
  shows "export_filename f = qfi_path f @ ''/'' @ completeBaseName f @ ''.png''"
proof -
  have "completeSuffix f \<noteq> ''.jpg'' \<and> completeSuffix f \<noteq> ''.jpeg'' \<and> completeSuffix f \<noteq> ''.png''"
    using completeSuffix_no_dot [OF assms] by auto
  then show ?thesis by (simp add: export_filename_def)
qed

lemma export_filename_examples:
  "export_filename ''out/vessels.jpg'' = ''out/vessels.png''"
  "export_filename ''vessels.jpeg'' = ''./vessels.png''"
  "export_filename ''out/vessels..jpg'' = ''out/vessels..jpg''"
  "onSetFilename d = d"
  by (simp_all add: export_filename_def completeSuffix_def completeBaseName_def qfi_path_def qfi_fileName_def
                    onSetFilename_def)

section \<open>The application invariant\<close>

text \<open>
  The model's \<open>imageValid\<close> is the validity of its image, the cursor is well formed, and
  every renderer of the view has its framebuffer or its initial size.
\<close>

definition app_ok :: "App \<Rightarrow> bool" where
  "app_ok a \<longleftrightarrow> imageValid (app_model a) = isValid (io_image (app_image a)) \<and>
     cursor_ok (gv_cursor (app_view a)) \<and> gl_ok (app_view a)"

lemma deselect_imageValid [simp]: "imageValid (deselect m) = imageValid m"
  by (simp add: deselect_def set_needs_update_def)

lemma contour_menu_imageValid [simp]:
  "imageValid (deleteSelected m) = imageValid m"
  "imageValid (fitSelectedToNearestVessel vecTo m r) = imageValid m"
  "imageValid (fitSelectedVesselWidth widthAt m r) = imageValid m"
  by (simp_all add: deleteSelected_def set_needs_update_def fitSelectedToNearestVessel_def
                    fitSelectedVesselWidth_def Let_def split: option.split)

lemma ir_setImage_fbo [simp]:
  "ir_hasFbo (ir_setImage r img) = ir_hasFbo r \<and> ir_fboWidth (ir_setImage r img) = ir_fboWidth r \<and>
   ir_fboHeight (ir_setImage r img) = ir_fboHeight r"
  by (simp add: ir_setImage_def ir_setVertexBuffer_def Let_def split: DataFormat.split)

lemma updateForLoaded_ok: "app_ok a \<Longrightarrow> app_ok (updateForLoaded a)"
proof -
  assume a: "app_ok a"
  obtain mn o1 where 1: "normalizedMinValue (app_image a) = (mn, o1)" by fastforce
  obtain mx o2 where 2: "normalizedMaxValue o1 = (mx, o2)" by fastforce
  have "io_image o2 = io_image (app_image a)"
    using normalized_image(1) [of "app_image a"] normalized_image(2) [of o1] 1 2 by simp
  then show ?thesis using a cursor_init_ok
    by (simp add: app_ok_def updateForLoaded_def 1 2 Let_def gl_ok_def ir_fbo_ok_def gv_setImage_def)
qed

lemma app_clear_ok: "app_ok a \<Longrightarrow> app_ok (app_clear a)"
  by (simp add: app_ok_def app_clear_def model_clear_def image_clear_def isValid_def)

lemma onSave_ok: "app_ok a \<Longrightarrow> app_ok (fst (onSave fmt a d opened))"
  by (simp add: onSave_def app_ok_def Let_def split: option.split)

lemma prepareForLoad_ok: "app_ok a \<Longrightarrow> app_ok (fst (prepareForLoad fmt a save d opened))"
  using onSave_ok [of a fmt d opened] app_clear_ok
  by (auto simp: prepareForLoad_def split: SaveAnswer.split prod.split)

lemma model_load_valid:
  "model_load rd is_open m obj s = Some (m', obj') \<Longrightarrow> imageValid m = isValid (io_image obj) \<Longrightarrow>
   imageValid m' = isValid (io_image obj') \<and> m'\<lparr>m_contour := m_contour m, imageValid := imageValid m\<rparr> = m"
  by (auto simp: model_load_def Let_def split: prod.splits if_splits)

lemma onNew_ok: "app_ok a \<Longrightarrow> onNew conv fmt a q save d opened = Some (a', out) \<Longrightarrow> app_ok a'"
proof (cases q)
  case (Some qi)
  assume a: "app_ok a" and r: "onNew conv fmt a q save d opened = Some (a', out)"
  obtain a1 o1 where p: "prepareForLoad fmt a save d opened = (a1, o1)" by fastforce
  have a1: "app_ok a1" using prepareForLoad_ok [OF a, of fmt save d opened] p by simp
  obtain obj where i: "imageFromQImage conv (app_image a1) qi = Some obj"
    using r Some p by (auto simp: onNew_def split: option.splits)
  have "app_ok (a1\<lparr>app_image := obj, app_model := (app_model a1)\<lparr>imageValid := isValid (io_image obj)\<rparr>\<rparr>)"
    using a1 by (simp add: app_ok_def)
  then show ?thesis using r Some p i updateForLoaded_ok by (auto simp: onNew_def)
qed (auto simp: onNew_def)

lemma onOpen_ok: "app_ok a \<Longrightarrow> onOpen rd fmt a f is_open save d opened = Some (a', out) \<Longrightarrow> app_ok a'"
proof (cases f)
  case (Some s)
  assume a: "app_ok a" and r: "onOpen rd fmt a f is_open save d opened = Some (a', out)"
  obtain a1 o1 where p: "prepareForLoad fmt a save d opened = (a1, o1)" by fastforce
  have a1: "app_ok a1" using prepareForLoad_ok [OF a, of fmt save d opened] p by simp
  obtain m obj where l: "model_load rd is_open (app_model a1) (app_image a1) s = Some (m, obj)"
    using r Some p by (auto simp: onOpen_def)
  have "imageValid m = isValid (io_image obj)"
    using model_load_valid [OF l] a1 by (simp add: app_ok_def)
  then have "app_ok (a1\<lparr>app_model := m, app_image := obj\<rparr>)" using a1 by (simp add: app_ok_def)
  then show ?thesis using r Some p l updateForLoaded_ok by (auto simp: onOpen_def)
qed (auto simp: onOpen_def)

definition mute_ok :: "(rgb \<Rightarrow> rgb) \<Rightarrow> bool" where
  "mute_ok mute \<longleftrightarrow> (\<forall>c. rgb_ok (mute c))"

lemma controller_step_ok:
  assumes "mute_ok mute" "app_ok a" "controller_step conv fmt rd mute widthAt a c = Some a'"
  shows "app_ok a'"
proof (cases c)
  case (Cmd_New q save d opened)
  then show ?thesis using assms onNew_ok [OF assms(2)] by (auto simp: controller_step_def)
next
  case (Cmd_Open f is_open save d opened)
  then show ?thesis using assms onOpen_ok [OF assms(2)] by (auto simp: controller_step_def)
next
  case (Cmd_Save d opened)
  then show ?thesis using assms onSave_ok by (auto simp: controller_step_def)
next
  case Cmd_ResetView
  then show ?thesis using assms setRadius_ok
    by (auto simp: controller_step_def onResetView_def app_ok_def gl_ok_def Let_def)
next
  case (Cmd_Wheel px ang)
  then show ?thesis using assms wheelEvent_ok [of "gv_cursor (app_view a)" px ang]
    by (auto simp: controller_step_def app_ok_def gl_ok_def)
next
  case (Cmd_SetContourColor col)
  have "rgb_ok (mute col)" using assms(1) unfolding mute_ok_def by blast
  then show ?thesis using Cmd_SetContourColor assms setColor_ok [of "gv_cursor (app_view a)" "mute col"]
    by (auto simp: controller_step_def setContourColors_def app_ok_def gl_ok_def)
qed (use assms in \<open>auto simp: controller_step_def onExport_def onResetWindowing_def onToggleImageInterpolation_def
                     onToggleContourVisibility_def onResize_def resizeGL_def app_ok_def gl_ok_def Let_def
                     onToggleImageFormat_def onDeselect_def onDeleteSelected_def onClearContour_def
                     onFitSelectedToVessel_def onFitWidthOfSelected_def split: option.splits\<close>)

lemma run_controller_ok:
  "mute_ok mute \<Longrightarrow> app_ok a \<Longrightarrow> run_controller conv fmt rd mute widthAt a cs = Some a' \<Longrightarrow> app_ok a'"
proof (induction cs arbitrary: a)
  case (Cons c cs)
  then show ?case using controller_step_ok [OF Cons.prems(1,2), of conv fmt rd widthAt c] by (auto split: option.splits)
qed simp

lemma Controller_new_ok: "mute_ok mute \<Longrightarrow> app_ok (Controller_new mute w h imageLinked contourLinked)"
proof -
  assume m: "mute_ok mute"
  then have "rgb_ok (mute (253, 223, 103))" unfolding mute_ok_def by blast
  then have "cursor_ok (cursor_init (setColor Cursor_new (mute (253, 223, 103))))"
    using Cursor_new_ok setColor_ok cursor_init_ok by blast
  then show ?thesis
    by (simp add: app_ok_def Controller_new_def initializeGL_def gl_ok_def ir_fbo_ok_def fbo_ok_def
        GL_ImageRenderer_new_def GL_ContourRenderer_new_def ImageObj_new_def Model_new_def isValid_def)
qed

text \<open>
  C11: in every state the application reaches from its start by any sequence of menu
  commands (the contour menu's deletions and fits included, for any width function of the
  filterer), keyboard shortcuts, wheel events and resizes, whatever the dialogs answer, the model's
  \<open>imageValid\<close> agrees with its image, the cursor keeps a radius in \<open>[0.25, 15]\<close> and a
  32 by 32 pixmap of bytes, and every renderer keeps a framebuffer or its initial size, so
  that \<open>paintGL\<close> succeeds.
\<close>

theorem controller_reachable_ok:
  assumes "mute_ok mute"
    and "run_controller conv fmt rd mute widthAt (Controller_new mute w h imageLinked contourLinked) cs = Some a'"
  shows "app_ok a'"
  using run_controller_ok [OF assms(1) Controller_new_ok [OF assms(1)] assms(2)] .

theorem controller_reachable_ok_witness:
  "mute_ok (\<lambda>c. lightGray) \<and>
   (\<exists>a'. run_controller (\<lambda>q f. q) fmt_int rd_int (\<lambda>c. lightGray) (\<lambda>p d r. 0)
            (Controller_new (\<lambda>c. lightGray) 100 100 True True)
            [Cmd_ToggleInterpolation True, Cmd_ResetWindowing, Cmd_ToggleImageFormat, Cmd_Deselect,
             Cmd_FitSelected, Cmd_FitWidth, Cmd_ToggleVisibility False] = Some a' \<and>
         app_ok a')"
proof -
  have m: "mute_ok (\<lambda>c. lightGray)" by (simp add: mute_ok_def)
  obtain a' where r: "run_controller (\<lambda>q f. q) fmt_int rd_int (\<lambda>c. lightGray) (\<lambda>p d r. 0)
            (Controller_new (\<lambda>c. lightGray) 100 100 True True)
            [Cmd_ToggleInterpolation True, Cmd_ResetWindowing, Cmd_ToggleImageFormat, Cmd_Deselect,
             Cmd_FitSelected, Cmd_FitWidth, Cmd_ToggleVisibility False] = Some a'"
    by (simp add: controller_step_def)
  show ?thesis using controller_reachable_ok [OF m r] m r by blast
qed

text \<open>
  The vessel contrast only decides the sign of the attraction, so toggling the image
  format reverses every move of a fit; toggling twice restores the contrast. The
  \<open>NotSupported\<close> contrast attracts as light-on-dark and toggles to it.
\<close>

lemma getVecToClosestVessel_contrast:
  "getVecToClosestVessel img LightOnDark p r = - getVecToClosestVessel img DarkOnLight p r"
  "getVecToClosestVessel img NotSupported p r = getVecToClosestVessel img LightOnDark p r"
  by (simp_all add: getVecToClosestVessel_def Let_def)

lemma onToggleImageFormat_reverses:
  assumes "app_contrast a \<noteq> NotSupported"
  shows "getVecToClosestVessel img (app_contrast (onToggleImageFormat a)) p r =
         - getVecToClosestVessel img (app_contrast a) p r"
    and "onToggleImageFormat (onToggleImageFormat a) = a"
  using assms by (cases "app_contrast a"; simp add: onToggleImageFormat_def getVecToClosestVessel_contrast)+

text \<open>
  The contour colour the constructor and the colour dialog give the cursor does not
  last: \<open>initializeGL\<close> and every image load (\<open>initCursor\<close>) reset the cursor to
  light grey.
\<close>

lemma cursor_colour_reset:
  "cur_color (gv_cursor (app_view (Controller_new mute w h imageLinked contourLinked))) = lightGray"
  "cur_color (gv_cursor (app_view (updateForLoaded a))) = lightGray"
proof -
  obtain mn o1 where 1: "normalizedMinValue (app_image a) = (mn, o1)" by fastforce
  obtain mx o2 where 2: "normalizedMaxValue o1 = (mx, o2)" by fastforce
  show "cur_color (gv_cursor (app_view (Controller_new mute w h imageLinked contourLinked))) = lightGray"
    by (simp add: Controller_new_def initializeGL_def cursor_init_def Let_def)
  show "cur_color (gv_cursor (app_view (updateForLoaded a))) = lightGray"
    by (simp add: updateForLoaded_def 1 2 Let_def cursor_init_def gv_setImage_def)
qed

end
