(* ===== verification/BltRenderer.thy ===== *)
theory BltRenderer
  imports Prelude
begin

text \<open>
  The blit renderer (src/Source/View/GL_BltRenderer.cpp), which draws a texture over the
  whole window with an opacity. The shader programs it allocates are counted, to follow
  the ones it never frees; whether a program links is a parameter, and the drawing is the
  pair of texture and opacity it issues.
\<close>

record GL_BltRenderer =
  blt_hasShader :: bool
  blt_vertexBuffer :: "real list option"
  blt_allocated :: nat
  blt_freed :: nat

text \<open>\<open>setVertexBuffer\<close>: the window quad, position and texture coordinates per corner.\<close>

definition blt_setVertexBuffer :: "GL_BltRenderer \<Rightarrow> GL_BltRenderer" where
  "blt_setVertexBuffer r =
     r\<lparr>blt_vertexBuffer := Some [-1, -1, 0, 0, 0,  1, -1, 0, 1, 0,  1, 1, 0, 1, 1,  -1, 1, 0, 0, 1]\<rparr>"

text \<open>
  The constructor: a program is allocated and linked, then a second one is allocated
  into the same pointer and linked; if that link fails the second is deleted and the
  constructor returns, otherwise the vertex buffer is set.
\<close>

definition GL_BltRenderer_new :: "bool \<Rightarrow> GL_BltRenderer" where
  "GL_BltRenderer_new linked =
     (let r = \<lparr>blt_hasShader = True, blt_vertexBuffer = None, blt_allocated = 1, blt_freed = 0\<rparr>;
          r = r\<lparr>blt_allocated := blt_allocated r + 1\<rparr>
      in if \<not> linked then r\<lparr>blt_hasShader := False, blt_freed := blt_freed r + 1\<rparr>
         else blt_setVertexBuffer r)"

text \<open>The destructor frees the program the pointer holds.\<close>

definition blt_destroy :: "GL_BltRenderer \<Rightarrow> GL_BltRenderer" where
  "blt_destroy r = (if blt_hasShader r then r\<lparr>blt_freed := blt_freed r + 1, blt_hasShader := False\<rparr> else r)"

text \<open>\<open>render\<close>: nothing without a shader program, else a draw of the texture with the opacity.\<close>

definition blt_render :: "GL_BltRenderer \<Rightarrow> nat \<Rightarrow> real \<Rightarrow> (nat \<times> real) option" where
  "blt_render r textureID opacity = (if blt_hasShader r then Some (textureID, opacity) else None)"

text \<open>
  Every blit renderer leaks one shader program: after construction and destruction, one
  more program has been allocated than freed, whether or not the shaders link.
\<close>

lemma blt_leaks_one_program:
  "blt_allocated (blt_destroy (GL_BltRenderer_new linked)) = blt_freed (blt_destroy (GL_BltRenderer_new linked)) + 1"
  by (simp add: blt_destroy_def GL_BltRenderer_new_def blt_setVertexBuffer_def Let_def)

lemma blt_render_linked: "blt_render (GL_BltRenderer_new True) t a = Some (t, a)"
  by (simp add: blt_render_def GL_BltRenderer_new_def blt_setVertexBuffer_def Let_def)

end
