(* ===== verification/Shaders.thy ===== *)
theory Shaders
  imports GLView
begin

text \<open>
  The GLSL programs of the renderers (the shader strings of
  src/Source/View/GL_ContourRenderer.h and GL_ImageRenderer.h). Each vertex shader passes
  its attributes on unchanged; each fragment shader is a function of the interpolated
  values (\<open>v_vecDist\<close>, \<open>v_radius\<close>, the texel) and the uniforms. The contour shaders give
  the factor that scales the alpha of \<open>u_color\<close> (\<open>1\<close> or \<open>0\<close> for the binary shader,
  whose colour is \<open>u_color\<close> or transparent black). A division by zero is undefined in
  GLSL and is \<open>None\<close>. A uniform the program never sets reads as \<open>0\<close>.
\<close>

definition glsl_clamp :: "real \<Rightarrow> real \<Rightarrow> real \<Rightarrow> real" where
  "glsl_clamp x minVal maxVal = min (max x minVal) maxVal"

definition glsl_length :: "real \<times> real \<Rightarrow> real" where
  "glsl_length v = sqrt (fst v * fst v + snd v * snd v)"

definition glsl_div :: "real \<Rightarrow> real \<Rightarrow> real option" where
  "glsl_div a b = (if b = 0 then None else Some (a / b))"

section \<open>The fragment shaders of the contour renderer\<close>

definition fragmentShader_antialiasedContour :: "real \<Rightarrow> real \<times> real \<Rightarrow> real \<Rightarrow> real option" where
  "fragmentShader_antialiasedContour u_filterWidth v_vecDist v_radius =
     (let distToEdge = v_radius - glsl_length v_vecDist
      in map_option (\<lambda>q. glsl_clamp (0.5 + q) 0 1) (glsl_div distToEdge u_filterWidth))"

definition fragmentShader_contourCenterline :: "real \<Rightarrow> real \<Rightarrow> real \<times> real \<Rightarrow> real option" where
  "fragmentShader_contourCenterline u_radius u_filterWidth v_vecDist =
     (let distToEdge = u_radius - glsl_length v_vecDist
      in map_option (\<lambda>q. glsl_clamp (0.5 + q) 0 1) (glsl_div distToEdge u_filterWidth))"

definition fragmentShader_binaryContour :: "real \<times> real \<Rightarrow> real \<Rightarrow> real option" where
  "fragmentShader_binaryContour v_vecDist v_radius =
     (let distToEdge = v_radius - glsl_length v_vecDist
      in Some (if distToEdge \<ge> 0 then 1 else 0))"

definition fragmentShader_distToContour :: "real \<Rightarrow> real \<times> real \<Rightarrow> real \<Rightarrow> real option" where
  "fragmentShader_distToContour u_maxDist v_vecDist v_radius =
     (let distToEdge = v_radius - glsl_length v_vecDist
      in map_option (\<lambda>q. glsl_clamp (0.5 + 0.5 * q) 0 1) (glsl_div distToEdge u_maxDist))"

definition fragmentShader_distToCenterline :: "real \<Rightarrow> real \<times> real \<Rightarrow> real option" where
  "fragmentShader_distToCenterline u_maxDist v_vecDist =
     (let distToCenterline = glsl_length v_vecDist
      in map_option (\<lambda>q. glsl_clamp (1 - q) 0 1) (glsl_div distToCenterline u_maxDist))"

text \<open>The uniforms \<open>setShaderData\<close> sets, read by name (\<open>0\<close> when not set).\<close>

definition uniform_filterWidth :: "Uniform list \<Rightarrow> real" where
  "uniform_filterWidth us = (case find (\<lambda>u. case u of U_filterWidth _ \<Rightarrow> True | _ \<Rightarrow> False) us of
                               Some (U_filterWidth x) \<Rightarrow> x | _ \<Rightarrow> 0)"

definition uniform_radius :: "Uniform list \<Rightarrow> real" where
  "uniform_radius us = (case find (\<lambda>u. case u of U_radius _ \<Rightarrow> True | _ \<Rightarrow> False) us of
                          Some (U_radius x) \<Rightarrow> x | _ \<Rightarrow> 0)"

definition uniform_maxDist :: "Uniform list \<Rightarrow> real" where
  "uniform_maxDist us = (case find (\<lambda>u. case u of U_maxDist _ \<Rightarrow> True | _ \<Rightarrow> False) us of
                           Some (U_maxDist x) \<Rightarrow> x | _ \<Rightarrow> 0)"

text \<open>The fragment program of a renderer type, as \<open>shaders_of\<close> selects it.\<close>

definition contour_fragment :: "RendererType \<Rightarrow> Uniform list \<Rightarrow> real \<times> real \<Rightarrow> real \<Rightarrow> real option" where
  "contour_fragment t us v_vecDist v_radius =
     (case shaders_of t of
        Shaders_contourCenterline \<Rightarrow> fragmentShader_contourCenterline (uniform_radius us) (uniform_filterWidth us) v_vecDist
      | Shaders_binaryContour \<Rightarrow> fragmentShader_binaryContour v_vecDist v_radius
      | Shaders_distToContour \<Rightarrow> fragmentShader_distToContour (uniform_maxDist us) v_vecDist v_radius
      | Shaders_distToCenterline \<Rightarrow> fragmentShader_distToCenterline (uniform_maxDist us) v_vecDist
      | Shaders_antialiasedContour \<Rightarrow> fragmentShader_antialiasedContour (uniform_filterWidth us) v_vecDist v_radius)"

text \<open>
  The attributes of the vertices of a cell as the vertex shaders read them: each vertex
  is five floats, the position \<open>a_position\<close> and the data \<open>a_data\<close> passed on as
  \<open>v_vecDist\<close> and \<open>v_radius\<close>.
\<close>

fun vertex_data :: "real list \<Rightarrow> ((real \<times> real) \<times> real) list" where
  "vertex_data (x # y # a # b # c # rest) = ((a, b), c) # vertex_data rest"
| "vertex_data _ = []"

section \<open>The fragment shader of the image renderer\<close>

text \<open>
  The windowing of a grey texel (the red channel, as \<open>GL_ImageRenderer::update\<close>
  uploads a one-channel texture): the window \<open>[level - width/2, level + width/2]\<close>
  stretched onto \<open>[0, 1]\<close>.
\<close>

definition fragmentShader_image :: "real \<Rightarrow> real \<Rightarrow> real \<Rightarrow> real option" where
  "fragmentShader_image u_winLevel u_winWidth texColor =
     map_option (\<lambda>q. glsl_clamp (q + 0.5) 0 1) (glsl_div (texColor - u_winLevel) u_winWidth)"


section \<open>Every shader output is a colour factor in [0, 1]\<close>

lemma glsl_clamp_01 [simp]: "0 \<le> glsl_clamp x 0 1" "glsl_clamp x 0 1 \<le> 1"
  by (simp_all add: glsl_clamp_def)

lemma glsl_clamp_zero: "x \<le> 0 \<Longrightarrow> glsl_clamp x 0 1 = 0"
  by (simp add: glsl_clamp_def)

lemma glsl_clamp_half: "1 / 2 \<le> glsl_clamp x 0 1 \<longleftrightarrow> 1 / 2 \<le> x"
  by (auto simp: glsl_clamp_def)

lemma contour_fragment_bounds:
  "contour_fragment t us v r = Some a \<Longrightarrow> 0 \<le> a \<and> a \<le> 1"
  by (auto simp: contour_fragment_def fragmentShader_contourCenterline_def fragmentShader_binaryContour_def
                 fragmentShader_distToContour_def fragmentShader_distToCenterline_def
                 fragmentShader_antialiasedContour_def Let_def split: ShaderPair.splits if_splits)

lemma fragmentShader_image_bounds:
  "fragmentShader_image l w t = Some a \<Longrightarrow> 0 \<le> a \<and> a \<le> 1"
  by (auto simp: fragmentShader_image_def)

text \<open>
  With a positive width the image shader maps the window onto the display range: black
  at or below its lower end, white at or above its upper end, increasing in between.
  A negative width, which \<open>incrementWindowing\<close> can produce, inverts the image.
\<close>

lemma glsl_clamp_mono: "x \<le> y \<Longrightarrow> glsl_clamp x 0 1 \<le> glsl_clamp y 0 1"
  by (auto simp: glsl_clamp_def min_def max_def)

lemma image_shader_window:
  assumes "0 < w"
  shows "t \<le> l - w / 2 \<Longrightarrow> fragmentShader_image l w t = Some 0"
    "l + w / 2 \<le> t \<Longrightarrow> fragmentShader_image l w t = Some 1"
    "t1 \<le> t2 \<Longrightarrow> fragmentShader_image l w t1 = Some a1 \<Longrightarrow> fragmentShader_image l w t2 = Some a2 \<Longrightarrow> a1 \<le> a2"
proof -
  show "t \<le> l - w / 2 \<Longrightarrow> fragmentShader_image l w t = Some 0"
    using assms by (simp add: fragmentShader_image_def glsl_div_def glsl_clamp_def field_simps)
  show "l + w / 2 \<le> t \<Longrightarrow> fragmentShader_image l w t = Some 1"
    using assms by (simp add: fragmentShader_image_def glsl_div_def glsl_clamp_def field_simps)
  assume "t1 \<le> t2" "fragmentShader_image l w t1 = Some a1" "fragmentShader_image l w t2 = Some a2"
  moreover have "(t1 - l) / w + 0.5 \<le> (t2 - l) / w + 0.5"
    using assms \<open>t1 \<le> t2\<close> by (simp add: divide_right_mono)
  ultimately show "a1 \<le> a2" using assms
    by (auto simp: fragmentShader_image_def glsl_div_def intro: glsl_clamp_mono)
qed

lemma image_shader_inverted:
  assumes "w < 0" "t1 \<le> t2" "fragmentShader_image l w t1 = Some a1" "fragmentShader_image l w t2 = Some a2"
  shows "a2 \<le> a1"
proof -
  have "(t2 - l) / w + 0.5 \<le> (t1 - l) / w + 0.5"
    using assms(1,2) by (simp add: divide_right_mono_neg)
  then show ?thesis using assms
    by (auto simp: fragmentShader_image_def glsl_div_def intro: glsl_clamp_mono)
qed

section \<open>The uniforms of each renderer\<close>

lemma setShaderData_uniforms:
  "uniform_filterWidth (setShaderData r s) =
     (case cr_type r of Binary \<Rightarrow> 0 | DistToContour \<Rightarrow> 0 | DistToCenterline \<Rightarrow> 0 | _ \<Rightarrow> antialiasingFilterWidth r * s)"
  "uniform_maxDist (setShaderData r s) =
     (case cr_type r of DistToContour \<Rightarrow> maxDistFieldDistance r | DistToCenterline \<Rightarrow> maxDistFieldDistance r | _ \<Rightarrow> 0)"
  "uniform_radius (setShaderData r s) = (case cr_type r of Centerline \<Rightarrow> centerlineRadius r * s | _ \<Rightarrow> 0)"
  by (simp_all add: setShaderData_def uniform_filterWidth_def uniform_maxDist_def uniform_radius_def Let_def
                split: RendererType.split)


section \<open>The edge encodings threshold to the binary segmentation\<close>

lemma clamp_ramp_half:
  assumes "0 < c"
  shows "1 / 2 \<le> glsl_clamp (0.5 + d / c) 0 1 \<longleftrightarrow> 0 \<le> d"
    "1 / 2 \<le> glsl_clamp (0.5 + 0.5 * (d / c)) 0 1 \<longleftrightarrow> 0 \<le> d"
  using assms by (auto simp: glsl_clamp_def min_def max_def field_simps)

lemma binary_covers: "contour_fragment Binary [U_color] vd r = Some 1 \<longleftrightarrow> 0 \<le> r - glsl_length vd"
  by (simp add: contour_fragment_def shaders_of_def fragmentShader_binaryContour_def Let_def)

text \<open>
  C12: wherever the binary shader covers a fragment, the antialiased and the
  signed-distance encodings give at least one half, and below one half elsewhere, for
  every scale: thresholding the vessel-edge export at half intensity gives the binary
  export.
\<close>

theorem edge_encodings_threshold:
  assumes "0 < s" "t = Antialiased \<or> t = DistToContour"
  shows "\<exists>a. contour_fragment t (setShaderData (GL_ContourRenderer_new t linked) s) vd r = Some a \<and>
             (1 / 2 \<le> a \<longleftrightarrow> contour_fragment Binary [U_color] vd r = Some 1)"
proof (cases "t = Antialiased")
  case True
  have c: "0 < 0.8 * s" using assms(1) by simp
  show ?thesis
  proof (intro exI conjI)
    show "contour_fragment t (setShaderData (GL_ContourRenderer_new t linked) s) vd r =
            Some (glsl_clamp (0.5 + (r - glsl_length vd) / (0.8 * s)) 0 1)"
      using True c by (simp add: contour_fragment_def setShaderData_uniforms GL_ContourRenderer_new_def
                                 shaders_of_def fragmentShader_antialiasedContour_def glsl_div_def Let_def)
  qed (simp only: binary_covers clamp_ramp_half(1) [OF c])
next
  case False
  then have t: "t = DistToContour" using assms(2) by simp
  have c: "0 < (10::real)" by simp
  show ?thesis
  proof (intro exI conjI)
    show "contour_fragment t (setShaderData (GL_ContourRenderer_new t linked) s) vd r =
            Some (glsl_clamp (0.5 + 0.5 * ((r - glsl_length vd) / 10)) 0 1)"
      using t by (simp add: contour_fragment_def setShaderData_uniforms GL_ContourRenderer_new_def
                            shaders_of_def fragmentShader_distToContour_def glsl_div_def Let_def)
  qed (simp only: binary_covers clamp_ramp_half(2) [OF c])
qed

theorem edge_encodings_threshold_witness:
  "0 < (1::real) \<and> (DistToContour = Antialiased \<or> DistToContour = DistToContour) \<and>
   (\<exists>a. contour_fragment DistToContour (setShaderData (GL_ContourRenderer_new DistToContour True) 1) (3, 4) 5 = Some a \<and>
        (1 / 2 \<le> a \<longleftrightarrow> contour_fragment Binary [U_color] (3, 4) 5 = Some 1))"
  using edge_encodings_threshold [of 1 DistToContour True "(3, 4)" 5] by simp


section \<open>The shading fades out inside every cell\<close>

lemma cell_floats_Cons [simp]:
  "cell_floats off ((x, y, r, dX, dY) # vs) =
     [x + dX * (r + off), y + dY * (r + off), - dX * (r + off), - dY * (r + off), r] @ cell_floats off vs"
  by (simp add: cell_floats_def)

lemma vertex_data_cell_floats:
  "vertex_data (cell_floats off vs @ rest) =
     map (\<lambda>(x, y, r, dX, dY). ((- dX * (r + off), - dY * (r + off)), r)) vs @ vertex_data rest"
proof (induction vs)
  case Nil
  then show ?case by (simp add: cell_floats_def)
next
  case (Cons v vs)
  then show ?case by (cases v) simp
qed

text \<open>A vertex offset by a direction of length at least 1 lies at least \<open>k\<close> from the curve.\<close>

lemma vertex_length:
  assumes "0 \<le> k" "1 \<le> dX * dX + dY * dY"
  shows "k \<le> glsl_length (- dX * k, - dY * k)"
proof -
  have "k * k \<le> (- dX * k) * (- dX * k) + (- dY * k) * (- dY * k)"
    using assms mult_right_mono [OF assms(2), of "k * k"] by (simp add: algebra_simps)
  then have "sqrt (k * k) \<le> glsl_length (- dX * k, - dY * k)"
    unfolding glsl_length_def by (simp only: fst_conv snd_conv real_sqrt_le_mono)
  then show ?thesis using assms(1) by simp
qed

lemma unit_normal:
  fixes l dx dy :: real
  assumes "0 < l" "l * l = dx * dx + dy * dy"
  shows "(- (- dy / l)) * (- (- dy / l)) + (- (dx / l)) * (- (dx / l)) = 1"
    "(- dy / l) * (- dy / l) + (dx / l) * (dx / l) = 1"
proof -
  have n: "l \<noteq> 0" using assms(1) by simp
  have a: "(dy / l) * (dy / l) + (dx / l) * (dx / l) = (dx * dx + dy * dy) / (l * l)"
    using n by (simp add: field_simps)
  have b: "(dx * dx + dy * dy) / (l * l) = 1"
    using n by (simp only: assms(2) [symmetric]) simp
  have e: "(dy / l) * (dy / l) + (dx / l) * (dx / l) = 1" using a b by simp
  then show "(- (- dy / l)) * (- (- dy / l)) + (- (dx / l)) * (- (dx / l)) = 1"
    "(- dy / l) * (- dy / l) + (dx / l) * (dx / l) = 1" by simp_all
qed

definition cell_vertex_dirs :: "(real \<Rightarrow> bool) \<Rightarrow> (real \<times> real \<times> real \<times> real \<times> real) list \<Rightarrow> bool" where
  "cell_vertex_dirs P vs \<longleftrightarrow> (\<forall>(x, y, r, dX, dY) \<in> set vs. P r \<and> 1 \<le> dX * dX + dY * dY)"

lemma line_cell_dirs:
  assumes "line_cell off p0 p1 = Some c" "P (radius p0)" "P (radius p1)"
  shows "\<exists>vs. c = cell_floats off vs \<and> cell_vertex_dirs P vs"
proof -
  let ?dx = "vx (pos p1) - vx (pos p0)" and ?dy = "vy (pos p1) - vy (pos p0)"
  let ?l = "sqrt (?dx * ?dx + ?dy * ?dy)"
  let ?px = "- ?dy / ?l" and ?py = "?dx / ?l"
  have big: "\<not> ?dx * ?dx + ?dy * ?dy \<le> flt_epsilon" using assms(1) by (auto simp: line_cell_def Let_def)
  then have "0 < ?dx * ?dx + ?dy * ?dy" using flt_epsilon_pos by linarith
  then have l: "0 < ?l" "?l * ?l = ?dx * ?dx + ?dy * ?dy" by simp_all
  have n: "1 \<le> (- ?px) * (- ?px) + (- ?py) * (- ?py)" "1 \<le> ?px * ?px + ?py * ?py"
    using unit_normal [OF l] by simp_all
  let ?vs = "[(vx (pos p0), vy (pos p0), radius p0, - ?px, - ?py), (vx (pos p1), vy (pos p1), radius p1, - ?px, - ?py),
              (vx (pos p1), vy (pos p1), radius p1, ?px, ?py), (vx (pos p0), vy (pos p0), radius p0, - ?px, - ?py),
              (vx (pos p1), vy (pos p1), radius p1, ?px, ?py), (vx (pos p0), vy (pos p0), radius p0, ?px, ?py)]"
  have c: "c = cell_floats off ?vs" using assms(1) big by (simp add: line_cell_def Let_def)
  have "cell_vertex_dirs P ?vs"
    unfolding cell_vertex_dirs_def using n assms(2,3) by (simp only: list.set insert_iff empty_iff) blast
  then show ?thesis using c by blast
qed


lemma point_cell_dirs: "P (radius p) \<Longrightarrow> \<exists>vs. point_cell off p = cell_floats off vs \<and> cell_vertex_dirs P vs"
  unfolding point_cell_def Let_def cell_vertex_dirs_def by (intro exI conjI, rule refl) auto

lemma line_cells_dirs:
  "P (radius p0) \<Longrightarrow> \<forall>p \<in> set ps. P (radius p) \<Longrightarrow>
   \<forall>c \<in> set (line_cells off p0 ps). \<exists>vs. c = cell_floats off vs \<and> cell_vertex_dirs P vs"
proof (induction off p0 ps rule: line_cells.induct)
  case (2 off p0 p1 ps)
  then show ?case using line_cell_dirs [of off p0 p1 _ P] by (auto split: option.splits)
qed simp

lemma curve_cells_dirs:
  "\<forall>p \<in> set pts. P (radius p) \<Longrightarrow>
   \<forall>c \<in> set (curve_cells off pts). \<exists>vs. c = cell_floats off vs \<and> cell_vertex_dirs P vs"
  using line_cells_dirs [of P] point_cell_dirs [of P]
  by (auto simp: curve_cells_def split: list.splits)

text \<open>The vertex data of consecutive cells is the data of each cell in turn.\<close>

lemma vertex_data_cells:
  assumes "\<forall>c \<in> set cs. \<exists>vs. c = cell_floats off vs \<and> cell_vertex_dirs P vs"
  shows "\<forall>((a, b), r) \<in> set (vertex_data (concat cs)).
           \<exists>dX dY. a = - dX * (r + off) \<and> b = - dY * (r + off) \<and> P r \<and> 1 \<le> dX * dX + dY * dY"
  using assms
proof (induction cs)
  case (Cons c cs)
  then obtain vs where c: "c = cell_floats off vs" "cell_vertex_dirs P vs" by auto
  then show ?case using Cons
    by (fastforce simp: vertex_data_cell_floats cell_vertex_dirs_def)
qed simp


lemma vertex_fragment_zero:
  assumes t: "cr_type r = Antialiased \<or> cr_type r = DistToContour \<or> cr_type r = DistToCenterline"
    and pos: "0 < s" "0 < antialiasingFilterWidth r" "0 < maxDistFieldDistance r"
    and v: "0 \<le> rad" "1 \<le> dX * dX + dY * dY"
  defines "off \<equiv> radiusOffset r s"
  shows "contour_fragment (cr_type r) (setShaderData r s) (- dX * (rad + off), - dY * (rad + off)) rad = Some 0"
proof -
  let ?L = "glsl_length (- dX * (rad + off), - dY * (rad + off))"
  have off: "0 < off" using t pos by (auto simp: off_def radiusOffset_def)
  have L: "rad + off \<le> ?L" using vertex_length [of "rad + off" dX dY] v off by simp
  consider (a) "cr_type r = Antialiased" | (c) "cr_type r = DistToContour" | (l) "cr_type r = DistToCenterline"
    using t by blast
  then show ?thesis
  proof cases
    case a
    have "(rad - ?L) / off \<le> -1" using L off by (simp add: divide_le_eq)
    then have "0.5 + (rad - ?L) / off \<le> 0" by simp
    then show ?thesis using a off pos
      by (simp add: contour_fragment_def shaders_of_def setShaderData_uniforms fragmentShader_antialiasedContour_def
                    glsl_div_def glsl_clamp_zero Let_def off_def radiusOffset_def)
  next
    case c
    have "(rad - ?L) / off \<le> -1" using L off by (simp add: divide_le_eq)
    then have "0.5 + 0.5 * ((rad - ?L) / off) \<le> 0" by simp
    then show ?thesis using c off
      by (simp add: contour_fragment_def shaders_of_def setShaderData_uniforms fragmentShader_distToContour_def
                    glsl_div_def glsl_clamp_zero Let_def off_def radiusOffset_def)
  next
    case l
    have "1 \<le> ?L / off" using L off v(1) by (simp add: le_divide_eq)
    then have "1 - ?L / off \<le> 0" by simp
    then show ?thesis using l off
      by (simp add: contour_fragment_def shaders_of_def setShaderData_uniforms fragmentShader_distToCenterline_def
                    glsl_div_def glsl_clamp_zero Let_def off_def radiusOffset_def)
  qed
qed


text \<open>
  C20: for the antialiased and the two distance renderers, every vertex of every cell
  \<open>setVertexBuffer\<close> writes lies at least the radius offset beyond the stroke, so the
  fragment shader gives alpha 0 there: the shading fades out inside the cells and is
  never cut off by a cell edge (for curves whose radii are not negative).
\<close>

theorem cell_vertices_transparent:
  assumes vb: "setVertexBuffer r cps s = Inr r'"
    and t: "cr_type r = Antialiased \<or> cr_type r = DistToContour \<or> cr_type r = DistToCenterline"
    and pos: "0 < s" "0 < antialiasingFilterWidth r" "0 < maxDistFieldDistance r"
    and radii: "\<forall>c \<in> set cps. \<forall>p \<in> set c. 0 \<le> radius p"
  shows "\<forall>(vd, rad) \<in> set (take (nat (numVertices r')) (vertex_data (vertexBuffer r'))).
           contour_fragment (cr_type r) (setShaderData r s) vd rad = Some 0"
proof (cases "cps = []")
  case True
  then have "numVertices r' = 0" using vb by (auto simp: setVertexBuffer_def)
  then show ?thesis by simp
next
  case False
  let ?off = "radiusOffset r s"
  have buf: "vertexBuffer r' = concat (concat (map (curve_cells ?off) cps))"
    using vb False by (auto simp: setVertexBuffer_def Let_def split: if_splits)
  have "\<forall>c \<in> set (concat (map (curve_cells ?off) cps)).
          \<exists>vs. c = cell_floats ?off vs \<and> cell_vertex_dirs (\<lambda>x. 0 \<le> x) vs"
    using curve_cells_dirs [of _ "\<lambda>x. 0 \<le> x" ?off] radii by auto
  then have "\<forall>((a, b), rad) \<in> set (vertex_data (vertexBuffer r')).
           \<exists>dX dY. a = - dX * (rad + ?off) \<and> b = - dY * (rad + ?off) \<and> 0 \<le> rad \<and> 1 \<le> dX * dX + dY * dY"
    unfolding buf by (rule vertex_data_cells)
  then have "\<forall>(vd, rad) \<in> set (vertex_data (vertexBuffer r')).
               contour_fragment (cr_type r) (setShaderData r s) vd rad = Some 0"
    using vertex_fragment_zero [OF t pos] by fastforce
  then show ?thesis using in_set_takeD by fastforce
qed

theorem cell_vertices_transparent_witness:
  "\<exists>r'. setVertexBuffer (GL_ContourRenderer_new Antialiased True) [[mkCurvePoint (Vec2D 0 0) 1]] 1 = Inr r' \<and>
        (cr_type (GL_ContourRenderer_new Antialiased True) = Antialiased \<or>
         cr_type (GL_ContourRenderer_new Antialiased True) = DistToContour \<or>
         cr_type (GL_ContourRenderer_new Antialiased True) = DistToCenterline) \<and>
        0 < (1::real) \<and> 0 < antialiasingFilterWidth (GL_ContourRenderer_new Antialiased True) \<and>
        0 < maxDistFieldDistance (GL_ContourRenderer_new Antialiased True) \<and>
        (\<forall>c \<in> set [[mkCurvePoint (Vec2D 0 0) 1]]. \<forall>p \<in> set c. 0 \<le> radius p) \<and>
        (\<forall>(vd, rad) \<in> set (take (nat (numVertices r')) (vertex_data (vertexBuffer r'))).
           contour_fragment Antialiased (setShaderData (GL_ContourRenderer_new Antialiased True) 1) vd rad = Some 0)"
proof -
  let ?r = "GL_ContourRenderer_new Antialiased True" and ?cps = "[[mkCurvePoint (Vec2D 0 0) 1]]"
  obtain r' where v: "setVertexBuffer ?r ?cps 1 = Inr r'"
    by (simp add: setVertexBuffer_def curve_cells_def point_cell_def numFloatsPerCell_def cell_floats_def
                  GL_ContourRenderer_new_def Let_def)
  have h: "cr_type ?r = Antialiased" "0 < antialiasingFilterWidth ?r" "0 < maxDistFieldDistance ?r"
    "\<forall>c \<in> set ?cps. \<forall>p \<in> set c. 0 \<le> radius p"
    by (simp_all add: GL_ContourRenderer_new_def mkCurvePoint_def)
  show ?thesis using cell_vertices_transparent [OF v _ _ h(2,3,4)] v h by auto
qed


text \<open>
  The centerline renderer (a type no view or export uses) widens its cells by the
  filter width only, not by its own stroke radius: on a curve of radius 1 at scale 1 the
  centerline stroke is still three quarters opaque at the cell's edge, so it is cut off.
\<close>

lemma sqrt_81_25: "sqrt (81 / 25 :: real) = 9 / 5"
  by (rule real_sqrt_unique) (simp_all add: power2_eq_square)

lemma centerline_cell_clipped:
  "contour_fragment Centerline (setShaderData (GL_ContourRenderer_new Centerline True) 1)
     (- 1 * (1 + radiusOffset (GL_ContourRenderer_new Centerline True) 1), - 0 * (1 + radiusOffset (GL_ContourRenderer_new Centerline True) 1)) 1
   = Some (3 / 4)"
  by (simp add: contour_fragment_def shaders_of_def setShaderData_uniforms GL_ContourRenderer_new_def radiusOffset_def
                fragmentShader_contourCenterline_def glsl_length_def glsl_div_def glsl_clamp_def Let_def sqrt_81_25)

section \<open>A zero window width reaches the image shader\<close>

text \<open>
  C29: from every window inside a non-empty image range, a windowing drag to the right
  far enough brings the width to exactly 0 (it is clipped there) with the level
  unchanged, and the image shader then divides by the zero width, which GLSL leaves
  undefined.
\<close>

theorem windowing_zero_width:
  assumes "window_in_range rs" "imageMinValue rs < imageMaxValue rs" "0 < w"
  shows "\<exists>dx. windowingWidth (windowing_drag rs (windowingLevel rs, windowingWidth rs) dx 0 w h) = 0 \<and>
              fragmentShader_image (windowingLevel (windowing_drag rs (windowingLevel rs, windowingWidth rs) dx 0 w h))
                (windowingWidth (windowing_drag rs (windowingLevel rs, windowingWidth rs) dx 0 w h)) t = None"
proof -
  let ?mn = "imageMinValue rs" and ?mx = "imageMaxValue rs" and ?W = "windowingWidth rs" and ?L = "windowingLevel rs"
  define dx where "dx = \<lceil>2 * ?W * real_of_int w / (?mx - ?mn)\<rceil>"
  have k: "0 < 0.5 * (?mx - ?mn)" using assms(2) by simp
  have "2 * ?W * real_of_int w / (?mx - ?mn) \<le> real_of_int dx" unfolding dx_def by (rule le_of_int_ceiling)
  then have h: "2 * ?W * real_of_int w \<le> real_of_int dx * (?mx - ?mn)"
    using assms(2) by (simp add: pos_divide_le_eq)
  have "?W \<le> 0.5 * (?mx - ?mn) * (real_of_int dx / real_of_int w)"
    using assms(3) h by (simp add: field_simps)
  then have z: "max 0 (?W - 0.5 * (?mx - ?mn) * (real_of_int dx / real_of_int w)) = 0" by simp
  have r: "?mn \<le> ?L" "?L \<le> ?mx" using assms(1) by (auto simp: window_in_range_def)
  have mw: "real_of_int (max 1 w) = real_of_int w" using assms(3) by simp
  have "windowingWidth (windowing_drag rs (?L, ?W) dx 0 w h) = 0 \<and> windowingLevel (windowing_drag rs (?L, ?W) dx 0 w h) = ?L"
    using z r by (simp add: windowing_drag_def incrementWindowing_def setWindowing_def clamp_low_def clamp_high_def
                            Let_def mw)
  then show ?thesis by (auto simp: fragmentShader_image_def glsl_div_def)
qed

theorem windowing_zero_width_witness:
  "window_in_range RenderState_new \<and> imageMinValue RenderState_new < imageMaxValue RenderState_new \<and> 0 < (100::int) \<and>
   (\<exists>dx. windowingWidth (windowing_drag RenderState_new (windowingLevel RenderState_new, windowingWidth RenderState_new) dx 0 100 100) = 0 \<and>
         fragmentShader_image (windowingLevel (windowing_drag RenderState_new (windowingLevel RenderState_new, windowingWidth RenderState_new) dx 0 100 100))
           (windowingWidth (windowing_drag RenderState_new (windowingLevel RenderState_new, windowingWidth RenderState_new) dx 0 100 100)) (1 / 2) = None)"
proof -
  have h: "window_in_range RenderState_new" "imageMinValue RenderState_new < imageMaxValue RenderState_new"
    by (simp_all add: window_in_range_def RenderState_new_def)
  show ?thesis using windowing_zero_width [OF h, of 100 100 "1 / 2"] h by simp
qed

end
