(* ===== verification/VecTest.thy ===== *)
theory VecTest
  imports Vec
begin

text \<open>
  The 3D vector class \<open>Math::Vec3D\<close> (src/Source/Model/Math.h, Math.cpp) and the
  self-test \<open>vmTest::testVector\<close>, which checks the operators of both vector classes
  with \<open>assert\<close>. A vector is the datatype \<open>vec3\<close> of its three coordinates; a failing
  \<open>assert\<close> aborts the test, which is the value \<open>Inl k\<close> for the \<open>k\<close>-th assertion.
\<close>

datatype vec3 = Vec3D (v3x: real) (v3y: real) (v3z: real)

definition vec3_add :: "vec3 \<Rightarrow> vec3 \<Rightarrow> vec3" where
  "vec3_add a b = Vec3D (v3x a + v3x b) (v3y a + v3y b) (v3z a + v3z b)"

definition vec3_sub :: "vec3 \<Rightarrow> vec3 \<Rightarrow> vec3" where
  "vec3_sub a b = Vec3D (v3x a - v3x b) (v3y a - v3y b) (v3z a - v3z b)"

text \<open>\<open>operator* (double)\<close>, \<open>operator*=\<close> and the friend \<open>operator* (double, Vec3D)\<close>.\<close>

definition vec3_scale :: "real \<Rightarrow> vec3 \<Rightarrow> vec3" where
  "vec3_scale s v = Vec3D (s * v3x v) (s * v3y v) (s * v3z v)"

definition length3 :: "vec3 \<Rightarrow> real" where
  "length3 v = sqrt (v3x v * v3x v + v3y v * v3y v + v3z v * v3z v)"

text \<open>\<open>normalize\<close> (in place) and \<open>normalized\<close> (on a copy): unchanged up to \<open>FLT_EPSILON\<close>.\<close>

definition normalized3 :: "vec3 \<Rightarrow> vec3" where
  "normalized3 v =
     (let l = length3 v in if flt_epsilon < l then Vec3D (v3x v / l) (v3y v / l) (v3z v / l) else v)"

definition dotProduct3 :: "vec3 \<Rightarrow> vec3 \<Rightarrow> real" where
  "dotProduct3 a b = v3x a * v3x b + v3y a * v3y b + v3z a * v3z b"

definition crossProduct3 :: "vec3 \<Rightarrow> vec3 \<Rightarrow> vec3" where
  "crossProduct3 a b =
     Vec3D (v3y a * v3z b - v3z a * v3y b) (v3z a * v3x b - v3x a * v3z b) (v3x a * v3y b - v3y a * v3x b)"

section \<open>The self-test\<close>

text \<open>\<open>vmTest::isApproximatelyEqual\<close>: an absolute, then a relative tolerance.\<close>

definition isApproximatelyEqual :: "real \<Rightarrow> real \<Rightarrow> real \<Rightarrow> bool" where
  "isApproximatelyEqual a b tolerance =
     (let diff = \<bar>a - b\<bar>
      in if diff \<le> tolerance then True
         else diff < max \<bar>a\<bar> \<bar>b\<bar> * tolerance)"

abbreviation approx :: "real \<Rightarrow> real \<Rightarrow> bool" where
  "approx a b \<equiv> isApproximatelyEqual a b flt_epsilon"

text \<open>A sequence of \<open>assert\<close>s: the number of the first that fails, or success.\<close>

fun asserts :: "nat \<Rightarrow> bool list \<Rightarrow> nat + unit" where
  "asserts k [] = Inr ()"
| "asserts k (b # bs) = (if b then asserts (Suc k) bs else Inl k)"

text \<open>The 2D block of \<open>testVector\<close>: the vectors it builds and its seven plus five checks.\<close>

definition test2D :: "bool list" where
  "test2D =
     (let a = 1.1; b = 2.2; c = 3.3; d = 4.4;
          v0 = Vec2D a b; v1 = Vec2D c d; v2 = v0;
          v3 = vec_add (vec_add v0 v1) v1;
          v4 = vec_sub (vec_sub v0 v1) v0;
          v5 = vec_scale 2 (vec_scale 2 v0);
          v6 = vec_scale 2 v0;
          checks1 = [approx (vx v0) a \<and> approx (vy v0) b, approx (vx v1) c \<and> approx (vy v1) d,
                     approx (vx v2) a \<and> approx (vy v2) b,
                     approx (vx v3) (a + 2 * c) \<and> approx (vy v3) (b + 2 * d),
                     approx (vx v4) (- c) \<and> approx (vy v4) (- d),
                     approx (vx v5) (4 * a) \<and> approx (vy v5) (4 * b),
                     approx (vx v6) (2 * a) \<and> approx (vy v6) (2 * b)];
          dot = dotProduct v0 v1; len = length_v v0; norm = normalized v0;
          v0 = normalized v0;
          cross = crossProduct v0 v1
      in checks1 @
         [approx dot (a * c + b * d), approx len (sqrt (a * a + b * b)),
          approx (vx norm) (a / len) \<and> approx (vy norm) (b / len),
          approx (vx v0) (vx norm) \<and> approx (vy v0) (vy norm),
          approx (len * cross) (b * c - a * d)])"

text \<open>The 3D block; the two cross products \<open>t0\<close>, \<open>t1\<close> it computes are never used.\<close>

definition test3D :: "bool list" where
  "test3D =
     (let a = 1.1; b = 1.2; c = 1.3; d = 2.1; e = 2.2; f = 2.3;
          v0 = Vec3D a b c; v1 = Vec3D d e f; v2 = v0;
          v3 = vec3_add (vec3_add v0 v1) v1;
          v4 = vec3_sub (vec3_sub v0 v1) v0;
          v5 = vec3_scale 2 (vec3_scale 2 v0);
          v6 = vec3_scale 2 v0;
          checks1 = [approx (v3x v0) a \<and> approx (v3y v0) b \<and> approx (v3z v0) c,
                     approx (v3x v1) d \<and> approx (v3y v1) e \<and> approx (v3z v1) f,
                     approx (v3x v2) a \<and> approx (v3y v2) b \<and> approx (v3z v2) c,
                     approx (v3x v3) (a + 2 * d) \<and> approx (v3y v3) (b + 2 * e) \<and> approx (v3z v3) (c + 2 * f),
                     approx (v3x v4) (- d) \<and> approx (v3y v4) (- e) \<and> approx (v3z v4) (- f),
                     approx (v3x v5) (4 * a) \<and> approx (v3y v5) (4 * b) \<and> approx (v3z v5) (4 * c),
                     approx (v3x v6) (2 * a) \<and> approx (v3y v6) (2 * b) \<and> approx (v3z v6) (2 * c)];
          dot = dotProduct3 v0 v1; len = length3 v0; norm = normalized3 v0;
          v0 = normalized3 v0;
          cross = crossProduct3 v0 v1
      in checks1 @
         [approx dot (a * d + b * e + c * f), approx len (sqrt (a * a + b * b + c * c)),
          approx (v3x norm) (a / len) \<and> approx (v3y norm) (b / len) \<and> approx (v3z norm) (c / len),
          approx (v3x v0) (v3x norm) \<and> approx (v3y v0) (v3y norm) \<and> approx (v3z v0) (v3z norm),
          approx (dotProduct3 v0 cross) 0 \<and> approx (dotProduct3 v1 cross) 0])"

definition testVector :: "nat + bool" where
  "testVector = (case asserts 0 (test2D @ test3D) of Inl k \<Rightarrow> Inl k | Inr u \<Rightarrow> Inr True)"


section \<open>Properties of the 3D operations\<close>

lemma isApproximatelyEqual_refl [simp]: "0 \<le> t \<Longrightarrow> isApproximatelyEqual a a t"
  by (simp add: isApproximatelyEqual_def)

lemma crossProduct3_orthogonal:
  "dotProduct3 a (crossProduct3 a b) = 0" "dotProduct3 b (crossProduct3 a b) = 0"
  by (simp_all add: dotProduct3_def crossProduct3_def algebra_simps)

lemma length3_normalized:
  assumes "flt_epsilon < length3 v" shows "length3 (normalized3 v) = 1"
proof -
  have l: "0 < length3 v" using assms flt_epsilon_pos by linarith
  have "(length3 v)\<^sup>2 = v3x v * v3x v + v3y v * v3y v + v3z v * v3z v"
    by (simp add: length3_def)
  then show ?thesis using assms l
    by (simp add: normalized3_def length3_def Let_def power2_eq_square add_divide_distrib [symmetric]
                  real_sqrt_divide del: real_sqrt_mult_self)
qed

lemma asserts_Inr: "asserts k bs = Inr () \<longleftrightarrow> list_all id bs"
  by (induction bs arbitrary: k) auto

lemma flt_epsilon_less_sqrt:
  assumes "1 \<le> x" shows "flt_epsilon < sqrt x"
proof -
  have "1 \<le> sqrt x" using assms by simp
  then show ?thesis unfolding flt_epsilon_def by linarith
qed

lemma test2D_passes: "list_all id test2D"
proof -
  let ?l = "sqrt (11 / 10 * (11 / 10) + 22 / 10 * (22 / 10) :: real)"
  have l: "flt_epsilon < ?l" "?l \<noteq> 0" using flt_epsilon_less_sqrt [of "11 / 10 * (11 / 10) + 22 / 10 * (22 / 10)"] by auto
  have c: "?l * (22 / 10 / ?l * (33 / 10) - 11 / 10 / ?l * (44 / 10)) = 22 / 10 * (33 / 10) - 11 / 10 * (44 / 10)"
    using l(2) by (simp add: field_simps)
  show ?thesis
    using l c by (simp add: test2D_def Let_def vec_add_def vec_sub_def vec_scale_def dotProduct_def length_v_def
                            normalized_def crossProduct_def)
qed


lemma test3D_passes: "list_all id test3D"
proof -
  let ?l = "sqrt (11 / 10 * (11 / 10) + 12 / 10 * (12 / 10) + 13 / 10 * (13 / 10) :: real)"
  have l: "flt_epsilon < ?l"
    using flt_epsilon_less_sqrt [of "11 / 10 * (11 / 10) + 12 / 10 * (12 / 10) + 13 / 10 * (13 / 10)"] by auto
  show ?thesis
    unfolding test3D_def Let_def crossProduct3_orthogonal
    using l by (simp add: vec3_add_def vec3_sub_def vec3_scale_def dotProduct3_def length3_def normalized3_def Let_def)
qed

text \<open>
  \<open>vmTest::testVector\<close> passes every assertion on its fixed vectors (with real
  arithmetic for the float and double values).
\<close>

lemma testVector_passes: "testVector = Inr True"
  using test2D_passes test3D_passes by (simp add: testVector_def asserts_Inr [THEN iffD2])

lemma length_v_normalized:
  assumes "flt_epsilon < length_v u" shows "length_v (normalized u) = 1"
proof -
  have l: "0 < length_v u" using assms flt_epsilon_pos by linarith
  have nz: "vx u \<noteq> 0 \<or> vy u \<noteq> 0" using l by (auto simp: length_v_def)
  have "(length_v u)\<^sup>2 = vx u * vx u + vy u * vy u"
    by (simp add: length_v_def)
  then show ?thesis using assms l nz
    by (simp add: normalized_def length_v_def Let_def power2_eq_square add_divide_distrib [symmetric]
                  real_sqrt_divide del: real_sqrt_mult_self)
qed

text \<open>
  C32: the operations of \<open>Vec2D\<close> and \<open>Vec3D\<close> satisfy, for all vectors, the identities
  that \<open>testVector\<close> checks on its constants: the cross product is orthogonal to both
  factors, normalising a vector longer than \<open>FLT_EPSILON\<close> divides it by its length and
  gives length 1, and the 2D cross product scales with the length of its first factor.
\<close>

theorem vector_identities:
  assumes v: "flt_epsilon < length3 v" and u: "flt_epsilon < length_v u"
  shows "dotProduct3 a (crossProduct3 a b) = 0 \<and> dotProduct3 b (crossProduct3 a b) = 0 \<and>
         length3 (normalized3 v) = 1 \<and> normalized3 v = vec3_scale (1 / length3 v) v \<and>
         length_v (normalized u) = 1 \<and> length_v u * crossProduct (normalized u) w = crossProduct u w"
proof -
  have l: "length_v u \<noteq> 0" using u flt_epsilon_pos by linarith
  have c: "length_v u * crossProduct (normalized u) w = crossProduct u w"
    using l by (simp add: normalized_scale [OF u] crossProduct_def field_simps)
  have n: "normalized3 v = vec3_scale (1 / length3 v) v"
    using v by (simp add: normalized3_def vec3_scale_def Let_def)
  show ?thesis
    using crossProduct3_orthogonal length3_normalized [OF v] length_v_normalized [OF u] c n by simp
qed

theorem vector_identities_witness:
  "flt_epsilon < length3 (Vec3D 1.1 1.2 1.3) \<and> flt_epsilon < length_v (Vec2D 1.1 2.2) \<and>
   length3 (normalized3 (Vec3D 1.1 1.2 1.3)) = 1 \<and>
   length_v (Vec2D 1.1 2.2) * crossProduct (normalized (Vec2D 1.1 2.2)) (Vec2D 3.3 4.4) =
     crossProduct (Vec2D 1.1 2.2) (Vec2D 3.3 4.4)"
proof -
  have v: "flt_epsilon < length3 (Vec3D 1.1 1.2 1.3)"
    using flt_epsilon_less_sqrt [of "11 / 10 * (11 / 10) + 12 / 10 * (12 / 10) + 13 / 10 * (13 / 10)"]
    by (simp add: length3_def)
  have u: "flt_epsilon < length_v (Vec2D 1.1 2.2)"
    using flt_epsilon_less_sqrt [of "11 / 10 * (11 / 10) + 22 / 10 * (22 / 10)"] by (simp add: length_v_def)
  show ?thesis using vector_identities [OF v u] v u by blast
qed

end
