(* ===== verification/ViewMouse.thy ===== *)
theory ViewMouse
  imports GLView
begin

text \<open>
  The mouse gestures of \<open>GL_View\<close> (src/Source/View/GL_View.cpp) that change the view
  rather than the model: a left press with a keyboard modifier records the mouse-down
  state, and the moves of the pan, zoom and windowing actions are computed from it, not
  from the previous move. The presses without a modifier and the moves of the draw
  action reach the model; they are \<open>view_step\<close> of the theory Model.
\<close>

datatype MouseAction = MA_None | MA_Draw | MA_Zoom | MA_Pan | MA_Windowing

record Modifiers =
  mod_shift :: bool
  mod_ctrl :: bool
  mod_alt :: bool
  mod_other :: bool

text \<open>The mouse members of \<open>GL_View\<close> (\<open>m_lastMousePos\<close> is never read).\<close>

record MouseState =
  ms_action :: MouseAction
  ms_downPos :: "int \<times> int"
  ms_downWorld :: "real \<times> real"
  ms_downWorldToView :: QMatrix
  ms_downWinLevel :: real
  ms_downWinWidth :: real
  ms_downCursorSize :: real

text \<open>The constructor's initial values.\<close>

definition MouseState_new :: MouseState where
  "MouseState_new =
     \<lparr>ms_action = MA_None, ms_downPos = (0, 0), ms_downWorld = (0, 0), ms_downWorldToView = mat_id,
      ms_downWinLevel = 0.5, ms_downWinWidth = 1, ms_downCursorSize = 8\<rparr>"

definition has_modifier :: "Modifiers \<Rightarrow> bool" where
  "has_modifier m \<longleftrightarrow> mod_shift m \<or> mod_ctrl m \<or> mod_alt m \<or> mod_other m"

text \<open>
  \<open>mousePressEvent\<close> with the left button and a modifier: the press position, the world
  point under it and the view, windowing and cursor size at the press; Shift pans,
  Control zooms, Alt windows, and any other modifier keeps the current action. \<open>None\<close>
  is a press that goes to the model.
\<close>

definition mousePress_view :: "RenderState \<Rightarrow> Cursor \<Rightarrow> MouseState \<Rightarrow> bool \<Rightarrow> Modifiers \<Rightarrow> int \<times> int \<Rightarrow>
                                MouseState option" where
  "mousePress_view rs c ms left mods p =
     (if left \<and> has_modifier mods then
        (let (world, worldToView) = press_transform rs (real_of_int (fst p), real_of_int (snd p));
             ms = ms\<lparr>ms_downPos := p, ms_downWorld := world, ms_downWorldToView := worldToView,
                     ms_downWinLevel := windowingLevel rs, ms_downWinWidth := windowingWidth rs,
                     ms_downCursorSize := cur_radius c\<rparr>
         in Some (if mod_shift mods then ms\<lparr>ms_action := MA_Pan\<rparr>
                  else if mod_ctrl mods then ms\<lparr>ms_action := MA_Zoom\<rparr>
                  else if mod_alt mods then ms\<lparr>ms_action := MA_Windowing\<rparr>
                  else ms))
      else None)"

text \<open>
  \<open>mouseMoveEvent\<close> for the view actions in a window of \<open>w\<close> by \<open>h\<close>: the offsets from
  the press (upwards for the pan) drive \<open>pan_drag\<close>, \<open>zoom_drag\<close> and
  \<open>windowing_drag\<close>; the draw action's move is the model's, and no action does nothing.
\<close>

definition mouseMove_view :: "RenderState \<Rightarrow> Cursor \<Rightarrow> MouseState \<Rightarrow> int \<times> int \<Rightarrow> int \<Rightarrow> int \<Rightarrow>
                               RenderState \<times> Cursor" where
  "mouseMove_view rs c ms e w h =
     (let (dpx, dpy) = ms_downPos ms
      in case ms_action ms of
           MA_Pan \<Rightarrow> (pan_drag rs (ms_downWorldToView ms) (fst e - dpx) (dpy - snd e), c)
         | MA_Zoom \<Rightarrow> zoom_drag rs c (ms_downCursorSize ms) (ms_downWorld ms) (ms_downWorldToView ms)
                        (real_of_int (snd e - dpy)) h
         | MA_Windowing \<Rightarrow> (windowing_drag rs (ms_downWinLevel ms, ms_downWinWidth ms) (fst e - dpx) (snd e - dpy) w h, c)
         | _ \<Rightarrow> (rs, c))"

text \<open>\<open>mouseReleaseEvent\<close>: every action ends (the draw action's \<open>endDraw\<close> is the model's).\<close>

definition mouseRelease_view :: "MouseState \<Rightarrow> MouseState" where
  "mouseRelease_view ms = ms\<lparr>ms_action := MA_None\<rparr>"


section \<open>Returning to the press point undoes the drag\<close>

lemma zoom_scale_zero [simp]: "zoom_scale 0 h = 1"
  by (simp add: zoom_scale_def Let_def)

lemma worldToView_setWorldToViewport [simp]: "worldToView (setWorldToViewport rs t) = worldToView rs"
  by (simp add: setWorldToViewport_def Let_def)

lemma mat_translate_zero: "mat_translate m 0 0 0 = m"
  by (cases m) (simp add: mat_translate_def mat_mul_def)

lemma mat_zoom_one: "mat_translate (mat_scale (mat_translate m a b 0) 1 1 1) (- a) (- b) 0 = m"
  by (cases m) (simp add: mat_translate_def mat_scale_def mat_mul_def algebra_simps)

lemma setRadius_same: "cursor_ok c \<Longrightarrow> cur_radius (setRadius c (cur_radius c)) = cur_radius c"
  by (simp add: setRadius_def cursor_ok_def Let_def)

lemma mouseMove_view_ok: "cursor_ok c \<Longrightarrow> cursor_ok (snd (mouseMove_view rs c ms e w h))"
  by (auto simp: mouseMove_view_def zoom_drag_ok split: prod.split MouseAction.split)

lemma mousePress_view_state:
  assumes "mousePress_view rs c ms True mods p = Some ms'"
  shows "ms_downPos ms' = p \<and> ms_downWorldToView ms' = worldToView rs \<and> ms_downWinLevel ms' = windowingLevel rs \<and>
         ms_downWinWidth ms' = windowingWidth rs \<and> ms_downCursorSize ms' = cur_radius c"
  using assms by (auto simp: mousePress_view_def press_transform_def Let_def split: if_splits prod.splits)

text \<open>
  C27: a pan, zoom or windowing drag that returns to the point of its press leaves the
  view transform, the window level and width, and the cursor size as they were at the
  press: the moves are computed from the mouse-down state, and a zero offset is the
  identity in each (the zoom scale is 1, the window increments are 0 and a window in the
  image range needs no correction).
\<close>

theorem drag_return_restores:
  assumes press: "mousePress_view rs c ms True mods p = Some ms'"
    and "window_in_range rs" "cursor_ok c"
  shows "worldToView (fst (mouseMove_view rs c ms' p w h)) = worldToView rs \<and>
         windowingLevel (fst (mouseMove_view rs c ms' p w h)) = windowingLevel rs \<and>
         windowingWidth (fst (mouseMove_view rs c ms' p w h)) = windowingWidth rs \<and>
         cur_radius (snd (mouseMove_view rs c ms' p w h)) = cur_radius c"
proof -
  have s: "ms_downPos ms' = p" "ms_downWorldToView ms' = worldToView rs" "ms_downWinLevel ms' = windowingLevel rs"
    "ms_downWinWidth ms' = windowingWidth rs" "ms_downCursorSize ms' = cur_radius c"
    using mousePress_view_state [OF press] by simp_all
  obtain px py where p: "p = (px, py)" by fastforce
  have r: "0 \<le> windowingWidth rs" "imageMinValue rs \<le> windowingLevel rs - windowingWidth rs / 2"
    "windowingLevel rs + windowingWidth rs / 2 \<le> imageMaxValue rs"
    using assms(2) by (simp_all add: window_in_range_def)
  show ?thesis
  proof (cases "ms_action ms'")
    case MA_Pan
    then show ?thesis using s p
      by (simp add: mouseMove_view_def pan_drag_def setWorldToView_def Let_def mat_translate_zero)
  next
    case MA_Zoom
    then show ?thesis using s p setRadius_same [OF assms(3)]
      by (simp add: mouseMove_view_def zoom_drag_def setWorldToView_def Let_def mat_zoom_one)
  next
    case MA_Windowing
    then show ?thesis using s p r
      by (simp add: mouseMove_view_def windowing_drag_def incrementWindowing_def setWindowing_def clamp_low_def
                    clamp_high_def Let_def)
  qed (simp_all add: mouseMove_view_def split: prod.split)
qed


theorem drag_return_restores_witness:
  "\<exists>ms'. mousePress_view RenderState_new Cursor_new MouseState_new True
            \<lparr>mod_shift = False, mod_ctrl = True, mod_alt = False, mod_other = False\<rparr> (10, 20) = Some ms' \<and>
         window_in_range RenderState_new \<and> cursor_ok Cursor_new \<and>
         worldToView (fst (mouseMove_view RenderState_new Cursor_new ms' (10, 20) 100 100)) = worldToView RenderState_new \<and>
         cur_radius (snd (mouseMove_view RenderState_new Cursor_new ms' (10, 20) 100 100)) = cur_radius Cursor_new"
proof -
  obtain ms' where p: "mousePress_view RenderState_new Cursor_new MouseState_new True
            \<lparr>mod_shift = False, mod_ctrl = True, mod_alt = False, mod_other = False\<rparr> (10, 20) = Some ms'"
    by (simp add: mousePress_view_def has_modifier_def press_transform_def Let_def split: prod.split)
  have h: "window_in_range RenderState_new" "cursor_ok Cursor_new"
    by (simp_all add: window_in_range_def RenderState_new_def Cursor_new_ok)
  show ?thesis using drag_return_restores [OF p h, of 100 100] p h by blast
qed

end
