(* ===== verification/Spec2Isabelle.thy ===== *)
theory Spec2Isabelle
  imports Controller BltRenderer Shaders VecTest ViewMouse
begin

text \<open>
  \<^bold>\<open>A verification model of VESCL-2D vessel segmentation.\<close>

  The program lets a user draw variable-width curves over an image and snap them to
  vessels. Its model layer (src/Source/Model) has these parts:
  \<^item> \<open>Math::Vec2D\<close> and \<open>CurvePoint\<close>: 2D vectors and (position, radius) pairs.
  \<^item> \<open>Curve\<close>: an ordered \<open>std::list\<close> of points with an edit session. The session is
    \<open>startDrawing\<close>, then \<open>addPoint\<close> (which calls \<open>append\<close> and \<open>absorb\<close>), then
    \<open>endDrawing\<close>. It also has hit-testing (\<open>select\<close>), an input filter
    (\<open>applyFilter\<close>), whole-curve smoothing (\<open>applySmoothing\<close>), resampling into
    cubic "vexels" (\<open>getSampledCurvePoints\<close>, \<open>sampleVexel\<close>) and text I/O.
  \<^item> \<open>Contour\<close>: the curves of a segmentation, keyed by id, with one active curve.
  \<^item> \<open>Image\<close>: an 8- or 16-bit grey raster with its statistics and binary I/O.
  \<^item> \<open>ImageFilterer\<close>: bilinear sampling, the centreline attraction
    \<open>getVecToClosestVessel\<close> and the width detector \<open>getWidthAtP\<close>.
  \<^item> \<open>Model\<close>: owns the contour and the image. It runs the drawing gesture
    (\<open>startDraw\<close>, \<open>updateDraw\<close>, \<open>endDraw\<close>), selection and deletion, the two
    fitting commands (which call the filters), and \<open>save\<close>/\<open>load\<close>.
  \<^item> \<open>GL_View\<close> translates mouse events into these calls. \<open>Controller\<close> does the same
    for the contour menu and its shortcuts. \<open>RenderState\<close> holds the image windowing
    that the windowing drag of the view changes, and the \<open>QMatrix4x4\<close> transforms
    between image, world, view, viewport and window coordinates that the pan and zoom
    drags, \<open>resizeGL\<close> and the centring of a loaded image set; the view converts mouse
    positions with them, and their window-to-contour scale sizes the brush.
  \<^item> \<open>ImageConverter\<close> (Model) turns a loaded \<open>QImage\<close> into an \<open>Image\<close>, and the
    view's \<open>GL_ContourRenderer\<close> (src/Source/View) draws the sampled curves of the
    contour as triangle cells into a framebuffer.
  \<^item> \<open>GL_View::paintGL\<close> updates the image renderer and the two contour renderers (all
    curves but the active one, and the active one) from the render flags and blits
    them. The wheel and the zoom drag resize the brush \<open>Cursor\<close>. The \<open>Controller\<close>
    slots of the File, Image and View menus load, save and reset.

  \<^bold>\<open>Theories.\<close>
  \<^item> Prelude: The real-number abstraction, C's truncating conversion (\<open>c_trunc\<close>) and
    the 32-bit wrap-around of \<open>int\<close> products (\<open>int32\<close>).
    It also holds the positional \<open>std::list\<close> operations on HOL lists: an iterator is an
    index, and \<open>end()\<close> is the length.
  \<^item> VecTest: \<open>Math::Vec3D\<close> as the datatype \<open>vec3\<close> with its operators, and the
    self-test \<open>vmTest::testVector\<close>, its \<open>assert\<close>s a list of checks (\<open>asserts\<close>
    gives the number of the first that fails).
  \<^item> Vec: \<open>vec2\<close>, a real vector space by instantiation, with \<open>length_v\<close>,
    \<open>normalized\<close> (guarded by \<open>flt_epsilon\<close>), \<open>dotProduct\<close>, \<open>crossProduct\<close> and the
    record \<open>CurvePoint\<close>.
  \<^item> Sampling: \<open>sampleVexel\<close> and \<open>getSampledCurvePoints\<close>. The loop over
    consecutive points, shared with \<open>Curve::select\<close>, is \<open>vexel_frames\<close>.
  \<^item> Smoothing: \<open>applySmoothing\<close>, with its sliding window refilled from the
    iterator (\<open>fill_window\<close>, \<open>smooth_loop\<close>). Also \<open>applyFilter\<close> and \<open>filterPoint\<close>.
  \<^item> Curve: The record \<open>Curve\<close> has one field per data member. Every member
    function that changes it is a function \<open>Curve \<Rightarrow> \<dots> \<Rightarrow> Curve\<close> under the source's
    name; \<open>Curve::append\<close> is \<open>append_pt\<close>. The inner loops of \<open>select\<close> and
    \<open>absorb\<close> are \<open>select_samples\<close>, \<open>select_scan\<close> and \<open>absorb_scan\<close>.
  \<^item> Contour: The record \<open>Contour\<close> and its operations. A write through the
    \<open>Curve*\<close> that \<open>Contour::curve\<close> returns is \<open>update_curve\<close>.
  \<^item> Model: The record \<open>Model\<close> holds the contour, the drawing flag, the two pixel
    constants, image validity, and the \<open>RenderState\<close> scale and redraw flags the model
    uses. A call through a \<open>Curve*\<close> is \<open>with_curve\<close>. It returns \<open>Inl NullCurve\<close>
    where the code would dereference \<open>nullptr\<close>, so \<open>startDraw\<close>, \<open>updateDraw\<close> and
    \<open>endDraw\<close> return \<open>model_error + Model\<close>. The theory also holds the events of the
    view and menu (\<open>view_event\<close>, \<open>view_step\<close>, \<open>run_view\<close>).
  \<^item> ImageFilterer: the record \<open>Image\<close> (size, format, byte buffer), \<open>pixel\<close>,
    \<open>imageValueAtP\<close>, \<open>getVecToClosestVessel\<close> (its window loop a fold of
    \<open>moment_step\<close>) and \<open>getWidthAtP\<close>. The function-static kernel of \<open>getWidthAtP\<close>
    is the record \<open>WidthCache\<close>, passed in and returned; \<open>update_cache\<close> is its
    recomputation and \<open>width_from_kernel\<close> the sampling, convolution and edge search.
  \<^item> Stream: models of \<open>std::getline\<close>, \<open>istream::read\<close>, \<open>std::stoi\<close> and integer
    output, with their round trips. An output stream is the string written.
  \<^item> Persistence: \<open>readFromFile\<close>/\<open>writeToFile\<close> of \<open>Curve\<close>, \<open>Contour\<close> and
    \<open>Image\<close>, the image statistics (\<open>computeStats\<close>), and \<open>Model::save\<close>/\<open>load\<close> over
    the model and the image object (\<open>ImageObj\<close>). The float text format is a
    parameter (\<open>fmt\<close>, \<open>rd\<close>) with the contract \<open>float_io\<close>. The two counted reader
    loops are \<open>partial_function (option)\<close>.
  \<^item> Transforms: the record \<open>QMatrix\<close>, a \<open>QMatrix4x4\<close> that scales each axis and
    translates (every matrix the program builds is one), with Qt's \<open>scale\<close>,
    \<open>translate\<close>, \<open>ortho\<close>, product, \<open>inverted\<close>, the point map and \<open>getScale\<close>.
  \<^item> RenderState: the render flags and the windowing (\<open>setWindowingRange\<close>,
    \<open>setDefaultWindowing\<close>, \<open>incrementWindowing\<close> with its two corrections
    \<open>clamp_low\<close>, \<open>clamp_high\<close>), the windowing drag of \<open>GL_View\<close> and the reset of
    \<open>Controller::updateForLoaded\<close>; the transforms as fields of the record, with
    \<open>setWorldToViewport\<close>, \<open>setWorldToView\<close>, \<open>resetWorldToView\<close>,
    \<open>centerImageInViewport\<close>, \<open>resetProjectionMatrix\<close>, \<open>convertWindowToWorld\<close>
    and \<open>convertWindowToImage\<close> (\<open>QVector3D::unproject\<close>). \<open>viewport_pixel\<close> is
    OpenGL's viewport map, which the code's transforms are compared with.
  \<^item> ContourRenderer: the record \<open>GL_ContourRenderer\<close> (its members, the framebuffer
    and shader program as a flag and an option), the constructor, \<open>setShaderData\<close>,
    and \<open>setVertexBuffer\<close> with its line cells (\<open>line_cells\<close>, a skipped short segment
    keeping its start point as the code's \<open>continue\<close> does) and point cells. A write
    past the allocated array is \<open>Inl BufferOverflow\<close> and a bind of the \<open>nullptr\<close>
    framebuffer in \<open>update\<close> (\<open>cr_update\<close>) is \<open>Inl NullFbo\<close>.
  \<^item> ImageConverter: \<open>imageFromQImage\<close> over a record \<open>QImage\<close> (format, size, grey
    samples). Qt's \<open>convertToFormat\<close> is a parameter \<open>conv\<close> with the contract
    \<open>conv_ok\<close> (a grey target keeps the size and gives samples in range); the
    thrown "format not supported" leaves the destination unchanged, and a copy larger
    than the allocated buffer is \<open>None\<close>.
  \<^item> GLView: the record \<open>Cursor\<close> with its pixmap (\<open>cursor_update\<close>, \<open>setRadius\<close>),
    the wheel (\<open>wheel_steps\<close>, \<open>wheelEvent\<close>, with Qt's \<open>qRound\<close>), the press
    (\<open>press_transform\<close>) and the zoom and pan drags that set the world-to-view transform, the record \<open>GL_ImageRenderer\<close> (texture, framebuffer and interpolation state,
    and what a draw shows) with \<open>ir_setImage\<close> and \<open>ir_update\<close>, and \<open>paintGL\<close> over
    the record \<open>GLView\<close> (render state, cursor, renderers), its contour half
    \<open>paint_contours\<close>, \<open>initializeGL\<close> and \<open>resizeGL\<close>. The two contour flags of the
    render state are the fields of the Model record that the model's operations set.
  \<^item> Controller: the record \<open>App\<close> (model, image object, view) and the slots
    \<open>onSave\<close>, \<open>prepareForLoad\<close>, \<open>updateForLoaded\<close>, \<open>onNew\<close>, \<open>onOpen\<close>,
    \<open>onResetWindowing\<close>, \<open>onToggleImageInterpolation\<close>, \<open>onToggleContourVisibility\<close>,
    \<open>onResetView\<close>, \<open>onResize\<close> (the view's \<open>resizeGL\<close>) and \<open>closeEvent\<close>, and the
    contour menu: \<open>onDeselect\<close>, \<open>onDeleteSelected\<close>, \<open>onClearContour\<close> and the two
    fits with the cursor radius in contour units (\<open>expectedRadius\<close>), the vessel fit
    reading the image through \<open>getVecToClosestVessel\<close> with the contrast
    \<open>app_contrast\<close> that \<open>onToggleImageFormat\<close> flips (the Model's contrast accessors
    only forward to the filterer), the width fit with the filterer's width function as
    a parameter. The
    model's copy of the window-to-contour scale follows the render state in every slot
    that changes the transforms. The dialogs' answers (file names, the save
    query's button, whether a stream opened, the image read) are parameters. Also
    \<open>onExport\<close> and the size fields of \<open>ExportDialog\<close> (\<open>onSetWidth\<close>,
    \<open>onSetHeight\<close>, \<open>onSetScale\<close>), with \<open>QString::number\<close>'s rounding a parameter,
    and its file name (\<open>onBrowse\<close>, and \<open>onSetFilename\<close> with the name it computes,
    \<open>export_filename\<close>, over \<open>QFileInfo\<close>'s path parts written out from Qt's documentation).
    The menu wiring of \<open>createMainWindow\<close> is the datatype \<open>Command\<close> (a slot with its
    dialogs' answers) and \<open>controller_step\<close>; \<open>main\<close> is \<open>Controller_new\<close> followed
    by \<open>run_controller\<close>.
  \<^item> Exporter: \<open>exportSegmentation\<close> over the two renderer models: the truncated export
    size, the renderer type of the export type, all curves of the contour, the read-back
    (\<open>renderedImage\<close>, \<open>NullFbo\<close> without a framebuffer) and the pixel flattening.
  \<^item> ViewMouse: the modifier gestures of \<open>GL_View\<close>: the record \<open>MouseState\<close> of its
    mouse members (\<open>MouseState_new\<close>, the constructor's values), the press with a
    modifier (\<open>mousePress_view\<close>, Shift pans, Control zooms, Alt windows), the moves
    of those actions (\<open>mouseMove_view\<close>) and the release.
  \<^item> Shaders: the GLSL programs of GL_ContourRenderer.h and GL_ImageRenderer.h. Each
    fragment shader is a function of its interpolated inputs and uniforms
    (\<open>contour_fragment\<close> selects the program of a renderer type and reads the uniforms
    of \<open>setShaderData\<close>), the vertex shaders pass the five floats of a vertex on
    (\<open>vertex_data\<close>), and a division by zero, undefined in GLSL, is \<open>None\<close>.
  \<^item> BltRenderer: \<open>GL_BltRenderer\<close> with the shader programs it allocates and frees
    counted; its constructor leaks one program (\<open>blt_leaks_one_program\<close>).

  \<^bold>\<open>What is proved.\<close>
  \<^item> The edit session. \<open>curve_inv\<close> says: the counts before and after the edit point add
    up to the list length, the input buffer fits, a draw has nothing after the edit
    point, and an unresolved direction only occurs in an overdraw. Every operation keeps
    it. Rule induction on \<open>curve_reachable\<close> gives it for every reachable state (C1),
    and the edit iterator stays in range (C2).
  \<^item> Selection. A reported hit is within the radius (C3), selection never drops
    points (C4), and endpoints win. On every list of samples the inner loop inserts
    every interior sample within the radius and selects the last hit, not the closest
    (C6).
  \<^item> Drawing. Overdraw collapse clears the curve (C7). A draw step extends the curve at
    its end (C8). An overdraw of a one-point curve can never change it.
  \<^item> Resampling. It keeps both endpoints (C10), is the identity on finely spaced
    curves, and keeps radii within the control points' bounds
    (\<open>getSampled_radius_bounds\<close>).
  \<^item> Smoothing. The sliding window computes the clamped 7-tap convolution
    \<open>smooth_ref\<close> (C13); the modes keep the unsmoothed component, and the count and
    endpoints are kept.
  \<^item> Windowing. \<open>incrementWindowing\<close> keeps a non-negative width exactly when the moved
    window still meets the image range, and then stays in the range (C16); a windowing
    drag inside the view can make the width negative.
  \<^item> Contour. An invariant over reachable contours (C17), the functional behaviour of
    \<open>addCurve\<close> and \<open>removeCurve\<close> (C18, C19) and \<open>selectCurve\<close>, the scenario of
    the specification, and the id counter that \<open>clear\<close> fails to reset: after
    clearing any reachable contour the next curve gets the old counter (C22).
  \<^item> Model and view.
    \<^item> An event sequence that uses no contour command while the left button is held
      never dereferences a null curve, for every image filter (C23).
    \<^item> Delete during a drag does dereference one, from every state with a draw in
      progress (C24).
    \<^item> \<open>Model::select\<close> reports a hit on a miss (\<open>select_miss_reports_hit\<close>).
    \<^item> Fitting changes only positions (C26) or only radii. It is a no-op without
      an image or an active curve. The end-radius correction is as stated
      (\<open>fix_end_radii_spec\<close>).
    \<^item> A drag can always be ended by a release, leaving view and model idle (C40).
  \<^item> Filters. Bilinear sampling stays within the pixel range (C30); on a flat image the
    centreline move is zero. \<open>getWidthAtP\<close> always returns, with a width between 0
    and the sampled window, at most \<open>2 r + 6.2\<close> pixels for the expected radius \<open>r\<close>
    (C34). The kernel always
    fits its 200-entry array (\<open>update_cache_fits\<close>), and \<open>getWidthAtP\<close> with its static cache refines
    the width computed with a fresh kernel (C33).
  \<^item> Persistence. Saving and loading a model reproduces the image and the curves up to
    the rounding of the float format (C35). \<open>Contour::readFromFile\<close> returns on every
    input (C36). \<open>Image::readFromFile\<close> leaves a well-formed buffer exactly when the
    announced size of a valid image fits in an \<open>int\<close>; a 65536 by 65536 header wraps
    the size to 0 and gives a valid image with an empty buffer (C37). A short read
    leaves a valid partial image on every truncated stream (C38), and
    \<open>Curve::readFromFile\<close> returns \<open>true\<close> with the announced number of points
    whatever follows the count (C39).
  \<^item> Rendering and import. \<open>setVertexBuffer\<close> never overruns its array of two cells per
    point, for every renderer type and curve list (C21); a first \<open>update\<close> at size 0 by
    0 binds the \<open>nullptr\<close> framebuffer. \<open>imageFromQImage\<close> gives a valid,
    well-formed image whose pixels are the grey samples of the converted image (C31).
  \<^item> View. \<open>paintGL\<close> hands every curve of a contour with distinct ids to exactly one
    of the two contour renderers (C15). From the state \<open>initializeGL\<close> leaves it never
    fails at a non-zero width, clears the flags and blits both contour layers after a
    change (C28). An image given to the image renderer after one drawn with
    interpolation is drawn without it although interpolation is on (C14). The cursor
    keeps its radius in \<open>[0.25, 15]\<close> and a 32 by 32 pixmap of bytes under every
    operation (\<open>cursor_ok\<close>), and a wheel event of less than 116 eighths of a degree
    is dropped (\<open>wheelEvent_small_angle\<close>).
  \<^item> Controller. Cancel in the save query of File, New does not cancel the import: the
    new image is loaded under the old contour (C5). Saving ends any edit first, and the
    saved file name always has the suffix \<open>vscl\<close>. Every state reached from the start
    (\<open>Controller_new\<close>) by any run of commands (\<open>run_controller\<close>) keeps
    \<open>app_ok\<close>: the model's \<open>imageValid\<close> agrees with its image, the cursor is well
    formed and the renderers keep the framebuffer invariant that \<open>paintGL\<close> needs (C11).
    The cursor colour that \<open>setContourColors\<close> sets is reset to light grey by
    \<open>initializeGL\<close> and every load (\<open>cursor_colour_reset\<close>). Toggling the image
    format reverses every move of the vessel fit and toggling twice restores the
    contrast (\<open>onToggleImageFormat_reverses\<close>).
  \<^item> Shaders. Every shader output is a factor in \<open>[0, 1]\<close>. The antialiased and
    the distance-to-edge encodings reach one half exactly where the binary shader
    covers, so thresholding the vessel-edge export gives the binary one (C12). Every
    vertex \<open>setVertexBuffer\<close> writes for those renderers and the distance-to-centerline
    one gets alpha 0, so the shading fades out inside its cells (C20); the unused
    centerline renderer is cut off on thin curves (\<open>centerline_cell_clipped\<close>). The
    image shader maps the window onto \<open>[0, 1]\<close> increasingly, inverts the image for a
    negative width, and a windowing drag reaches width 0, where it divides by zero (C29).
  \<^item> Gestures. A pan, zoom or windowing drag that comes back to its press point
    restores the view transform, the window and the cursor size of the press (C27).
  \<^item> Vectors. The identities that \<open>vmTest::testVector\<close> checks hold for all vectors:
    the cross product is orthogonal to its factors, normalisation divides by the length
    and gives length 1, and the 2D cross product scales with its first factor (C32);
    the test itself passes on its constants (\<open>testVector_passes\<close>).
  \<^item> Transforms. \<open>resetProjectionMatrix\<close> scales both axes of the viewport-to-window
    map by half the longer window side, so \<open>convertWindowToWorld\<close> finds the world
    point drawn at a pixel, for every pixel, exactly when the window is square (C9); in a
    200 by 100 window the top left corner converts to \<open>(-1, 1/4)\<close> instead of
    \<open>(-1, 1/2)\<close> (\<open>window_corner_world\<close>), and the zoom, which keeps the pressed world
    point fixed in the view (\<open>zoom_drag_anchor\<close>), is anchored off the mouse. The
    window-to-contour scale of a centred image is the image step of one window pixel
    exactly when the window is square (C25): \<open>getScale\<close> takes the square root of a
    determinant whose axes are scaled unequally (\<open>window_scale_nonsquare\<close>).
  \<^item> Export. A contour export at a non-zero width succeeds with a renderer of the
    export type; an export whose size truncates to 0 by 0 (no image loaded) reads back
    through \<open>nullptr\<close> (\<open>export_zero_size\<close>), and typing width 1 for a 3 by 3 image in
    the export dialog leads there through the six-digit scale text
    (\<open>export_width_typed_crashes\<close>). The file-name check of \<open>onSetFilename\<close> renames
    every name with one dot, JPEG names included, to \<open>.png\<close>, and the slot then drops
    the name it computed (\<open>export_filename_png\<close>, \<open>export_filename_examples\<close>).

  \<^bold>\<open>Abstractions and bounds.\<close>
  \<^item> Floating-point values are real numbers, so float rounding is not modelled. Integer
    conversions (\<open>int(len / spacing)\<close>) are modelled exactly with \<open>c_trunc\<close>.
    Division by zero gives 0 in HOL where the C++ gets an infinity; the divisions where
    this could matter are the sample spacing of \<open>sampleVexel\<close>, positive at every call (the
    selection radius and \<open>maxPointSpacing\<close> times a positive window scale), and the
    GLSL divisions, which are \<open>None\<close> at 0 (\<open>glsl_div\<close>). Thresholds such as the
    shaders' one half are exact in reals; in floats they differ by a few units in the
    last place, below what 8-bit output shows. \<open>QMatrix4x4::ortho\<close> returns without a
    change on an empty range, as Qt does.
  \<^item> \<open>Curve::select\<close>, \<open>absorb\<close> and the smoothing loops are total: their recursion
    is structural, or has a measure (\<open>smooth_loop\<close>). No fuel is needed.
  \<^item> The fitting loop runs its fixed 10 passes (\<open>fit_passes\<close>).
  \<^item> In the Model the image filters are parameters of the fitting functions, so what is
    proved about fitting holds for any filter; ImageFilterer models the filters the
    program passes.
  \<^item> The reader loops of Persistence are \<open>partial_function (option)\<close>, and C36 proves
    that they return on every input, so no fuel bound is involved. The text form of a
    float is the parameter pair \<open>fmt\<close>/\<open>rd\<close>; C35 holds for every pair meeting
    \<open>float_io\<close>, whose rounding \<open>q\<close> is the precision of the default format. The
    witnesses use integer text (\<open>fmt_int\<close>, \<open>rd_int\<close>).
  \<^item> Signed overflow of \<open>int\<close> products (the image buffer size in
    \<open>Image::readFromFile\<close> and \<open>writeToFile\<close>) is undefined in C++; the model takes
    the two's complement wrap-around (\<open>int32\<close>). The round trip C35 is stated for
    images whose size fits in an \<open>int\<close> (\<open>image_ok\<close>), and counts written from
    \<open>size()\<close> are assumed below \<open>2^31\<close>.

  \<^bold>\<open>Not modelled.\<close>
  \<^item> Qt's colour conversion itself (a parameter of ImageConverter),
    the OpenGL calls of the renderers, the offscreen context and image saving of \<open>GL_Exporter\<close>, the widgets of
    \<open>ExportDialog\<close>, the colour dialogs, the main window's menus and \<open>main\<close>: Qt
    and OpenGL calls with no state the model reads.
  \<^item> Rotation and perspective in \<open>QMatrix4x4\<close>: the program builds none, so the
    matrices are kept as axis scales and a translation. The pan and zoom drags are
    functions of GLView but not steps of \<open>controller_step\<close>, which covers the menus,
    the shortcuts, the wheel and the resize (\<open>onResize\<close>); the mouse gestures on the
    model are the events of the theory Model, whose scale is a field of the model
    record.
  \<^item> The rasterisation between the vertices of a cell: the properties of the shaders
    hold at the vertices and for every input the interpolation can give them.
  \<^item> Float rounding in \<open>vmTest\<close>: its tolerance is \<open>FLT_EPSILON\<close>, and with real
    arithmetic every checked difference is exactly 0.
\<close>


section \<open>Properties across the view and the model\<close>

lemma gesture_ok_append:
  "gesture_ok d (xs @ ys) = (gesture_ok d xs \<and> gesture_ok (foldl drag_after d xs) ys)"
  by (induction xs arbitrary: d) simp_all

lemma ev_ok_release [simp]: "ev_ok d (MouseRelease p) = True"
  by (cases d) simp_all

text \<open>
  C40: a drag can always be ended. After any event sequence of the gesture protocol from
  a state satisfying the view invariant, releasing the left button runs without a null
  dereference, for every image filter, and leaves both the view and the model out of
  their drawing state, with the invariant kept.
\<close>

theorem drag_always_ends:
  assumes inv: "view_inv v" and ok: "gesture_ok (view_drawing v) evs"
  shows "\<exists>v'. run_view vecTo widthAt v (evs @ [MouseRelease p]) = Inr v' \<and>
              \<not> view_drawing v' \<and> \<not> isDrawing (view_model v') \<and> view_inv v'"
proof -
  have "gesture_ok (view_drawing v) (evs @ [MouseRelease p])"
    using ok by (simp add: gesture_ok_append)
  then obtain v' where v': "run_view vecTo widthAt v (evs @ [MouseRelease p]) = Inr v'" "view_inv v'"
    "view_drawing v' = foldl drag_after (view_drawing v) (evs @ [MouseRelease p])"
    using run_view_gesture [OF inv] by blast
  then have "\<not> view_drawing v'" by simp
  with v' show ?thesis by (simp add: view_inv_def)
qed

theorem drag_always_ends_witness:
  "view_inv (View_new 1) \<and> gesture_ok (view_drawing (View_new 1)) [MousePress True False (pt 0 0), MouseMove (pt 3 0)] \<and>
   (\<exists>v'. run_view (\<lambda>p r. 0) (\<lambda>p d r. 2) (View_new 1)
           ([MousePress True False (pt 0 0), MouseMove (pt 3 0)] @ [MouseRelease (pt 6 0)]) = Inr v' \<and>
         \<not> view_drawing v' \<and> \<not> isDrawing (view_model v') \<and> view_inv v')"
proof -
  have g: "gesture_ok (view_drawing (View_new 1)) [MousePress True False (pt 0 0), MouseMove (pt 3 0)]"
    by (simp add: View_new_def)
  show ?thesis using drag_always_ends [OF View_new_inv g] View_new_inv g by blast
qed

end
